(* ===== verification/Prelude.thy ===== *)
theory Prelude
  imports Main
begin

text \<open>
  The prelude of the development: the error values of the program, the string functions of
  Go's standard library that the program calls, decimal and hexadecimal printing, and the
  generic lemmas the component theories share.

  A Go string is a list of bytes, here a \<^typ>\<open>string\<close> (a list of \<^typ>\<open>char\<close>). A function
  that returns a value and an error is a function into a sum: \<open>Inl\<close> carries the error,
  \<open>Inr\<close> the value. Three collections gather the facts that component proofs use:
  \<open>go_string\<close> (definitions of string functions), \<open>go_err\<close> (rewriting of error
  results) and \<open>inv_intros\<close> (preservation of invariants).
\<close>

named_theorems go_string \<open>string functions of the standard library\<close>
named_theorems go_err \<open>rewriting of results that may be errors\<close>
named_theorems inv_intros \<open>preservation of invariants\<close>

section \<open>Error values\<close>

text \<open>
  The reason of a build error is a struct of two strings (\<open>internal/helm/chart/errors.go\<close>);
  it is compared field by field and is itself an error.
\<close>

datatype build_error_reason = BuildErrorReason (reason_name: string) (reason_summary: string)

text \<open>
  The error values the program builds. \<open>Sentinel\<close> is a package-level variable made by
  \<open>errors.New\<close>, known by its text; \<open>ErrorString\<close> a fresh error without a cause;
  \<open>WrapError\<close> the result of \<open>fmt.Errorf\<close> with the verb for wrapping, which keeps
  its full text and the error it wraps; \<open>JoinError\<close> is \<open>errors.Join\<close>;
  \<open>PathError\<close> and \<open>LinkError\<close> are the errors of package \<open>os\<close> (operation, paths,
  cause). The other constructors are the program's own error types. Errors are compared by
  structure: where Go compares the addresses of two error objects, the model cannot tell two
  equal ones apart. \<open>Panic\<close> is no error value: it stands for a run-time panic on its way
  through callers that do not recover, which run their deferred calls as on an error.
\<close>

datatype go_error =
    Sentinel string
  | ErrorString string
  | WrapError string go_error
  | JoinError "go_error list"
  | ErrReference go_error
  | ErrExternal go_error
  | PathError string string go_error
  | LinkError string string string go_error
  | ReasonError build_error_reason
  | BuildError build_error_reason go_error
  | Panic string

fun join_with :: "string \<Rightarrow> string list \<Rightarrow> string" where
  "join_with sep [] = []"
| "join_with sep [w] = w"
| "join_with sep (w # v # ws) = w @ sep @ join_with sep (v # ws)"

fun error_string :: "go_error \<Rightarrow> string" where
  "error_string (Sentinel m) = m"
| "error_string (ErrorString m) = m"
| "error_string (WrapError m e) = m"
| "error_string (JoinError es) = join_with [CHR 0x0A] (map error_string es)"
| "error_string (ErrReference e) = error_string e"
| "error_string (ErrExternal e) = error_string e"
| "error_string (PathError op p e) = op @ '' '' @ p @ '': '' @ error_string e"
| "error_string (LinkError op p q e) = op @ '' '' @ p @ '' '' @ q @ '': '' @ error_string e"
| "error_string (ReasonError r) = reason_summary r"
| "error_string (BuildError r e) =
     (if reason_summary r = [] then error_string e
      else reason_summary r @ '': '' @ error_string e)"
| "error_string (Panic m) = m"

text \<open>\<open>fmt.Errorf("pre: %w", err)\<close>, the form of nearly every wrapping in the program.\<close>

definition wrap :: "string \<Rightarrow> go_error \<Rightarrow> go_error" where
  "wrap pre e = WrapError (pre @ '': '' @ error_string e) e"

text \<open>
  \<open>errors.Is\<close>: equality with the target, then the error's own \<open>Is\<close> method (only
  build errors have one), then the errors it unwraps to.
\<close>

fun errors_is :: "go_error \<Rightarrow> go_error \<Rightarrow> bool" where
  "errors_is (Sentinel m) t = (Sentinel m = t)"
| "errors_is (ErrorString m) t = (ErrorString m = t)"
| "errors_is (WrapError m e) t = (WrapError m e = t \<or> errors_is e t)"
| "errors_is (JoinError es) t = (JoinError es = t \<or> list_ex (\<lambda>e. errors_is e t) es)"
| "errors_is (ErrReference e) t = (ErrReference e = t \<or> errors_is e t)"
| "errors_is (ErrExternal e) t = (ErrExternal e = t \<or> errors_is e t)"
| "errors_is (PathError op p e) t = (PathError op p e = t \<or> errors_is e t)"
| "errors_is (LinkError op p q e) t = (LinkError op p q e = t \<or> errors_is e t)"
| "errors_is (ReasonError r) t = (ReasonError r = t)"
| "errors_is (BuildError r e) t =
     (BuildError r e = t \<or> ReasonError r = t \<or> errors_is e t)"
| "errors_is (Panic m) t = (Panic m = t)"

lemma errors_is_refl [simp]: "errors_is e e"
  by (cases e) simp_all

lemma errors_is_wrap [simp, go_err]:
  "errors_is (wrap pre e) t \<longleftrightarrow> wrap pre e = t \<or> errors_is e t"
  by (auto simp: wrap_def)

lemma error_string_wrap [simp]: "error_string (wrap pre e) = pre @ '': '' @ error_string e"
  by (simp add: wrap_def)

lemma wrap_neq [simp]:
  "wrap pre e \<noteq> Sentinel m" "wrap pre e \<noteq> ReasonError r" "wrap pre e \<noteq> ErrorString m"
  "wrap pre e \<noteq> BuildError r e'" "wrap pre e \<noteq> ErrReference e'" "wrap pre e \<noteq> ErrExternal e'"
  "wrap pre e \<noteq> PathError op p e'" "wrap pre e \<noteq> LinkError op p q e'"
  by (simp_all add: wrap_def)

text \<open>The sentinel \<open>fs.ErrNotExist\<close> of the standard library, and \<open>os.IsNotExist\<close>.\<close>

definition ErrNotExist :: go_error where
  "ErrNotExist = Sentinel ''file does not exist''"

definition SkipDir :: go_error where
  "SkipDir = Sentinel ''skip this directory''"

definition EOF :: go_error where
  "EOF = Sentinel ''EOF''"

section \<open>Results\<close>

text \<open>Sequencing of steps that may fail: the first error is returned at once.\<close>

definition bindE :: "'e + 'a \<Rightarrow> ('a \<Rightarrow> 'e + 'b) \<Rightarrow> 'e + 'b" where
  "bindE r f = (case r of Inl e \<Rightarrow> Inl e | Inr x \<Rightarrow> f x)"

definition mapErr :: "('e \<Rightarrow> 'f) \<Rightarrow> 'e + 'a \<Rightarrow> 'f + 'a" where
  "mapErr h r = (case r of Inl e \<Rightarrow> Inl (h e) | Inr x \<Rightarrow> Inr x)"

lemma bindE_simps [simp, go_err]:
  "bindE (Inl e) f = Inl e"
  "bindE (Inr x) f = f x"
  by (simp_all add: bindE_def)

lemma mapErr_simps [simp, go_err]:
  "mapErr h (Inl e) = Inl (h e)"
  "mapErr h (Inr x) = Inr x"
  by (simp_all add: mapErr_def)

lemma bindE_Inr_iff [go_err]: "bindE r f = Inr y \<longleftrightarrow> (\<exists>x. r = Inr x \<and> f x = Inr y)"
  by (cases r) simp_all

lemma bindE_Inl_iff [go_err]:
  "bindE r f = Inl e \<longleftrightarrow> r = Inl e \<or> (\<exists>x. r = Inr x \<and> f x = Inl e)"
  by (cases r) simp_all

lemma mapErr_Inr_iff [simp, go_err]: "mapErr h r = Inr x \<longleftrightarrow> r = Inr x"
  by (cases r) simp_all

lemma mapErr_Inl_iff [go_err]: "mapErr h r = Inl f \<longleftrightarrow> (\<exists>e. r = Inl e \<and> f = h e)"
  by (cases r) auto

end
