(* ===== verification/GoPath.thy ===== *)
theory GoPath
  imports GoStrings
begin

text \<open>
  The functions of Go's \<open>path\<close> and \<open>path/filepath\<close> packages (on Unix, where the two
  agree) that the program calls: \<open>Clean\<close>, \<open>Join\<close>, \<open>Base\<close>, \<open>IsAbs\<close> and
  \<open>Rel\<close>. A path is cleaned by splitting it at slashes and running the elements over a
  stack; the library does the same on a byte buffer.
\<close>

section \<open>Clean\<close>

definition slash :: char where
  "slash = CHR ''/''"

definition is_abs :: "string \<Rightarrow> bool" where
  "is_abs s = has_prefix s ''/''"

definition clean_step :: "bool \<Rightarrow> string list \<Rightarrow> string \<Rightarrow> string list" where
  "clean_step rooted st w =
     (if w = [] \<or> w = ''.'' then st
      else if w = ''..'' then
        (case st of
           [] \<Rightarrow> if rooted then [] else [w]
         | x # xs \<Rightarrow> if x = ''..'' then w # st else xs)
      else w # st)"

definition clean_elems :: "bool \<Rightarrow> string list \<Rightarrow> string list" where
  "clean_elems rooted ws = rev (foldl (clean_step rooted) [] ws)"

definition path_elems :: "string \<Rightarrow> string list" where
  "path_elems s = clean_elems (is_abs s) (split_char slash s)"

definition render_path :: "bool \<Rightarrow> string list \<Rightarrow> string" where
  "render_path rooted ws =
     (if rooted then slash # join_with [slash] ws
      else if ws = [] then ''.'' else join_with [slash] ws)"

definition path_clean :: "string \<Rightarrow> string" where
  "path_clean s = (if s = [] then ''.'' else render_path (is_abs s) (path_elems s))"

text \<open>
  The elements of a cleaned path: none is empty, a dot, or holds a slash; dot-dots only lead,
  and only in a relative path. On the stack (reversed) that is the invariant below.
\<close>

definition plain_elem :: "string \<Rightarrow> bool" where
  "plain_elem w \<longleftrightarrow> w \<noteq> [] \<and> w \<noteq> ''.'' \<and> w \<noteq> ''..'' \<and> slash \<notin> set w"

fun clean_stack :: "bool \<Rightarrow> string list \<Rightarrow> bool" where
  "clean_stack rooted [] = True"
| "clean_stack rooted (w # st) =
     (if w = ''..'' then \<not> rooted \<and> set st \<subseteq> {''..''}
      else plain_elem w \<and> clean_stack rooted st)"

lemma clean_stack_dotdots: "set st \<subseteq> {''..''} \<Longrightarrow> \<not> rooted \<Longrightarrow> clean_stack rooted st"
  by (induction st) auto

lemma clean_stack_step [inv_intros]:
  assumes "clean_stack rooted st" and "slash \<notin> set w"
  shows "clean_stack rooted (clean_step rooted st w)"
proof (cases st)
  case Nil
  with assms show ?thesis by (auto simp: clean_step_def plain_elem_def)
next
  case (Cons x xs)
  show ?thesis
  proof (cases "x = ''..''")
    case True
    with Cons assms show ?thesis by (auto simp: clean_step_def plain_elem_def)
  next
    case False
    with Cons assms show ?thesis by (auto simp: clean_step_def plain_elem_def)
  qed
qed

lemma clean_stack_foldl:
  "clean_stack rooted st \<Longrightarrow> \<forall>w \<in> set ws. slash \<notin> set w \<Longrightarrow>
   clean_stack rooted (foldl (clean_step rooted) st ws)"
  by (induction ws arbitrary: st) (auto intro: clean_stack_step)

lemma clean_stack_elems: "clean_stack (is_abs s) (rev (path_elems s))"
  unfolding path_elems_def clean_elems_def
  by (simp add: clean_stack_foldl split_char_no_sep)

lemma foldl_clean_stack:
  "clean_stack rooted (rev ws @ st) \<Longrightarrow> foldl (clean_step rooted) st ws = rev ws @ st"
proof (induction ws arbitrary: st)
  case (Cons w ws)
  have "clean_stack rooted (w # st)"
    using Cons.prems
  proof -
    have tl: "clean_stack rooted (us @ vs) \<Longrightarrow> clean_stack rooted vs" for us vs
      by (induction us) (auto split: if_splits intro: clean_stack_dotdots)
    from Cons.prems tl [of "rev ws" "w # st"] show ?thesis by simp
  qed
  then have "clean_step rooted st w = w # st"
    by (cases st) (auto simp: clean_step_def plain_elem_def split: if_splits)
  with Cons show ?case by simp
qed simp

lemma clean_elems_id: "clean_stack rooted (rev ws) \<Longrightarrow> clean_elems rooted ws = ws"
  using foldl_clean_stack [of rooted ws "[]"] by (simp add: clean_elems_def)

lemma clean_stack_no_slash:
  "clean_stack rooted st \<Longrightarrow> w \<in> set st \<Longrightarrow> slash \<notin> set w \<and> w \<noteq> [] \<and> w \<noteq> ''.''"
  by (induction st) (auto simp: plain_elem_def slash_def split: if_splits)

lemma clean_stack_rooted: "clean_stack True st \<Longrightarrow> w \<in> set st \<Longrightarrow> plain_elem w"
  by (induction st) (auto split: if_splits)

lemma path_elems_render:
  assumes "clean_stack rooted (rev ws)"
  shows "path_elems (render_path rooted ws) = ws" and "is_abs (render_path rooted ws) = rooted"
    and "render_path rooted ws \<noteq> []"
proof -
  have ns: "\<forall>w \<in> set ws. slash \<notin> set w"
    using assms clean_stack_no_slash by fastforce
  have ne: "\<forall>w \<in> set ws. w \<noteq> []"
    using assms clean_stack_no_slash by fastforce
  have split: "split_char slash (join_with [slash] ws) = (if ws = [] then [[]] else ws)"
    using ns by (auto simp: split_join_char)
  have hd: "ws \<noteq> [] \<Longrightarrow> \<not> is_abs (join_with [slash] ws)"
    using ns ne by (cases ws rule: remdups_adj.cases) (auto simp: is_abs_def slash_def neq_Nil_conv)
  show "is_abs (render_path rooted ws) = rooted"
    using hd by (auto simp: render_path_def is_abs_def slash_def)
  show "render_path rooted ws \<noteq> []"
    using ne by (cases ws rule: remdups_adj.cases) (auto simp: render_path_def)
  show "path_elems (render_path rooted ws) = ws"
  proof (cases rooted)
    case True
    then have "path_elems (render_path rooted ws) =
        clean_elems True ([] # split_char slash (join_with [slash] ws))"
      by (simp add: path_elems_def render_path_def is_abs_def slash_def)
    also have "\<dots> = clean_elems True ws"
      using split by (simp add: clean_elems_def clean_step_def)
    finally show ?thesis using assms True by (simp add: clean_elems_id)
  next
    case False
    show ?thesis
    proof (cases "ws = []")
      case True
      with False show ?thesis
        by (simp add: render_path_def path_elems_def is_abs_def clean_elems_def clean_step_def slash_def)
    next
      case ws: False
      with False hd split have "path_elems (render_path rooted ws) = clean_elems False ws"
        by (simp add: path_elems_def render_path_def)
      with assms False show ?thesis by (simp add: clean_elems_id)
    qed
  qed
qed

lemma path_clean_neq_Nil [simp]: "path_clean s \<noteq> []"
  by (simp add: path_clean_def path_elems_render(3) clean_stack_elems)

lemma is_abs_clean [simp]: "is_abs (path_clean s) = is_abs s"
  by (auto simp: path_clean_def path_elems_render(2) clean_stack_elems is_abs_def [of "[]"] is_abs_def [of "''.''"])

lemma path_elems_clean [simp]: "path_elems (path_clean s) = path_elems s"
proof (cases "s = []")
  case True
  then show ?thesis
    by (simp add: path_clean_def path_elems_def is_abs_def clean_elems_def clean_step_def slash_def)
next
  case False
  then show ?thesis by (simp add: path_clean_def path_elems_render(1) clean_stack_elems)
qed

lemma path_clean_idem [simp]: "path_clean (path_clean s) = path_clean s"
proof -
  have "path_clean (path_clean s) = render_path (is_abs s) (path_elems s)"
    by (simp add: path_clean_def [of "path_clean s"])
  also have "\<dots> = path_clean s"
    by (cases "s = []")
      (simp_all add: path_clean_def path_elems_def is_abs_def clean_elems_def clean_step_def render_path_def slash_def)
  finally show ?thesis .
qed

section \<open>Join, Base, Rel\<close>

definition path_join :: "string list \<Rightarrow> string" where
  "path_join es =
     (let ne = filter (\<lambda>e. e \<noteq> []) es in
      if ne = [] then [] else path_clean (join_with ''/'' ne))"

definition path_base :: "string \<Rightarrow> string" where
  "path_base s =
     (if s = [] then ''.''
      else let t = trim_right_char s slash in
           if t = [] then ''/'' else last (split_char slash t))"

fun strip_common :: "'a list \<Rightarrow> 'a list \<Rightarrow> 'a list \<times> 'a list" where
  "strip_common (x # xs) (y # ys) = (if x = y then strip_common xs ys else (x # xs, y # ys))"
| "strip_common xs ys = (xs, ys)"

text \<open>
  \<open>Rel\<close> fails when one path is absolute and the other is not, or when the way up from the
  base leads through a dot-dot.
\<close>

definition path_rel :: "string \<Rightarrow> string \<Rightarrow> go_error + string" where
  "path_rel base targ =
     (if is_abs base \<noteq> is_abs targ then
        Inl (ErrorString (''Rel: can't make '' @ targ @ '' relative to '' @ base))
      else
        let (b, t) = strip_common (path_elems base) (path_elems targ) in
        if b \<noteq> [] \<and> hd b = ''..'' then
          Inl (ErrorString (''Rel: can't make '' @ targ @ '' relative to '' @ base))
        else Inr (render_path False (map (\<lambda>_. ''..'') b @ t)))"

lemma strip_common_append: "strip_common xs ys = (b, t) \<Longrightarrow> \<exists>p. xs = p @ b \<and> ys = p @ t"
proof (induction xs ys arbitrary: b t rule: strip_common.induct)
  case (1 x xs y ys)
  show ?case
  proof (cases "x = y")
    case True
    with 1 obtain p where "xs = p @ b \<and> ys = p @ t" by auto
    with True have "x # xs = (x # p) @ b \<and> y # ys = (x # p) @ t" by simp
    then show ?thesis by blast
  next
    case False
    with 1 show ?thesis by auto
  qed
qed auto

text \<open>A path lies inside a root when its elements continue the root's.\<close>

definition inside :: "string \<Rightarrow> string \<Rightarrow> bool" where
  "inside root p \<longleftrightarrow> is_abs p = is_abs root \<and> prefix (path_elems root) (path_elems p)"

lemma inside_refl [simp]: "inside r r"
  by (simp add: inside_def)

lemma inside_trans: "inside r p \<Longrightarrow> inside p q \<Longrightarrow> inside r q"
  by (auto simp: inside_def)

lemma inside_clean [simp]: "inside (path_clean r) p = inside r p" "inside r (path_clean p) = inside r p"
  by (simp_all add: inside_def)

text \<open>A file that lies directly in a directory: its path is the directory's and one element.\<close>

definition directly_in :: "string \<Rightarrow> string \<Rightarrow> bool" where
  "directly_in d p \<longleftrightarrow>
     is_abs p = is_abs d \<and> (\<exists>x. plain_elem x \<and> path_elems p = path_elems d @ [x])"

lemma directly_in_inside: "directly_in d p \<Longrightarrow> inside d p"
  by (auto simp: directly_in_def inside_def)

lemma clean_elems_snoc: "plain_elem x \<Longrightarrow> clean_elems r (ws @ [x]) = clean_elems r ws @ [x]"
  by (simp add: clean_elems_def clean_step_def plain_elem_def)

lemma path_join_elem:
  assumes "plain_elem x"
  shows "path_elems (path_join [d, x]) = path_elems d @ [x]" and "is_abs (path_join [d, x]) = is_abs d"
proof -
  have x: "x \<noteq> []" "slash \<notin> set x" using assms by (auto simp: plain_elem_def)
  have ax: "\<not> is_abs x" using x by (cases x) (auto simp: is_abs_def slash_def)
  have nil: "path_elems [] = []"
    by (simp add: path_elems_def is_abs_def clean_elems_def clean_step_def slash_def)
  have xe: "path_elems x = [x]"
    using assms x(2) ax by (simp add: path_elems_def split_char_word clean_elems_def clean_step_def plain_elem_def)
  show "path_elems (path_join [d, x]) = path_elems d @ [x]"
  proof (cases "d = []")
    case True
    with x xe nil show ?thesis by (simp add: path_join_def)
  next
    case False
    have "is_abs (d @ slash # x) = is_abs d" using False by (cases d) (simp_all add: is_abs_def)
    then have "path_elems (d @ slash # x) = path_elems d @ [x]"
      using assms x(2) by (simp add: path_elems_def split_char_at split_char_word clean_elems_snoc del: split_char.simps)
    with False x show ?thesis by (simp add: path_join_def slash_def)
  qed
  have "is_abs (a # l) = (a = CHR ''/'')" and "\<not> is_abs []" for a l
    by (simp_all add: is_abs_def)
  then show "is_abs (path_join [d, x]) = is_abs d"
    using x ax by (cases d) (simp_all add: path_join_def)
qed

lemma directly_in_join [intro]: "plain_elem x \<Longrightarrow> directly_in d (path_join [d, x])"
  by (auto simp: directly_in_def path_join_elem)

lemma path_join_elem_inject:
  "plain_elem x \<Longrightarrow> plain_elem y \<Longrightarrow> path_join [d, x] = path_join [d, y] \<longleftrightarrow> x = y"
  by (metis last_snoc path_join_elem(1))

text \<open>\<open>filepath.Abs\<close>, with the working directory or the error in getting it.\<close>

definition abs_path :: "go_error + string \<Rightarrow> string \<Rightarrow> go_error + string" where
  "abs_path cwd path =
     (if is_abs path then Inr (path_clean path)
      else bindE cwd (\<lambda>wd. Inr (path_join [wd, path])))"

end
