(* ===== verification/GoGlob.thy ===== *)
theory GoGlob
  imports GoPath
begin

text \<open>
  Go's \<open>filepath.Match\<close> on Unix, which the ignore rules of the chart loader rest on. A
  pattern is consumed chunk by chunk: a run of stars and the text up to the next star that is
  not inside a character class. Runes in classes are decoded from UTF-8.
\<close>

definition ErrBadPattern :: go_error where
  "ErrBadPattern = Sentinel ''syntax error in pattern''"

section \<open>Decoding one rune\<close>

text \<open>
  \<open>utf8.DecodeRuneInString\<close>: the code point and the number of bytes read; a malformed
  sequence gives the replacement character and one byte, the empty string zero bytes.
\<close>

definition rune_error :: nat where
  "rune_error = 0xFFFD"

definition cont_byte :: "nat \<Rightarrow> nat \<Rightarrow> nat \<Rightarrow> bool" where
  "cont_byte lo hi b \<longleftrightarrow> lo \<le> b \<and> b \<le> hi"

definition decode_rune :: "string \<Rightarrow> nat \<times> nat" where
  "decode_rune s =
     (case map (of_char :: char \<Rightarrow> nat) (take 4 s) of
        [] \<Rightarrow> (rune_error, 0)
      | b0 # bs \<Rightarrow>
          if b0 < 0x80 then (b0, 1)
          else case bs of
            [] \<Rightarrow> (rune_error, 1)
          | b1 # bs1 \<Rightarrow>
              if 0xC2 \<le> b0 \<and> b0 \<le> 0xDF then
                (if cont_byte 0x80 0xBF b1 then ((b0 mod 32) * 64 + b1 mod 64, 2) else (rune_error, 1))
              else if 0xE0 \<le> b0 \<and> b0 \<le> 0xEF then
                (if cont_byte (if b0 = 0xE0 then 0xA0 else 0x80) (if b0 = 0xED then 0x9F else 0xBF) b1
                 then (case bs1 of
                         [] \<Rightarrow> (rune_error, 1)
                       | b2 # _ \<Rightarrow>
                           if cont_byte 0x80 0xBF b2
                           then ((b0 mod 16) * 4096 + (b1 mod 64) * 64 + b2 mod 64, 3)
                           else (rune_error, 1))
                 else (rune_error, 1))
              else if 0xF0 \<le> b0 \<and> b0 \<le> 0xF4 then
                (if cont_byte (if b0 = 0xF0 then 0x90 else 0x80) (if b0 = 0xF4 then 0x8F else 0xBF) b1
                 then (case bs1 of
                         b2 # b3 # _ \<Rightarrow>
                           if cont_byte 0x80 0xBF b2 \<and> cont_byte 0x80 0xBF b3
                           then ((b0 mod 8) * 262144 + (b1 mod 64) * 4096 + (b2 mod 64) * 64 + b3 mod 64, 4)
                           else (rune_error, 1)
                       | _ \<Rightarrow> (rune_error, 1))
                 else (rune_error, 1))
              else (rune_error, 1))"

lemma decode_rune_progress: "s \<noteq> [] \<Longrightarrow> 1 \<le> snd (decode_rune s)"
  by (cases s) (auto simp: decode_rune_def Let_def split: list.splits)

section \<open>Matching a chunk\<close>

text \<open>\<open>getEsc\<close>: one possibly escaped rune of a character class and the rest of the chunk.\<close>

definition getEsc :: "string \<Rightarrow> go_error + nat \<times> string" where
  "getEsc chunk =
     (if chunk = [] \<or> hd chunk = CHR ''-'' \<or> hd chunk = CHR '']'' then Inl ErrBadPattern
      else
        let c = (if hd chunk = CHR 0x5C then tl chunk else chunk) in
        if c = [] then Inl ErrBadPattern
        else
          let (r, n) = decode_rune c; rest = drop n c in
          if r = rune_error \<and> n = 1 then Inl ErrBadPattern
          else if rest = [] then Inl ErrBadPattern
          else Inr (r, rest))"

lemma getEsc_shorter: "getEsc chunk = Inr (r, rest) \<Longrightarrow> length rest < length chunk"
proof -
  assume *: "getEsc chunk = Inr (r, rest)"
  let ?c = "if hd chunk = CHR 0x5C then tl chunk else chunk"
  from * have ne: "chunk \<noteq> []" "?c \<noteq> []" and rest: "rest = drop (snd (decode_rune ?c)) ?c"
    by (auto simp: getEsc_def Let_def split: if_splits prod.splits)
  have "length rest < length ?c"
    using rest decode_rune_progress [OF ne(2)] ne(2) by simp
  also have "\<dots> \<le> length chunk" by simp
  finally show ?thesis .
qed

text \<open>The ranges of a class up to its closing bracket, for the rune read from the name.\<close>

function class_ranges :: "nat \<Rightarrow> bool \<Rightarrow> nat \<Rightarrow> string \<Rightarrow> go_error + bool \<times> string" where
  "class_ranges r m nrange chunk =
     (if chunk \<noteq> [] \<and> hd chunk = CHR '']'' \<and> nrange > 0 then Inr (m, tl chunk)
      else case getEsc chunk of
        Inl e \<Rightarrow> Inl e
      | Inr (lo, c1) \<Rightarrow>
          if hd c1 = CHR ''-'' then
            (case getEsc (tl c1) of
               Inl e \<Rightarrow> Inl e
             | Inr (hi, c2) \<Rightarrow> class_ranges r (m \<or> lo \<le> r \<and> r \<le> hi) (Suc nrange) c2)
          else class_ranges r (m \<or> lo \<le> r \<and> r \<le> lo) (Suc nrange) c1)"
  by pat_completeness auto
termination
proof (relation "measure (\<lambda>(r, m, nrange, chunk). length chunk)", goal_cases)
  case (3 r m nrange chunk x lo c1)
  then show ?case using getEsc_shorter by auto
next
  case (2 r m nrange chunk x lo c1 y hi c2)
  then have "length c1 < length chunk" and "length c2 < length (tl c1)"
    using getEsc_shorter [of chunk lo c1] getEsc_shorter [of "tl c1" hi c2] by auto
  then show ?case by simp
qed simp

declare class_ranges.simps [simp del]

lemma class_ranges_shorter:
  "class_ranges r m nrange chunk = Inr (b, rest) \<Longrightarrow> length rest < length chunk"
proof (induction r m nrange chunk rule: class_ranges.induct)
  case (1 r m nrange chunk)
  show ?case
  proof (cases "chunk \<noteq> [] \<and> hd chunk = CHR '']'' \<and> nrange > 0")
    case True
    with 1(3) show ?thesis by (subst (asm) class_ranges.simps) auto
  next
    case False
    then obtain lo c1 where e1: "getEsc chunk = Inr (lo, c1)"
      using 1(3) by (subst (asm) class_ranges.simps) (auto split: sum.splits)
    note l1 = getEsc_shorter [OF e1]
    show ?thesis
    proof (cases "hd c1 = CHR ''-''")
      case True
      then obtain hi c2 where e2: "getEsc (tl c1) = Inr (hi, c2)"
        using False e1 1(3) by (subst (asm) class_ranges.simps) (auto split: sum.splits)
      then have "length rest < length c2"
        using 1(1) False e1 True 1(3)
        by (subst (asm) (2) class_ranges.simps) (auto split: if_splits)
      with getEsc_shorter [OF e2] l1 show ?thesis by simp
    next
      case hd: False
      then have "length rest < length c1"
        using 1(2) False e1 1(3)
        by (subst (asm) (2) class_ranges.simps) (auto split: if_splits)
      with l1 show ?thesis by simp
    qed
  qed
qed


text \<open>
  \<open>matchChunk\<close>: the rest of the name after the chunk, if it matches. After a failure the
  chunk is read on, only to find out whether it is well-formed.
\<close>

function match_chunk :: "bool \<Rightarrow> string \<Rightarrow> string \<Rightarrow> go_error + string option" where
  "match_chunk failed0 chunk s =
     (if chunk = [] then Inr (if failed0 then None else Some s)
      else
        let failed = (failed0 \<or> s = []) in
        if hd chunk = CHR ''['' then
          let (r, n) = (if failed then (0, 0) else decode_rune s);
              c1 = tl chunk;
              negated = (c1 \<noteq> [] \<and> hd c1 = CHR 0x5E);
              c2 = (if negated then tl c1 else c1) in
          (case class_ranges r False 0 c2 of
             Inl e \<Rightarrow> Inl e
           | Inr (m, c3) \<Rightarrow> match_chunk (failed \<or> m = negated) c3 (drop n s))
        else if hd chunk = CHR ''?'' then
          match_chunk (failed \<or> hd s = slash) (tl chunk)
            (if failed then s else drop (snd (decode_rune s)) s)
        else
          let c1 = (if hd chunk = CHR 0x5C then tl chunk else chunk) in
          if c1 = [] then Inl ErrBadPattern
          else match_chunk (failed \<or> hd c1 \<noteq> hd s) (tl c1) (if failed then s else tl s))"
  by pat_completeness auto
termination
proof (relation "measure (\<lambda>(failed, chunk, s). length chunk)", goal_cases)
  case (2 failed0 chunk s failed x r n c1 negated c2 y m c3)
  then have "class_ranges r False 0 c2 = Inr (m, c3)" by simp
  then have "length c3 < length c2" by (rule class_ranges_shorter)
  moreover have "length c2 \<le> length chunk"
    using 2 by simp
  ultimately show ?case by simp
qed (auto split: if_splits)

declare match_chunk.simps [simp del]

section \<open>Splitting a pattern into chunks\<close>

fun scan :: "bool \<Rightarrow> string \<Rightarrow> string \<times> string" where
  "scan inrange [] = ([], [])"
| "scan inrange (c # cs) =
     (if c = CHR 0x5C then
        (case cs of
           [] \<Rightarrow> ([c], [])
         | d # ds \<Rightarrow> (let (a, b) = scan inrange ds in (c # d # a, b)))
      else if c = CHR ''*'' \<and> \<not> inrange then ([], c # cs)
      else
        (let (a, b) = scan (if c = CHR ''['' then True else if c = CHR '']'' then False else inrange) cs
         in (c # a, b)))"

definition scanChunk :: "string \<Rightarrow> bool \<times> string \<times> string" where
  "scanChunk p =
     (let q = dropWhile (\<lambda>c. c = CHR ''*'') p; (a, b) = scan False q in (q \<noteq> p, a, b))"

lemma scan_append: "scan inr p = (a, b) \<Longrightarrow> p = a @ b"
proof (induction inr p arbitrary: a b rule: scan.induct)
  case (2 inr c cs)
  then show ?case
    by (auto split: if_splits list.splits prod.splits)
qed simp

lemma scanChunk_shorter:
  assumes "scanChunk p = (star, chunk, rest)" and "p \<noteq> []"
  shows "length rest < length p"
proof -
  let ?q = "dropWhile (\<lambda>c. c = CHR ''*'') p"
  from assms(1) have sc: "scan False ?q = (chunk, rest)"
    by (auto simp: scanChunk_def Let_def split: prod.splits)
  then have len: "length ?q = length chunk + length rest"
    using scan_append by fastforce
  show ?thesis
  proof (cases "?q = p")
    case True
    with assms(2) hd_dropWhile [of "\<lambda>c. c = CHR ''*''" p]
    obtain c cs where p: "p = c # cs" "c \<noteq> CHR ''*''"
      by (cases p) auto
    with sc True have "chunk \<noteq> []"
      by (auto split: if_splits list.splits prod.splits)
    with len True show ?thesis by simp
  next
    case False
    then have "length ?q < length p"
      by (metis length_dropWhile_le le_neq_implies_less dropWhile_eq_self_iff
          hd_dropWhile length_append not_add_less1 takeWhile_dropWhile_id self_append_conv2 append_eq_append_conv)
    with len show ?thesis by simp
  qed
qed

section \<open>The matcher\<close>

text \<open>Matching a chunk at some later position that a star can reach without passing a slash.\<close>

fun skip_match :: "string \<Rightarrow> bool \<Rightarrow> string \<Rightarrow> go_error + string option" where
  "skip_match chunk last_chunk [] = Inr None"
| "skip_match chunk last_chunk (c # cs) =
     (if c = slash then Inr None
      else case match_chunk False chunk cs of
        Inl e \<Rightarrow> Inl e
      | Inr None \<Rightarrow> skip_match chunk last_chunk cs
      | Inr (Some t) \<Rightarrow> if last_chunk \<and> t \<noteq> [] then skip_match chunk last_chunk cs else Inr (Some t))"

text \<open>After a mismatch the rest of the pattern is checked for errors.\<close>

function check_rest :: "string \<Rightarrow> go_error + bool" where
  "check_rest p =
     (if p = [] then Inr False
      else let (star, chunk, rest) = scanChunk p in
        case match_chunk False chunk [] of Inl e \<Rightarrow> Inl e | Inr _ \<Rightarrow> check_rest rest)"
  by pat_completeness auto
termination
  by (relation "measure length") (auto dest: scanChunk_shorter sym)

function glob_match :: "string \<Rightarrow> string \<Rightarrow> go_error + bool" where
  "glob_match p name =
     (if p = [] then Inr (name = [])
      else let (star, chunk, rest) = scanChunk p in
        if star \<and> chunk = [] then Inr (slash \<notin> set name)
        else case match_chunk False chunk name of
          Inl e \<Rightarrow> Inl e
        | Inr m \<Rightarrow>
            if (case m of Some t \<Rightarrow> t = [] \<or> rest \<noteq> [] | None \<Rightarrow> False)
            then glob_match rest (the m)
            else if star then
              (case skip_match chunk (rest = []) name of
                 Inl e \<Rightarrow> Inl e
               | Inr (Some t) \<Rightarrow> glob_match rest t
               | Inr None \<Rightarrow> check_rest rest)
            else check_rest rest)"
  by pat_completeness auto
termination
  by (relation "measure (\<lambda>(p, name). length p)") (auto dest: scanChunk_shorter sym)

declare check_rest.simps [simp del] glob_match.simps [simp del]

end
