(* ===== verification/Ignore.thy ===== *)
theory Ignore
  imports GoGlob
begin

text \<open>
  The ignore rules of the chart loader, \<open>internal/helm/chart/secureloader/ignore/rules.go\<close>:
  parsing of a rules file, and the decision whether a path is ignored. The matcher of a rule
  that starts with a slash is a Go closure that rewrites its captured rule text each time it
  runs, so evaluating rules returns the rules as they are afterwards.
\<close>

section \<open>Rules\<close>

text \<open>
  The three closures of \<open>parseRule\<close> and the rule text they capture; a pattern without a
  matcher (\<open>p.match == nil\<close>) has \<^const>\<open>None\<close>.
\<close>

datatype matcher = RootMatch string | PathMatch string | BaseMatch string

record pattern =
  raw :: string
  matcher :: "matcher option"
  negate :: bool
  mustDir :: bool

type_synonym rules = "pattern list"

definition Empty_rules :: rules where
  "Empty_rules = []"

text \<open>\<open>filepath.Match\<close> with the closures' treatment of an error: log it, no match.\<close>

definition glob_ok :: "string \<Rightarrow> string \<Rightarrow> bool" where
  "glob_ok rule n = (case glob_match rule n of Inl _ \<Rightarrow> False | Inr ok \<Rightarrow> ok)"

definition run_matcher :: "matcher \<Rightarrow> string \<Rightarrow> bool \<times> matcher" where
  "run_matcher m n =
     (case m of
        RootMatch rule \<Rightarrow>
          let rule' = trim_prefix rule ''/'' in (glob_ok rule' n, RootMatch rule')
      | PathMatch rule \<Rightarrow> (glob_ok rule n, m)
      | BaseMatch rule \<Rightarrow> (glob_ok rule (path_base n), m))"

text \<open>
  \<open>parseRule\<close>, in three parts: the choice of the closure, the pattern made from a trimmed
  rule, and the checks before it.
\<close>

definition matcher_of :: "string \<Rightarrow> matcher" where
  "matcher_of rule =
     (if has_prefix rule ''/'' then RootMatch rule
      else if contains rule ''/'' then PathMatch rule
      else BaseMatch rule)"

definition pattern_of :: "string \<Rightarrow> pattern" where
  "pattern_of rule =
     (let neg = has_prefix rule ''!'';
          rule1 = (if neg then tl rule else rule);
          dir = has_suffix rule1 ''/'';
          rule2 = (if dir then trim_suffix rule1 ''/'' else rule1)
      in \<lparr>raw = rule, matcher = Some (matcher_of rule2), negate = neg, mustDir = dir\<rparr>)"

definition parseRule :: "string \<Rightarrow> rules \<Rightarrow> go_error + rules" where
  "parseRule line rs =
     (let rule = trim_space line in
      if rule = [] then Inr rs
      else if has_prefix rule ''#'' then Inr rs
      else if contains rule ''**'' then
        Inl (ErrorString ''double-star (**) syntax is not supported'')
      else case glob_match rule ''abc'' of
        Inl e \<Rightarrow> Inl e
      | Inr _ \<Rightarrow> Inr (rs @ [pattern_of rule]))"

text \<open>\<open>AddDefaults\<close> drops the error of \<open>parseRule\<close>.\<close>

definition AddDefaults :: "rules \<Rightarrow> rules" where
  "AddDefaults rs = (case parseRule ''templates/.?*'' rs of Inl _ \<Rightarrow> rs | Inr rs' \<Rightarrow> rs')"

section \<open>Parsing a rules file\<close>

text \<open>
  \<open>bufio.Scanner\<close> with its default settings: lines without their line ends, a last line
  only if it is not empty, and an error at a line that does not fit the 64 KiB buffer.
\<close>

definition ErrTooLong :: go_error where
  "ErrTooLong = Sentinel ''bufio.Scanner: token too long''"

definition drop_cr :: "string \<Rightarrow> string" where
  "drop_cr s = trim_suffix s [CHR 0x0D]"

fun scan_tokens :: "string list \<Rightarrow> string list \<times> go_error option" where
  "scan_tokens [] = ([], None)"
| "scan_tokens (w # ws) =
     (if length w \<ge> 64 * 1024 then ([], Some ErrTooLong)
      else let (ts, e) = scan_tokens ws in (drop_cr w # ts, e))"

definition scan_lines :: "string \<Rightarrow> string list \<times> go_error option" where
  "scan_lines s =
     (let ws = split_char (CHR 0x0A) s in
      scan_tokens (if last ws = [] then butlast ws else ws))"

definition utf8bom :: string where
  "utf8bom = [CHR 0xEF, CHR 0xBB, CHR 0xBF]"

fun parse_lines :: "nat \<Rightarrow> string list \<Rightarrow> rules \<Rightarrow> go_error + rules" where
  "parse_lines currentLine [] rs = Inr rs"
| "parse_lines currentLine (l # ls) rs =
     (let line = (if currentLine = 0 then trim_prefix l utf8bom else l) in
      case parseRule line rs of
        Inl e \<Rightarrow> Inl e
      | Inr rs' \<Rightarrow> parse_lines (Suc currentLine) ls rs')"

definition Parse :: "string \<Rightarrow> go_error + rules" where
  "Parse file =
     (let (ls, err) = scan_lines file in
      case parse_lines 0 ls Empty_rules of
        Inl e \<Rightarrow> Inl e
      | Inr rs \<Rightarrow> (case err of Some e \<Rightarrow> Inl e | None \<Rightarrow> Inr rs))"

section \<open>Evaluating rules\<close>

fun eval_rules :: "rules \<Rightarrow> string \<Rightarrow> bool \<Rightarrow> bool \<times> rules" where
  "eval_rules [] path isdir = (False, [])"
| "eval_rules (p # ps) path isdir =
     (case matcher p of
        None \<Rightarrow> (False, p # ps)
      | Some mt \<Rightarrow>
          if negate p then
            (if mustDir p \<and> \<not> isdir then (True, p # ps)
             else
               let (m, mt') = run_matcher mt path; p' = p\<lparr>matcher := Some mt'\<rparr> in
               if \<not> m then (True, p' # ps)
               else let (r, ps') = eval_rules ps path isdir in (r, p' # ps'))
          else if mustDir p \<and> \<not> isdir then
            (let (r, ps') = eval_rules ps path isdir in (r, p # ps'))
          else
            (let (m, mt') = run_matcher mt path; p' = p\<lparr>matcher := Some mt'\<rparr> in
             if m then (True, p' # ps)
             else let (r, ps') = eval_rules ps path isdir in (r, p' # ps')))"

definition Ignore :: "rules \<Rightarrow> string \<Rightarrow> bool \<Rightarrow> bool \<times> rules" where
  "Ignore rs path isdir =
     (if path = [] then (False, rs)
      else if path = ''.'' \<or> path = ''./'' then (False, rs)
      else eval_rules rs path isdir)"

section \<open>What a list of rules decides\<close>

text \<open>
  A closure is settled when its rule text has at most one leading slash: then running it any
  number of times gives the same answers. \<open>decides\<close> is the case in which a rule ends the
  evaluation; whichever rule does so, the answer is that the path is ignored.
\<close>

definition settled :: "matcher \<Rightarrow> bool" where
  "settled m = (case m of RootMatch r \<Rightarrow> \<not> has_prefix (trim_prefix r ''/'') ''/'' | _ \<Rightarrow> True)"

definition armed :: "rules \<Rightarrow> bool" where
  "armed rs \<longleftrightarrow> (\<forall>p \<in> set rs. matcher p \<noteq> None)"

definition good_rules :: "rules \<Rightarrow> bool" where
  "good_rules rs \<longleftrightarrow> (\<forall>p \<in> set rs. \<exists>m. matcher p = Some m \<and> settled m)"

definition matches :: "pattern \<Rightarrow> string \<Rightarrow> bool" where
  "matches p path = (case matcher p of None \<Rightarrow> False | Some m \<Rightarrow> fst (run_matcher m path))"

definition decides :: "pattern \<Rightarrow> string \<Rightarrow> bool \<Rightarrow> bool" where
  "decides p path isdir =
     (if negate p then (mustDir p \<and> \<not> isdir) \<or> \<not> matches p path
      else \<not> (mustDir p \<and> \<not> isdir) \<and> matches p path)"

definition ignored :: "rules \<Rightarrow> string \<Rightarrow> bool \<Rightarrow> bool" where
  "ignored rs path isdir \<longleftrightarrow>
     path \<notin> {[], ''.'', ''./''} \<and> (\<exists>p \<in> set rs. decides p path isdir)"

lemma run_matcher_settled:
  assumes "settled m" and "run_matcher m n = (b, m')"
  shows "settled m'" and "fst (run_matcher m' k) = fst (run_matcher m k)"
  using assms by (auto simp: run_matcher_def settled_def Let_def split: matcher.splits)

lemma decides_after_run:
  assumes "matcher p = Some m" and "settled m" and "run_matcher m n = (b, m')"
  shows "decides (p\<lparr>matcher := Some m'\<rparr>) path d = decides p path d"
  using assms(1) run_matcher_settled(2) [OF assms(2,3), of path]
  by (simp add: decides_def matches_def)

lemma eval_rules_Cons:
  assumes "matcher p = Some m" and "run_matcher m path = (b, m')"
  obtains p' where "p' = p \<or> p' = p\<lparr>matcher := Some m'\<rparr>"
    "eval_rules (p # ps) path d =
       (if decides p path d then (True, p' # ps)
        else (fst (eval_rules ps path d), p' # snd (eval_rules ps path d)))"
proof -
  let ?p' = "if mustDir p \<and> \<not> d then p else p\<lparr>matcher := Some m'\<rparr>"
  have mt: "matches p path = b" by (simp add: matches_def assms)
  have "eval_rules (p # ps) path d =
       (if decides p path d then (True, ?p' # ps)
        else (fst (eval_rules ps path d), ?p' # snd (eval_rules ps path d)))"
    by (cases "negate p"; cases "mustDir p"; cases d; cases b)
      (simp_all add: assms decides_def mt split_beta)
  then show ?thesis by (rule that [rotated]) simp
qed

lemma eval_rules_good:
  assumes "good_rules rs" and "eval_rules rs path d = (r, rs')"
  shows "r = (\<exists>p \<in> set rs. decides p path d)" and "good_rules rs'"
    and "\<And>q e. map (\<lambda>p. decides p q e) rs' = map (\<lambda>p. decides p q e) rs"
  using assms
proof (induction rs arbitrary: r rs')
  case Nil
  { case 1 then show ?case by simp }
  { case 2 then show ?case by (simp add: good_rules_def) }
  { case 3 then show ?case by simp }
next
  case (Cons p ps)
  note IH = Cons.IH
  have key: "r = (\<exists>p \<in> set (p # ps). decides p path d) \<and> good_rules rs' \<and>
      (\<forall>q e. map (\<lambda>p. decides p q e) rs' = map (\<lambda>p. decides p q e) (p # ps))"
    if good: "good_rules (p # ps)" and ev: "eval_rules (p # ps) path d = (r, rs')"
    for r rs'
  proof -
    from good obtain m where m: "matcher p = Some m" "settled m" and gps: "good_rules ps"
      by (auto simp: good_rules_def)
    obtain b m' where run: "run_matcher m path = (b, m')" by fastforce
    obtain p' where p': "p' = p \<or> p' = p\<lparr>matcher := Some m'\<rparr>"
      and step: "eval_rules (p # ps) path d =
         (if decides p path d then (True, p' # ps)
          else (fst (eval_rules ps path d), p' # snd (eval_rules ps path d)))"
      by (rule eval_rules_Cons [OF m(1) run])
    have "settled m'" using run_matcher_settled(1) [OF m(2) run] .
    then have p'_good: "\<exists>m. matcher p' = Some m \<and> settled m" using p' m by auto
    have p'_same: "decides p' q e = decides p q e" for q e
      using p' decides_after_run [OF m run] by auto
    note IH' = IH [OF gps prod.collapse [symmetric]]
    show ?thesis
    proof (cases "decides p path d")
      case True
      with ev step have "r" and "rs' = p' # ps" by simp_all
      with True p'_good p'_same gps show ?thesis by (simp add: good_rules_def)
    next
      case False
      with ev step have "r = fst (eval_rules ps path d)" and "rs' = p' # snd (eval_rules ps path d)"
        by simp_all
      with False p'_good p'_same IH' show ?thesis by (simp add: good_rules_def)
    qed
  qed
  { case 1 then show ?case by (rule conjunct1 [OF key]) }
  { case 2 then show ?case by (rule key [THEN conjunct2, THEN conjunct1]) }
  { case 3 then show ?case by (rule key [THEN conjunct2, THEN conjunct2, THEN spec, THEN spec]) }
qed

lemma Ignore_good:
  assumes "good_rules rs" and "Ignore rs path d = (r, rs')"
  shows "r = ignored rs path d" and "good_rules rs'"
    and "ignored rs' q e = ignored rs q e"
proof -
  have same: "ignored rs' q e = ignored rs q e"
    if "\<And>q e. map (\<lambda>p. decides p q e) rs' = map (\<lambda>p. decides p q e) rs"
  proof -
    have "(\<exists>p \<in> set rs'. decides p q e) = (True \<in> set (map (\<lambda>p. decides p q e) rs'))"
      by (auto simp: image_iff)
    also have "\<dots> = (\<exists>p \<in> set rs. decides p q e)"
      unfolding that by (auto simp: image_iff)
    finally show ?thesis by (simp add: ignored_def)
  qed
  show "r = ignored rs path d" and "good_rules rs'" and "ignored rs' q e = ignored rs q e"
    using assms eval_rules_good [OF assms(1)] same
    by (auto simp: Ignore_def ignored_def split: if_splits)
qed

subsection \<open>Rules made by the parser\<close>

lemma parseRule_cases:
  assumes "parseRule line rs = Inr rs'"
  obtains (none) "rs' = rs"
  | (rule) "rs' = rs @ [pattern_of (trim_space line)]"
  using assms by (auto simp: parseRule_def Let_def split: if_splits sum.splits)

lemma matcher_pattern_of: "\<exists>m. matcher (pattern_of rule) = Some m"
  by (simp add: pattern_of_def Let_def)

lemma armed_parseRule [inv_intros]: "armed rs \<Longrightarrow> parseRule line rs = Inr rs' \<Longrightarrow> armed rs'"
  using matcher_pattern_of by (elim parseRule_cases) (auto simp: armed_def)

lemma armed_parse_lines: "armed rs \<Longrightarrow> parse_lines n ls rs = Inr rs' \<Longrightarrow> armed rs'"
  by (induction n ls rs rule: parse_lines.induct)
    (auto simp: Let_def split: if_splits sum.splits intro: armed_parseRule)

lemma Parse_lines:
  "Parse file = Inr rs \<Longrightarrow> parse_lines 0 (fst (scan_lines file)) [] = Inr rs"
  by (auto simp: Parse_def Empty_rules_def split: prod.splits sum.splits option.splits)

lemma armed_Nil [simp]: "armed []"
  by (simp add: armed_def)

lemma armed_Parse: "Parse file = Inr rs \<Longrightarrow> armed rs"
  by (rule armed_parse_lines [OF armed_Nil Parse_lines])

text \<open>
  Every pattern is the one made from its own rule text. Its closure is settled unless the text
  begins, after a \<open>!\<close>, with two slashes.
\<close>

definition made_by_parser :: "rules \<Rightarrow> bool" where
  "made_by_parser rs \<longleftrightarrow> (\<forall>p \<in> set rs. p = pattern_of (raw p))"

definition double_slash_rule :: "pattern \<Rightarrow> bool" where
  "double_slash_rule p = (has_prefix (raw p) ''//'' \<or> has_prefix (raw p) ''!//'')"

lemma raw_pattern_of [simp]: "raw (pattern_of rule) = rule"
  by (simp add: pattern_of_def Let_def)

lemma made_by_parseRule: "made_by_parser rs \<Longrightarrow> parseRule line rs = Inr rs' \<Longrightarrow> made_by_parser rs'"
  by (elim parseRule_cases) (auto simp: made_by_parser_def)

lemma made_by_parse_lines: "made_by_parser rs \<Longrightarrow> parse_lines n ls rs = Inr rs' \<Longrightarrow> made_by_parser rs'"
  by (induction n ls rs rule: parse_lines.induct)
    (auto simp: Let_def split: if_splits sum.splits intro: made_by_parseRule)

lemma made_by_Parse: "Parse file = Inr rs \<Longrightarrow> made_by_parser rs"
  by (rule made_by_parse_lines [OF _ Parse_lines]) (simp_all add: made_by_parser_def)

lemma settled_matcher_of: "\<not> has_prefix r ''//'' \<Longrightarrow> settled (matcher_of r)"
  by (cases r) (auto simp: settled_def matcher_of_def trim_prefix_def has_prefix_iff)

lemma trim_suffix_prefix: "has_prefix (trim_suffix r w) u \<Longrightarrow> has_prefix r u"
  by (auto simp: trim_suffix_def has_prefix_iff split: if_splits)
    (metis append_take_drop_id append.assoc)

lemma settled_pattern_of:
  assumes "\<not> double_slash_rule (pattern_of rule)"
  shows "\<exists>m. matcher (pattern_of rule) = Some m \<and> settled m"
proof -
  define r1 where "r1 = (if has_prefix rule ''!'' then tl rule else rule)"
  define r2 where "r2 = (if has_suffix r1 ''/'' then trim_suffix r1 ''/'' else r1)"
  have "\<not> has_prefix r1 ''//''"
    using assms by (auto simp: r1_def double_slash_rule_def has_prefix_iff)
  then have "\<not> has_prefix r2 ''//''"
    using trim_suffix_prefix [of r1 "''/''" "''//''"] unfolding r2_def by presburger
  then have "settled (matcher_of r2)" by (rule settled_matcher_of)
  moreover have "matcher (pattern_of rule) = Some (matcher_of r2)"
    by (simp only: pattern_of_def Let_def pattern.simps r1_def r2_def)
  ultimately show ?thesis by blast
qed

lemma good_made_by_parser:
  assumes "made_by_parser rs" and "list_all (\<lambda>p. \<not> double_slash_rule p) rs"
  shows "good_rules rs"
  unfolding good_rules_def
proof
  fix p
  assume "p \<in> set rs"
  with assms have "p = pattern_of (raw p)" and "\<not> double_slash_rule p"
    by (auto simp: made_by_parser_def list_all_iff)
  then show "\<exists>m. matcher p = Some m \<and> settled m" using settled_pattern_of by metis
qed

text \<open>
  What a rule text says of a path, without the closures: the pattern between a leading \<open>!\<close> and
  a trailing slash is matched against the whole path if it holds a slash (a leading one not
  counted), else against the last element; the rule hits what a positive one matches and what a
  negative one does not, a trailing slash meaning directories only.
\<close>

definition rule_matches :: "string \<Rightarrow> string \<Rightarrow> bool" where
  "rule_matches pat path =
     (if has_prefix pat ''/'' then glob_ok (tl pat) path
      else if contains pat ''/'' then glob_ok pat path
      else glob_ok pat (path_base path))"

definition hits :: "string \<Rightarrow> string \<Rightarrow> bool \<Rightarrow> bool" where
  "hits rule path isdir =
     (let neg = has_prefix rule ''!''; body = (if neg then tl rule else rule);
          dirs = has_suffix body ''/''; pat = (if dirs then butlast body else body);
          hit = (dirs \<longrightarrow> isdir) \<and> rule_matches pat path
      in if neg then \<not> hit else hit)"

lemma matches_matcher_of: "fst (run_matcher (matcher_of r) path) = rule_matches r path"
  by (cases r) (auto simp: run_matcher_def matcher_of_def rule_matches_def Let_def trim_prefix_def has_prefix_iff)

lemma decides_hits: "decides (pattern_of rule) path d = hits rule path d"
proof -
  have "trim_suffix r ''/'' = butlast r" if "has_suffix r ''/''" for r
    using that by (auto simp: trim_suffix_def has_suffix_def butlast_conv_take)
  then show ?thesis
    by (simp add: decides_def matches_def pattern_of_def hits_def Let_def matches_matcher_of)
qed

subsection \<open>The default rule\<close>

definition default_pattern :: pattern where
  "default_pattern = \<lparr>raw = ''templates/.?*'', matcher = Some (PathMatch ''templates/.?*''),
     negate = False, mustDir = False\<rparr>"

lemma parse_default: "parseRule ''templates/.?*'' [] = Inr [default_pattern]"
  by code_simp

lemma AddDefaults_append: "AddDefaults rs = rs @ [default_pattern]"
proof -
  have "parseRule ''templates/.?*'' rs = Inr (rs @ [default_pattern])"
    using parse_default by (auto simp: parseRule_def Let_def split: if_splits sum.splits)
  then show ?thesis by (simp add: AddDefaults_def)
qed

lemma default_pattern_of: "default_pattern = pattern_of ''templates/.?*''"
  by code_simp

lemma made_by_AddDefaults [inv_intros]: "made_by_parser rs \<Longrightarrow> made_by_parser (AddDefaults rs)"
  by (auto simp: made_by_parser_def AddDefaults_append default_pattern_of)

lemma double_slash_AddDefaults [simp]:
  "list_all (\<lambda>p. \<not> double_slash_rule p) (AddDefaults rs) \<longleftrightarrow> list_all (\<lambda>p. \<not> double_slash_rule p) rs"
  by (simp add: AddDefaults_append default_pattern_def double_slash_rule_def has_prefix_iff)

lemma match_chunk_literal:
  "c \<notin> {CHR ''['', CHR ''?'', CHR 0x5C} \<Longrightarrow>
   match_chunk False (c # cs) (c # s) = match_chunk False cs s"
  by (subst match_chunk.simps) (simp add: Let_def)

lemma match_chunk_any:
  "s \<noteq> [] \<Longrightarrow> hd s \<noteq> slash \<Longrightarrow>
   match_chunk False ''?'' s = Inr (Some (drop (snd (decode_rune s)) s))"
  by (simp add: match_chunk.simps [of False "''?''"] match_chunk.simps [of False "[]"] Let_def)

lemma glob_default:
  assumes "x \<noteq> []" and "slash \<notin> set x"
  shows "glob_match ''templates/.?*'' (''templates/.'' @ x) = Inr True"
proof -
  let ?t = "drop (snd (decode_rune x)) x"
  have sc: "scanChunk ''templates/.?*'' = (False, ''templates/.?'', ''*'')"
    by code_simp
  have sc2: "scanChunk ''*'' = (True, [], [])"
    by code_simp
  have hd: "hd x \<noteq> slash" using assms by (cases x) auto
  have "match_chunk False ''templates/.?'' (''templates/.'' @ x) = Inr (Some ?t)"
    using assms(1) hd by (simp add: match_chunk_literal match_chunk_any)
  moreover have "glob_match ''*'' ?t = Inr True"
    using assms(2) by (subst glob_match.simps) (auto simp: sc2 dest: in_set_dropD)
  ultimately show ?thesis
    by (subst glob_match.simps) (simp add: sc)
qed

lemma eval_rules_append:
  "armed rs \<Longrightarrow> fst (eval_rules qs path d) \<Longrightarrow> fst (eval_rules (rs @ qs) path d)"
  by (induction rs) (auto simp: armed_def Let_def split: prod.splits if_splits)

section \<open>Properties of the ignore rules\<close>

text \<open>The rules as a list of earlier calls leaves them.\<close>

definition after_calls :: "(string \<times> bool) list \<Rightarrow> rules \<Rightarrow> rules" where
  "after_calls calls rs = foldl (\<lambda>rs (path, d). snd (Ignore rs path d)) rs calls"

lemma after_calls_good:
  "good_rules rs \<Longrightarrow> good_rules (after_calls calls rs) \<and> ignored (after_calls calls rs) q e = ignored rs q e"
proof (induction calls arbitrary: rs)
  case (Cons c calls)
  obtain path d where c: "c = (path, d)" by (cases c)
  note I = Ignore_good [OF Cons.prems surjective_pairing [of "Ignore rs path d"]]
  have "after_calls (c # calls) rs = after_calls calls (snd (Ignore rs path d))"
    by (simp add: after_calls_def c)
  with Cons.IH [OF I(2)] I(3) show ?case by simp
qed (simp add: after_calls_def)

text \<open>
  C29. When no rule of a parsed file begins, after a \<open>!\<close>, with two slashes, a path is ignored
  exactly when some rule of the file, or the default one, hits it, whatever the order of the
  rules and whatever the files asked about before: a rule with \<open>!\<close> adds ignored paths and never
  takes one back. (With such a rule the answer does depend on earlier calls; see
  \<open>double_slash_rule_changes_its_answer\<close>. The comment in the source, that rules are evaluated in
  order and that a matching negative rule ends the evaluation, is not what the code does.)
\<close>

theorem ignore_is_order_free:
  assumes "Parse file = Inr rs" and "list_all (\<lambda>p. \<not> double_slash_rule p) rs"
    and "set qs = set (AddDefaults rs)"
  shows "fst (Ignore (after_calls calls qs) path d) \<longleftrightarrow>
    path \<notin> {[], ''.'', ''./''} \<and> (\<exists>rule \<in> insert ''templates/.?*'' (raw ` set rs). hits rule path d)"
proof -
  have "made_by_parser (AddDefaults rs)" using assms(1) by (intro made_by_AddDefaults made_by_Parse)
  then have made: "made_by_parser qs" using assms(3) by (simp add: made_by_parser_def)
  have "good_rules (AddDefaults rs)"
    using good_made_by_parser assms(2) \<open>made_by_parser (AddDefaults rs)\<close> by simp
  then have good: "good_rules qs" using assms(3) by (simp add: good_rules_def)
  note A = after_calls_good [OF good, of calls]
  have "fst (Ignore (after_calls calls qs) path d) = ignored qs path d"
    using Ignore_good(1) [OF conjunct1 [OF A] surjective_pairing] A by simp
  moreover have "decides p path d = hits (raw p) path d" if "p \<in> set qs" for p
    using made that decides_hits unfolding made_by_parser_def by metis
  ultimately show ?thesis
    unfolding ignored_def assms(3) AddDefaults_append default_pattern_def by auto
qed

definition sample_file :: string where
  "sample_file = ''!keep.txt'' @ [CHR 0x0A] @ ''*.md'' @ [CHR 0x0A]"

definition sample_rules :: rules where
  "sample_rules =
     [\<lparr>raw = ''!keep.txt'', matcher = Some (BaseMatch ''keep.txt''), negate = True, mustDir = False\<rparr>,
      \<lparr>raw = ''*.md'', matcher = Some (BaseMatch ''*.md''), negate = False, mustDir = False\<rparr>]"

lemma sample_lines: "scan_lines sample_file = ([''!keep.txt'', ''*.md''], None)"
  by (simp add: scan_lines_def sample_file_def drop_cr_def trim_suffix_def has_suffix_def)

lemma sample_parse: "Parse sample_file = Inr sample_rules"
proof -
  have "parse_lines 0 [''!keep.txt'', ''*.md''] Empty_rules = Inr sample_rules" by code_simp
  then show ?thesis by (simp add: Parse_def sample_lines)
qed

theorem ignore_is_order_free_witness:
  "fst (Ignore (after_calls [(''b.md'', False)] (rev (AddDefaults sample_rules))) ''a.txt'' False) \<and>
   (fst (Ignore (after_calls [(''b.md'', False)] (rev (AddDefaults sample_rules))) ''a.txt'' False) \<longleftrightarrow>
    ''a.txt'' \<notin> {[], ''.'', ''./''} \<and>
      (\<exists>rule \<in> insert ''templates/.?*'' (raw ` set sample_rules). hits rule ''a.txt'' False))"
proof
  show "fst (Ignore (after_calls [(''b.md'', False)] (rev (AddDefaults sample_rules))) ''a.txt'' False)"
    by code_simp
  have "list_all (\<lambda>p. \<not> double_slash_rule p) sample_rules" by code_simp
  then show "fst (Ignore (after_calls [(''b.md'', False)] (rev (AddDefaults sample_rules))) ''a.txt'' False) \<longleftrightarrow>
    ''a.txt'' \<notin> {[], ''.'', ''./''} \<and>
      (\<exists>rule \<in> insert ''templates/.?*'' (raw ` set sample_rules). hits rule ''a.txt'' False)"
    by (rule ignore_is_order_free [OF sample_parse]) simp
qed

text \<open>
  The default rule always applies: whatever a rules file holds, once \<open>AddDefaults\<close> has
  run every dotfile directly under \<open>templates/\<close> is ignored.
\<close>
theorem template_dotfiles_ignored:
  assumes "Parse file = Inr rs" and "x \<noteq> []" and "slash \<notin> set x"
  shows "fst (Ignore (AddDefaults rs) (''templates/.'' @ x) d)"
proof -
  have "fst (eval_rules [default_pattern] (''templates/.'' @ x) d)"
    using glob_default [OF assms(2,3)]
    by (simp add: default_pattern_def run_matcher_def glob_ok_def)
  with armed_Parse [OF assms(1)]
  have "fst (eval_rules (AddDefaults rs) (''templates/.'' @ x) d)"
    unfolding AddDefaults_append by (rule eval_rules_append)
  then show ?thesis by (simp add: Ignore_def)
qed

theorem template_dotfiles_ignored_witness:
  "fst (Ignore (AddDefaults sample_rules) (''templates/.'' @ ''x'') False)"
  by (rule template_dotfiles_ignored [OF sample_parse]) (simp_all add: slash_def)

text \<open>
  The closure of a rule that starts with two slashes strips one of them per call: asked
  twice about the same path, the same rules give two answers.
\<close>
theorem double_slash_rule_changes_its_answer:
  "\<exists>rs rs'. Parse ''//a'' = Inr rs \<and> Ignore rs ''a'' False = (False, rs') \<and>
     fst (Ignore rs' ''a'' False) = True"
proof -
  let ?p = "\<lambda>r. [\<lparr>raw = ''//a'', matcher = Some (RootMatch r), negate = False, mustDir = False\<rparr>]"
  have "scan_lines ''//a'' = ([''//a''], None)"
    by (simp add: scan_lines_def drop_cr_def trim_suffix_def has_suffix_def)
  moreover have "parse_lines 0 [''//a''] Empty_rules = Inr (?p ''//a'')" by code_simp
  ultimately have "Parse ''//a'' = Inr (?p ''//a'')" by (simp add: Parse_def)
  moreover have "Ignore (?p ''//a'') ''a'' False = (False, ?p ''/a'')" by code_simp
  moreover have "fst (Ignore (?p ''/a'') ''a'' False) = True" by code_simp
  ultimately show ?thesis by blast
qed

end
