(* ===== verification/Memcache.thy ===== *)
theory Memcache
  imports Prelude
begin

text \<open>
  The in-memory cache of \<open>internal/cache/cache.go\<close>. A key holds either a value or a lock
  (\<open>valueLock\<close>, a Go channel on which other callers of \<open>GetOrLock\<close> wait until it is
  closed). First the operations, each as the code between taking and releasing the mutex of
  the cache; then any number of threads that use one cache, as a step relation; last the
  contract of the cache as an interface for its clients.
\<close>

section \<open>The cache and its operations\<close>

text \<open>
  A channel is its number, in the order of creation; \<open>closed\<close> collects the channels closed
  so far. Closing a channel twice panics in Go: \<open>SetUnlock\<close> returns \<^const>\<open>None\<close> then.
  The stored type \<open>any\<close> is the type variable \<open>'v\<close>.
\<close>

datatype 'v item = Val 'v | ValueLock nat

record ('k, 'v) cache =
  items :: "'k \<rightharpoonup> 'v item"
  closed :: "nat set"
  next_chan :: nat

definition New :: "('k, 'v) cache" where
  "New = \<lparr>items = Map.empty, closed = {}, next_chan = 0\<rparr>"

definition ItemCount :: "('k, 'v) cache \<Rightarrow> nat" where
  "ItemCount c = card (dom (items c))"

definition Set :: "'k \<Rightarrow> 'v \<Rightarrow> ('k, 'v) cache \<Rightarrow> ('k, 'v) cache" where
  "Set k v c = c\<lparr>items := (items c)(k \<mapsto> Val v)\<rparr>"

text \<open>The error text prints the key with the verb for any value; \<open>pr\<close> is that printing.\<close>

definition Add :: "('k \<Rightarrow> string) \<Rightarrow> 'k \<Rightarrow> 'v \<Rightarrow> ('k, 'v) cache \<Rightarrow> go_error + ('k, 'v) cache" where
  "Add pr k v c =
     (case items c k of
        Some _ \<Rightarrow> Inl (ErrorString (''item '' @ pr k @ '' already exists''))
      | None \<Rightarrow> Inr (c\<lparr>items := (items c)(k \<mapsto> Val v)\<rparr>))"

text \<open>\<open>Get\<close> returns the stored item, be it a value or a lock, with a flag: an option.\<close>

definition Get :: "'k \<Rightarrow> ('k, 'v) cache \<Rightarrow> 'v item option" where
  "Get k c = items c k"

text \<open>
  \<open>GetOrLock\<close> up to the point where it returns or waits: it found a value, created the lock
  (the caller gets \<open>nil, false\<close> and owns the lock), or has to wait on a channel.
\<close>

datatype 'v got = Found 'v | Locked | Blocked nat

definition GetOrLock :: "'k \<Rightarrow> ('k, 'v) cache \<Rightarrow> 'v got \<times> ('k, 'v) cache" where
  "GetOrLock k c =
     (case items c k of
        None \<Rightarrow>
          (Locked, c\<lparr>items := (items c)(k \<mapsto> ValueLock (next_chan c)),
                     next_chan := Suc (next_chan c)\<rparr>)
      | Some (ValueLock l) \<Rightarrow> (Blocked l, c)
      | Some (Val v) \<Rightarrow> (Found v, c))"

text \<open>The rest of \<open>GetOrLock\<close>, after the channel was closed: \<^const>\<open>None\<close> is \<open>nil, false\<close>.\<close>

definition GetOrLock_resume :: "'k \<Rightarrow> ('k, 'v) cache \<Rightarrow> 'v option" where
  "GetOrLock_resume k c =
     (case items c k of
        Some (Val v) \<Rightarrow> Some v
      | Some (ValueLock _) \<Rightarrow> None
      | None \<Rightarrow> None)"

definition SetUnlock :: "'k \<Rightarrow> 'v \<Rightarrow> ('k, 'v) cache \<Rightarrow> ('k, 'v) cache option" where
  "SetUnlock k v c =
     (case items c k of
        Some (ValueLock l) \<Rightarrow>
          (if l \<in> closed c then None
           else Some (c\<lparr>items := (items c)(k \<mapsto> Val v), closed := insert l (closed c)\<rparr>))
      | _ \<Rightarrow> Some (c\<lparr>items := (items c)(k \<mapsto> Val v)\<rparr>))"

definition Delete :: "'k \<Rightarrow> ('k, 'v) cache \<Rightarrow> ('k, 'v) cache" where
  "Delete k c = c\<lparr>items := (items c)(k := None)\<rparr>"

definition Clear :: "('k, 'v) cache \<Rightarrow> ('k, 'v) cache" where
  "Clear c = c\<lparr>items := Map.empty\<rparr>"

lemmas cache_op_defs =
  New_def Set_def Add_def Get_def GetOrLock_def GetOrLock_resume_def SetUnlock_def
  Delete_def Clear_def

subsection \<open>The invariant of the cache alone\<close>

text \<open>
  A lock that is stored under a key is an open channel, is older than the next channel, and
  is stored under no other key. Every operation keeps this, so \<open>SetUnlock\<close> never panics.
\<close>

definition cache_wf :: "('k, 'v) cache \<Rightarrow> bool" where
  "cache_wf c \<longleftrightarrow>
     (\<forall>k l. items c k = Some (ValueLock l) \<longrightarrow> l < next_chan c \<and> l \<notin> closed c) \<and>
     (\<forall>k k' l. items c k = Some (ValueLock l) \<longrightarrow> items c k' = Some (ValueLock l) \<longrightarrow> k = k') \<and>
     (\<forall>l \<in> closed c. l < next_chan c)"

lemma cache_wf_New [simp, inv_intros]: "cache_wf New"
  by (simp add: cache_wf_def New_def)

lemma cache_wf_Set [inv_intros]: "cache_wf c \<Longrightarrow> cache_wf (Set k v c)"
  by (auto simp: cache_wf_def Set_def split: if_splits)

lemma cache_wf_Add [inv_intros]: "cache_wf c \<Longrightarrow> Add pr k v c = Inr c' \<Longrightarrow> cache_wf c'"
  by (auto simp: cache_wf_def Add_def split: if_splits option.splits)

lemma cache_wf_Delete [inv_intros]: "cache_wf c \<Longrightarrow> cache_wf (Delete k c)"
  by (auto simp: cache_wf_def Delete_def split: if_splits)

lemma cache_wf_Clear [inv_intros]: "cache_wf c \<Longrightarrow> cache_wf (Clear c)"
  by (auto simp: cache_wf_def Clear_def)

lemma cache_wf_GetOrLock [inv_intros]:
  assumes "cache_wf c" and "GetOrLock k c = (r, c')"
  shows "cache_wf c'"
proof (cases "items c k")
  case None
  with assms show ?thesis
    by (auto simp: cache_wf_def GetOrLock_def split: if_splits) fastforce+
next
  case (Some i)
  with assms show ?thesis by (cases i) (auto simp: GetOrLock_def)
qed

lemma cache_wf_SetUnlock [inv_intros]:
  assumes "cache_wf c" and "SetUnlock k v c = Some c'"
  shows "cache_wf c'"
proof (cases "\<exists>l. items c k = Some (ValueLock l)")
  case True
  then obtain l where l: "items c k = Some (ValueLock l)" by blast
  with assms(2) have c': "c' = c\<lparr>items := (items c)(k \<mapsto> Val v), closed := insert l (closed c)\<rparr>"
    by (auto simp: SetUnlock_def split: if_splits)
  show ?thesis
    using assms(1) l unfolding cache_wf_def c'
    by (auto split: if_splits)
next
  case False
  with assms show ?thesis
    by (auto simp: cache_wf_def SetUnlock_def split: if_splits item.splits option.splits)
qed

lemma SetUnlock_no_panic: "cache_wf c \<Longrightarrow> SetUnlock k v c \<noteq> None"
  by (auto simp: cache_wf_def SetUnlock_def split: option.splits item.splits)


lemma GetOrLock_cases:
  assumes "GetOrLock k c = (r, c')"
  obtains (Found) v where "items c k = Some (Val v)" "r = Found v" "c' = c"
  | (Blocked) l where "items c k = Some (ValueLock l)" "r = Blocked l" "c' = c"
  | (Locked) "items c k = None" "r = Locked"
      "items c' = (items c)(k \<mapsto> ValueLock (next_chan c))" "closed c' = closed c"
      "next_chan c' = Suc (next_chan c)"
  using assms by (auto simp: GetOrLock_def split: option.splits item.splits)

lemma SetUnlock_items:
  assumes "SetUnlock k v c = Some c'"
  shows "items c' = (items c)(k \<mapsto> Val v)" "next_chan c' = next_chan c"
    "closed c' = (case items c k of Some (ValueLock l) \<Rightarrow> insert l (closed c) | _ \<Rightarrow> closed c)"
  using assms by (auto simp: SetUnlock_def split: option.splits item.splits if_splits)

section \<open>The contract of the cache\<close>

text \<open>
  What a client that is not interrupted between its calls relies on: which keys have a value,
  which are locked, and how \<open>GetOrLock\<close> and \<open>SetUnlock\<close> change that.
\<close>

locale memo_cache =
  fixes fresh :: "'c"
    and get :: "'k \<Rightarrow> 'c \<Rightarrow> 'v got \<times> 'c"
    and put :: "'k \<Rightarrow> 'v \<Rightarrow> 'c \<Rightarrow> 'c option"
    and values_of :: "'c \<Rightarrow> 'k \<rightharpoonup> 'v"
    and locks :: "'c \<Rightarrow> 'k set"
    and wf :: "'c \<Rightarrow> bool"
  assumes fresh_wf: "wf fresh"
    and fresh_values: "values_of fresh = Map.empty"
    and fresh_locks: "locks fresh = {}"
    and get_found: "wf c \<Longrightarrow> values_of c k = Some v \<Longrightarrow> get k c = (Found v, c)"
    and get_blocked: "wf c \<Longrightarrow> k \<in> locks c \<Longrightarrow> \<exists>l. get k c = (Blocked l, c)"
    and get_locked: "wf c \<Longrightarrow> values_of c k = None \<Longrightarrow> k \<notin> locks c \<Longrightarrow>
      \<exists>c'. get k c = (Locked, c') \<and> wf c' \<and> values_of c' = values_of c \<and>
           locks c' = insert k (locks c)"
    and put_ok: "wf c \<Longrightarrow>
      \<exists>c'. put k v c = Some c' \<and> wf c' \<and> values_of c' = (values_of c)(k \<mapsto> v) \<and>
           locks c' = locks c - {k}"
begin

lemma get_unlocked:
  assumes "wf c" and "locks c = {}"
  obtains (found) v where "values_of c k = Some v" "get k c = (Found v, c)"
  | (locked) c' where "values_of c k = None" "get k c = (Locked, c')" "wf c'"
      "values_of c' = values_of c" "locks c' = {k}"
proof (cases "values_of c k")
  case None
  with assms get_locked [of c k] that(2) show ?thesis by auto
next
  case (Some v)
  with assms get_found that(1) show ?thesis by blast
qed

lemma put_unlocks:
  assumes "wf c" and "locks c \<subseteq> {k}"
  obtains c' where "put k v c = Some c'" "wf c'" "locks c' = {}"
    "values_of c' = (values_of c)(k \<mapsto> v)"
  using put_ok [OF assms(1), of k v] assms(2) by auto

lemma get_put_get:
  assumes "wf c" and "locks c = {}" and "get k c = (r, c1)" and "put k v c1 = Some c2"
  shows "get k c2 = (Found v, c2)" and "locks c2 = {}" and "wf c2"
    and "k' \<noteq> k \<Longrightarrow> values_of c2 k' = values_of c k'"
proof -
  have c1: "wf c1 \<and> locks c1 \<subseteq> {k} \<and> values_of c1 = values_of c"
    by (rule get_unlocked [OF assms(1,2), of k]) (use assms(1-3) in auto)
  then obtain c' where "put k v c1 = Some c'" "wf c'" "locks c' = {}"
      "values_of c' = (values_of c1)(k \<mapsto> v)"
    using put_unlocks by metis
  with assms(4) c1 show "get k c2 = (Found v, c2)" and "locks c2 = {}" and "wf c2"
    and "k' \<noteq> k \<Longrightarrow> values_of c2 k' = values_of c k'"
    by (auto intro: get_found)
qed

end

definition cache_values :: "('k, 'v) cache \<Rightarrow> 'k \<rightharpoonup> 'v" where
  "cache_values c k = (case items c k of Some (Val v) \<Rightarrow> Some v | _ \<Rightarrow> None)"

definition cache_locks :: "('k, 'v) cache \<Rightarrow> 'k set" where
  "cache_locks c = {k. \<exists>l. items c k = Some (ValueLock l)}"

lemma cache_values_upd:
  "cache_values (c\<lparr>items := (items c)(k \<mapsto> Val v), closed := x\<rparr>) = (cache_values c)(k \<mapsto> v)"
  "cache_values (c\<lparr>items := (items c)(k \<mapsto> Val v)\<rparr>) = (cache_values c)(k \<mapsto> v)"
  by (auto simp: cache_values_def fun_eq_iff)

interpretation mc: memo_cache New GetOrLock SetUnlock cache_values cache_locks cache_wf
proof (unfold_locales, goal_cases)
  case (6 c k)
  then have "items c k = None"
    by (auto simp: cache_values_def cache_locks_def split: option.splits item.splits)
  then have "GetOrLock k c = (Locked, c\<lparr>items := (items c)(k \<mapsto> ValueLock (next_chan c)),
      next_chan := Suc (next_chan c)\<rparr>)"
    by (simp add: GetOrLock_def)
  with cache_wf_GetOrLock [OF 6(1) this] \<open>items c k = None\<close> show ?case
    by (auto simp: cache_values_def cache_locks_def fun_eq_iff)
next
  case (7 c k v)
  then obtain c' where c': "SetUnlock k v c = Some c'"
    using SetUnlock_no_panic [of c k v] by auto
  with 7 show ?case
    by (auto simp: SetUnlock_items cache_locks_def cache_values_def fun_eq_iff
        intro: cache_wf_SetUnlock split: if_splits)
qed (auto simp: cache_values_def cache_locks_def GetOrLock_def New_def cache_wf_def
      split: option.splits item.splits)

end
