(* ===== verification/MemcacheThreads.thy ===== *)
theory MemcacheThreads
  imports Memcache
begin

text \<open>
  Any number of threads that use one cache of \<open>internal/cache/cache.go\<close> at the same time:
  a step relation whose steps are the stretches of code between two waits, its invariants,
  and the properties of the cache as a synchronisation primitive.
\<close>

section \<open>Threads sharing one cache\<close>

text \<open>
  A thread is idle, waits on a channel for a key, owns the lock of a key (\<open>GetOrLock\<close>
  returned \<open>nil, false\<close> because it made the lock), has got a value, or came back from
  waiting empty-handed. The program uses a cache through \<open>GetOrLock\<close> and \<open>SetUnlock\<close>
  only: the owner of a lock ends with \<open>SetUnlock\<close> (a deferred call), and so may a thread
  that got a value (the repository cache of \<open>internal/build/helm.go\<close>). The flag \<open>adm\<close>
  admits the other operations of the cache as well.
\<close>

datatype ('k, 'v) pc =
    Idle
  | Waiting 'k nat
  | Owner 'k nat
  | Got 'k 'v
  | Empty 'k

record ('t, 'k, 'v) csys =
  shared :: "('k, 'v) cache"
  pcs :: "'t \<Rightarrow> ('k, 'v) pc"
  panicked :: bool

definition csys_init :: "('t, 'k, 'v) csys" where
  "csys_init = \<lparr>shared = New, pcs = (\<lambda>_. Idle), panicked = False\<rparr>"

definition goto :: "'t \<Rightarrow> ('k, 'v) pc \<Rightarrow> ('k, 'v) cache \<Rightarrow> ('t, 'k, 'v) csys \<Rightarrow> ('t, 'k, 'v) csys" where
  "goto t p c s = s\<lparr>shared := c, pcs := (pcs s)(t := p)\<rparr>"

lemma goto_simps [simp]:
  "shared (goto t p c s) = c"
  "pcs (goto t p c s) = (pcs s)(t := p)"
  "panicked (goto t p c s) = panicked s"
  by (simp_all add: goto_def)

inductive cache_step :: "bool \<Rightarrow> ('t, 'k, 'v) csys \<Rightarrow> ('t, 'k, 'v) csys \<Rightarrow> bool" for adm where
  lock: "pcs s t = Idle \<Longrightarrow> GetOrLock k (shared s) = (Locked, c) \<Longrightarrow>
     cache_step adm s (goto t (Owner k (next_chan (shared s))) c s)"
| hit: "pcs s t = Idle \<Longrightarrow> GetOrLock k (shared s) = (Found v, c) \<Longrightarrow>
     cache_step adm s (goto t (Got k v) c s)"
| wait: "pcs s t = Idle \<Longrightarrow> GetOrLock k (shared s) = (Blocked l, c) \<Longrightarrow>
     cache_step adm s (goto t (Waiting k l) c s)"
| wake: "pcs s t = Waiting k l \<Longrightarrow> l \<in> closed (shared s) \<Longrightarrow>
     GetOrLock_resume k (shared s) = Some v \<Longrightarrow>
     cache_step adm s (goto t (Got k v) (shared s) s)"
| wake_empty: "pcs s t = Waiting k l \<Longrightarrow> l \<in> closed (shared s) \<Longrightarrow>
     GetOrLock_resume k (shared s) = None \<Longrightarrow>
     cache_step adm s (goto t (Empty k) (shared s) s)"
| unlock: "pcs s t = Owner k l \<or> pcs s t = Got k u \<Longrightarrow> SetUnlock k v (shared s) = Some c \<Longrightarrow>
     cache_step adm s (goto t Idle c s)"
| unlock_panic: "pcs s t = Owner k l \<or> pcs s t = Got k u \<Longrightarrow> SetUnlock k v (shared s) = None \<Longrightarrow>
     cache_step adm s (s\<lparr>panicked := True\<rparr>)"
| leave: "pcs s t = Got k v \<or> pcs s t = Empty k \<Longrightarrow>
     cache_step adm s (goto t Idle (shared s) s)"
| set: "adm \<Longrightarrow> cache_step adm s (s\<lparr>shared := Set k v (shared s)\<rparr>)"
| add: "adm \<Longrightarrow> Add pr k v (shared s) = Inr c \<Longrightarrow> cache_step adm s (s\<lparr>shared := c\<rparr>)"
| delete: "adm \<Longrightarrow> cache_step adm s (s\<lparr>shared := Delete k (shared s)\<rparr>)"
| clear: "adm \<Longrightarrow> cache_step adm s (s\<lparr>shared := Clear (shared s)\<rparr>)"

inductive cache_reach :: "bool \<Rightarrow> ('t, 'k, 'v) csys \<Rightarrow> ('t, 'k, 'v) csys \<Rightarrow> bool" for adm where
  refl: "cache_reach adm s s"
| step: "cache_reach adm s s' \<Longrightarrow> cache_step adm s' s'' \<Longrightarrow> cache_reach adm s s''"

lemma cache_reach_inv:
  assumes "cache_reach adm s s'" and "P s"
    and "\<And>u u'. P u \<Longrightarrow> cache_step adm u u' \<Longrightarrow> P u'"
  shows "P s'"
  using assms(1,2) by (induction rule: cache_reach.induct) (auto intro: assms(3))

subsection \<open>No operation panics\<close>

definition csys_wf :: "('t, 'k, 'v) csys \<Rightarrow> bool" where
  "csys_wf s \<longleftrightarrow> cache_wf (shared s) \<and> \<not> panicked s"

lemma csys_wf_init [simp]: "csys_wf csys_init"
  by (simp add: csys_wf_def csys_init_def)

lemma csys_wf_step: "csys_wf s \<Longrightarrow> cache_step adm s s' \<Longrightarrow> csys_wf s'"
  unfolding csys_wf_def
proof (elim conjE, erule cache_step.cases)
qed (auto simp: SetUnlock_no_panic intro: inv_intros)

lemma csys_wf_reach: "cache_reach adm csys_init s \<Longrightarrow> csys_wf s"
  by (erule cache_reach_inv) (auto intro: csys_wf_step)

subsection \<open>Owners and waiters under the protocol of the program\<close>

text \<open>
  With \<open>GetOrLock\<close> and \<open>SetUnlock\<close> only, a key's lock is stored exactly as long as its
  one owner has it; a waiter's channel is either still the key's lock or closed with a value
  stored; and a thread that got a value will find a value under the key for ever.
\<close>

definition thread_ok :: "('k, 'v) cache \<Rightarrow> ('k, 'v) pc \<Rightarrow> bool" where
  "thread_ok c p =
     (case p of
        Idle \<Rightarrow> True
      | Owner k l \<Rightarrow> items c k = Some (ValueLock l)
      | Waiting k l \<Rightarrow>
          items c k = Some (ValueLock l) \<or> l \<in> closed c \<and> (\<exists>v. items c k = Some (Val v))
      | Got k v \<Rightarrow> (\<exists>u. items c k = Some (Val u))
      | Empty k \<Rightarrow> False)"

definition protocol_inv :: "('t, 'k, 'v) csys \<Rightarrow> bool" where
  "protocol_inv s \<longleftrightarrow>
     csys_wf s \<and> (\<forall>t. thread_ok (shared s) (pcs s t)) \<and>
     (\<forall>k l. items (shared s) k = Some (ValueLock l) \<longrightarrow> (\<exists>!t. pcs s t = Owner k l))"

lemma protocol_inv_init: "protocol_inv csys_init"
  by (auto simp: protocol_inv_def) (auto simp: csys_init_def New_def thread_ok_def)

lemma thread_ok_Locked:
  assumes "thread_ok c p" and "items c k = None" and "items c' = (items c)(k \<mapsto> i)" and "closed c' = closed c"
  shows "thread_ok c' p"
proof -
  have "items c' k' = Some x" if "items c k' = Some x" for k' x using that assms(2,3) by (cases "k' = k") simp_all
  with assms(1,4) show ?thesis by (cases p) (auto simp: thread_ok_def)
qed

lemma thread_ok_SetUnlock:
  assumes "thread_ok c p" and "SetUnlock k v c = Some c'" and "\<And>l. p \<noteq> Owner k l"
  shows "thread_ok c' p"
proof -
  have "closed c \<subseteq> closed c'" and "items c k = Some (ValueLock l) \<Longrightarrow> l \<in> closed c'" for l
    by (auto simp: SetUnlock_items(3) [OF assms(2)] split: option.splits item.splits)
  with assms(1,3) show ?thesis
    by (cases p) (auto simp: thread_ok_def SetUnlock_items(1) [OF assms(2)])
qed

lemma protocol_inv_thread: "protocol_inv s \<Longrightarrow> thread_ok (shared s) (pcs s t)"
  by (simp add: protocol_inv_def)

lemma protocol_inv_owner:
  "protocol_inv s \<Longrightarrow> items (shared s) k = Some (ValueLock l) \<Longrightarrow> \<exists>!t. pcs s t = Owner k l"
  by (simp add: protocol_inv_def)

text \<open>A step of a thread that owns nothing before or after, and that leaves the cache alone.\<close>

lemma protocol_inv_same:
  assumes "protocol_inv s" and "csys_wf s'" and "shared s' = shared s" and "pcs s' = (pcs s)(t := p)"
    and "thread_ok (shared s) p" and "\<And>k l. p \<noteq> Owner k l" and "\<And>k l. pcs s t \<noteq> Owner k l"
  shows "protocol_inv s'"
  unfolding protocol_inv_def
proof (intro conjI allI impI)
  fix k l assume "items (shared s') k = Some (ValueLock l)"
  then have "\<exists>!t. pcs s t = Owner k l" using assms protocol_inv_owner by simp
  moreover have "pcs s' t' = Owner k l \<longleftrightarrow> pcs s t' = Owner k l" for t' using assms by simp
  ultimately show "\<exists>!t. pcs s' t = Owner k l" by simp
qed (use assms protocol_inv_thread in auto)

lemma protocol_inv_lock:
  assumes inv: "protocol_inv s" and wf: "csys_wf (goto t (Owner k (next_chan (shared s))) c s)"
    and p: "pcs s t = Idle" and "GetOrLock k (shared s) = (Locked, c)"
  shows "protocol_inv (goto t (Owner k (next_chan (shared s))) c s)"
proof -
  note ok = protocol_inv_thread[OF inv] and own = protocol_inv_owner[OF inv]
  from assms(4) have k: "items (shared s) k = None"
    and c: "items c = (items (shared s))(k \<mapsto> ValueLock (next_chan (shared s)))" "closed c = closed (shared s)"
    by (auto elim: GetOrLock_cases)
  have no: "pcs s t' \<noteq> Owner k l" for t' l using ok [of t'] k by (auto simp: thread_ok_def)
  show ?thesis
    unfolding protocol_inv_def
  proof (intro conjI allI impI)
    show "thread_ok (shared (goto t (Owner k (next_chan (shared s))) c s))
            (pcs (goto t (Owner k (next_chan (shared s))) c s) t')" for t'
      using thread_ok_Locked [OF ok k c] by (simp add: thread_ok_def c)
  next
    fix k' l
    assume *: "items (shared (goto t (Owner k (next_chan (shared s))) c s)) k' = Some (ValueLock l)"
    show "\<exists>!t'. pcs (goto t (Owner k (next_chan (shared s))) c s) t' = Owner k' l"
    proof (cases "k' = k")
      case True
      with * no show ?thesis by (auto simp: c)
    next
      case False
      with * have "\<exists>!t. pcs s t = Owner k' l" using own by (simp add: c)
      moreover have "pcs (goto t (Owner k (next_chan (shared s))) c s) t' = Owner k' l \<longleftrightarrow>
          pcs s t' = Owner k' l" for t'
        using False p by auto
      ultimately show ?thesis by simp
    qed
  qed (use wf in simp)
qed

lemma protocol_inv_unlock:
  assumes inv: "protocol_inv s" and wf: "csys_wf (goto t Idle c s)"
    and p: "pcs s t = Owner k l \<or> pcs s t = Got k g" and u: "SetUnlock k v (shared s) = Some c"
  shows "protocol_inv (goto t Idle c s)"
proof -
  note ok = protocol_inv_thread[OF inv] and own = protocol_inv_owner[OF inv] and SU = SetUnlock_items [OF u]
  have others: "pcs s t' \<noteq> Owner k l'" if "t' \<noteq> t" for t' l'
  proof
    assume t': "pcs s t' = Owner k l'"
    with ok [of t'] have k: "items (shared s) k = Some (ValueLock l')" by (simp add: thread_ok_def)
    with p ok [of t] have "pcs s t = Owner k l'" by (auto simp: thread_ok_def)
    with own [OF k] t' that show False by blast
  qed
  show ?thesis
    unfolding protocol_inv_def
  proof (intro conjI allI impI)
    show "thread_ok (shared (goto t Idle c s)) (pcs (goto t Idle c s) t')" for t'
      using thread_ok_SetUnlock [OF ok u] others [of t'] by (auto simp: thread_ok_def)
  next
    fix k' l' assume *: "items (shared (goto t Idle c s)) k' = Some (ValueLock l')"
    then have "k' \<noteq> k" by (auto simp: SU)
    with * have "\<exists>!t. pcs s t = Owner k' l'" using own by (simp add: SU)
    moreover have "pcs (goto t Idle c s) t' = Owner k' l' \<longleftrightarrow> pcs s t' = Owner k' l'" for t'
      using \<open>k' \<noteq> k\<close> p by auto
    ultimately show "\<exists>!t'. pcs (goto t Idle c s) t' = Owner k' l'" by simp
  qed (use wf in simp)
qed

lemma protocol_inv_step:
  assumes inv: "protocol_inv s" and "cache_step False s s'"
  shows "protocol_inv s'"
proof -
  have wf: "csys_wf s'" using assms csys_wf_step by (auto simp: protocol_inv_def)
  note ok = protocol_inv_thread[OF inv] and same = protocol_inv_same[OF inv wf]
  from assms(2) show ?thesis
  proof cases
    case (lock t k c)
    with wf show ?thesis by (simp add: protocol_inv_lock[OF inv])
  next
    case (hit t k v c)
    from hit(3) have "items (shared s) k = Some (Val v)" and "c = shared s"
      by (auto elim: GetOrLock_cases)
    with hit show ?thesis by (intro same) (auto simp: thread_ok_def)
  next
    case (wait t k l c)
    from wait(3) have "items (shared s) k = Some (ValueLock l)" and "c = shared s"
      by (auto elim: GetOrLock_cases)
    with wait show ?thesis by (intro same) (auto simp: thread_ok_def)
  next
    case (wake t k l v)
    then show ?thesis
      by (intro same) (auto simp: thread_ok_def GetOrLock_resume_def split: option.splits item.splits)
  next
    case (wake_empty t k l)
    with ok [of t] inv have False
      by (auto simp: thread_ok_def GetOrLock_resume_def protocol_inv_def csys_wf_def cache_wf_def)
    then show ?thesis ..
  next
    case (unlock t k l u v c)
    with wf show ?thesis using protocol_inv_unlock[OF inv] by simp
  next
    case (unlock_panic t k l u v)
    then have False
      using inv SetUnlock_no_panic [of "shared s" k v] by (simp add: protocol_inv_def csys_wf_def)
    then show ?thesis ..
  next
    case (leave t k v)
    then show ?thesis by (intro same) (auto simp: thread_ok_def)
  qed auto
qed

lemma protocol_inv_reach: "cache_reach False csys_init s \<Longrightarrow> protocol_inv s"
  by (erule cache_reach_inv) (auto intro: protocol_inv_init protocol_inv_step)

subsection \<open>A run of two threads\<close>

text \<open>Thread 0 locks key 7, thread 1 waits for it.\<close>

definition locked7 :: "(nat, nat) cache" where
  "locked7 = \<lparr>items = [7 \<mapsto> ValueLock 0], closed = {}, next_chan = 1\<rparr>"

definition one_thread :: "(nat, nat, nat) csys" where
  "one_thread = goto 0 (Owner 7 0) locked7 csys_init"

definition two_threads :: "(nat, nat, nat) csys" where
  "two_threads = goto 1 (Waiting 7 0) locked7 one_thread"

lemma one_thread_reach: "cache_reach adm csys_init one_thread"
proof -
  have "cache_step adm (csys_init :: (nat, nat, nat) csys)
      (goto 0 (Owner 7 (next_chan (shared (csys_init :: (nat, nat, nat) csys)))) locked7 csys_init)"
    by (rule cache_step.lock) (simp_all add: csys_init_def GetOrLock_def New_def locked7_def)
  then have "cache_step adm csys_init one_thread"
    by (simp add: one_thread_def csys_init_def New_def)
  with cache_reach.refl show ?thesis by (rule cache_reach.step)
qed

lemma two_threads_reach: "cache_reach adm csys_init two_threads"
proof -
  have "cache_step adm one_thread two_threads"
    unfolding two_threads_def
    by (rule cache_step.wait)
      (simp_all add: one_thread_def locked7_def csys_init_def GetOrLock_def)
  with one_thread_reach show ?thesis by (rule cache_reach.step)
qed

section \<open>Properties of the shared cache\<close>

text \<open>
  C9. Mutual exclusion. While threads use a cache through \<open>GetOrLock\<close> and \<open>SetUnlock\<close>,
  at most one thread at a time owns the lock of a key: of all the callers of \<open>GetOrLock\<close>
  for a key only one is told to produce the value.
\<close>
theorem one_owner_per_key:
  assumes "cache_reach False csys_init s"
    and "pcs s t = Owner k l" and "pcs s t' = Owner k l'"
  shows "t = t'"
proof -
  have inv: "protocol_inv s" using assms(1) by (rule protocol_inv_reach)
  then have k: "items (shared s) k = Some (ValueLock l)" "items (shared s) k = Some (ValueLock l')"
    using protocol_inv_thread [of s t] protocol_inv_thread [of s t'] assms(2,3)
    by (simp_all add: thread_ok_def)
  with inv have "\<exists>!t. pcs s t = Owner k l" by (simp add: protocol_inv_def)
  with k assms(2,3) show ?thesis by auto
qed

theorem one_owner_per_key_witness: "pcs two_threads 0 = Owner 7 0 \<and> (0 :: nat) = 0"
  using one_owner_per_key [OF two_threads_reach, of 0 7 0 0 0]
  by (simp add: two_threads_def one_thread_def)

text \<open>
  C10. No wake-up is lost. A thread that waits in \<open>GetOrLock\<close> can either go on at once, with a
  value, or another thread owns the lock it waits for, and the \<open>SetUnlock\<close> by which that
  owner ends closes the channel and leaves the waiter the value just set.
\<close>
theorem waiter_is_served:
  assumes "cache_reach False csys_init s" and "pcs s t = Waiting k l"
  shows "(\<exists>v. l \<in> closed (shared s) \<and> GetOrLock_resume k (shared s) = Some v) \<or>
    (\<exists>u. u \<noteq> t \<and> pcs s u = Owner k l \<and>
       (\<forall>v. \<exists>c. SetUnlock k v (shared s) = Some c \<and> l \<in> closed c \<and>
                GetOrLock_resume k c = Some v))"
proof -
  have inv: "protocol_inv s" using assms(1) by (rule protocol_inv_reach)
  then have "thread_ok (shared s) (pcs s t)" by (simp add: protocol_inv_def)
  then consider (locked) "items (shared s) k = Some (ValueLock l)"
    | (served) "l \<in> closed (shared s)" "\<exists>v. items (shared s) k = Some (Val v)"
    using assms(2) by (auto simp: thread_ok_def)
  then show ?thesis
  proof cases
    case locked
    with inv obtain u where u: "pcs s u = Owner k l" by (blast dest: protocol_inv_owner)
    have "\<exists>c. SetUnlock k v (shared s) = Some c" for v
      using inv SetUnlock_no_panic by (auto simp: protocol_inv_def csys_wf_def)
    then have "\<exists>c. SetUnlock k v (shared s) = Some c \<and> l \<in> closed c \<and> GetOrLock_resume k c = Some v" for v
      using locked by (fastforce simp: SetUnlock_items GetOrLock_resume_def)
    with u assms(2) show ?thesis by (metis pc.distinct(9))
  next
    case served
    then show ?thesis by (auto simp: GetOrLock_resume_def)
  qed
qed

theorem waiter_is_served_witness:
  "(\<exists>v. 0 \<in> closed (shared two_threads) \<and> GetOrLock_resume 7 (shared two_threads) = Some v) \<or>
    (\<exists>u. u \<noteq> 1 \<and> pcs two_threads u = Owner 7 0 \<and>
       (\<forall>v. \<exists>c. SetUnlock 7 v (shared two_threads) = Some c \<and> 0 \<in> closed c \<and>
                GetOrLock_resume 7 c = Some v))"
  by (rule waiter_is_served [OF two_threads_reach]) (simp add: two_threads_def)

text \<open>
  Whatever threads do with a cache, its administrative operations included, no call of
  \<open>SetUnlock\<close> closes a channel that is closed already: no run of the system panics.
\<close>
theorem cache_never_panics:
  assumes "cache_reach adm csys_init s"
  shows "\<not> panicked s"
  using csys_wf_reach [OF assms] by (simp add: csys_wf_def)

theorem cache_never_panics_witness: "\<not> panicked two_threads"
  by (rule cache_never_panics [OF two_threads_reach [of True]])

subsection \<open>A lock dropped by an administrative operation\<close>

definition stranded :: "'t \<Rightarrow> 'k \<Rightarrow> nat \<Rightarrow> ('t, 'k, 'v) csys \<Rightarrow> bool" where
  "stranded t k l s \<longleftrightarrow>
     pcs s t = Waiting k l \<and> l \<notin> closed (shared s) \<and> l < next_chan (shared s) \<and>
     (\<forall>k'. items (shared s) k' \<noteq> Some (ValueLock l))"

lemma stranded_SetUnlock:
  "SetUnlock k' v c = Some c' \<Longrightarrow> l \<notin> closed c \<Longrightarrow> \<forall>k'. items c k' \<noteq> Some (ValueLock l) \<Longrightarrow>
   l \<notin> closed c' \<and> (\<forall>k'. items c' k' \<noteq> Some (ValueLock l))"
  by (auto simp: SetUnlock_items split: option.splits item.splits if_splits)

lemma stranded_cache:
  "stranded t k l s \<Longrightarrow> pcs s' t = pcs s t \<Longrightarrow>
   l \<notin> closed (shared s') \<Longrightarrow> next_chan (shared s) \<le> next_chan (shared s') \<Longrightarrow>
   (\<And>k'. items (shared s') k' \<noteq> Some (ValueLock l)) \<Longrightarrow> stranded t k l s'"
  by (simp add: stranded_def)

lemma stranded_step:
  assumes "stranded t k l s" and "cache_step adm s s'"
  shows "stranded t k l s'"
proof -
  have s: "pcs s t = Waiting k l" "l \<notin> closed (shared s)" "l < next_chan (shared s)"
      "items (shared s) k' \<noteq> Some (ValueLock l)" for k'
    using assms(1) by (auto simp: stranded_def)
  from assms(2) show ?thesis
  proof cases
    case (lock t' k' c)
    from lock(3) have "items c = (items (shared s))(k' \<mapsto> ValueLock (next_chan (shared s)))"
      by (auto elim: GetOrLock_cases)
    then have "items c k'' \<noteq> Some (ValueLock l)" for k''
      using s(3,4) by simp
    moreover from lock(3) have "closed c = closed (shared s)" and "next_chan (shared s) \<le> next_chan c"
      by (auto elim!: GetOrLock_cases)
    ultimately show ?thesis
      using s lock(1,2) by (intro stranded_cache [OF assms(1)]) auto
  next
    case (unlock t' k' l' u v c)
    with s stranded_SetUnlock [OF unlock(3) s(2)] show ?thesis
      by (intro stranded_cache [OF assms(1)]) (auto simp: SetUnlock_items)
  next
    case (add pr k' v c)
    with s show ?thesis
      by (intro stranded_cache [OF assms(1)]) (auto simp: Add_def split: option.splits if_splits)
  qed (use s in \<open>auto simp: stranded_def Set_def Delete_def Clear_def elim!: GetOrLock_cases\<close>)
qed

lemma stranded_reach:
  assumes "cache_reach adm s s'" and "stranded t k l s"
  shows "stranded t k l s'"
  using assms(1) by (rule cache_reach_inv) (auto intro: stranded_step assms(2))

definition after_clear :: "(nat, nat, nat) csys" where
  "after_clear = goto 0 Idle \<lparr>items = [7 \<mapsto> Val 5], closed = {}, next_chan = 1\<rparr>
     (two_threads\<lparr>shared := Clear (shared two_threads)\<rparr>)"

lemma after_clear_reach: "cache_reach True csys_init after_clear"
proof -
  have "cache_step True two_threads (two_threads\<lparr>shared := Clear (shared two_threads)\<rparr>)"
    by (rule cache_step.clear) simp
  with two_threads_reach [of True]
  have "cache_reach True csys_init (two_threads\<lparr>shared := Clear (shared two_threads)\<rparr>)"
    by (rule cache_reach.step)
  moreover have "cache_step True (two_threads\<lparr>shared := Clear (shared two_threads)\<rparr>) after_clear"
    unfolding after_clear_def
    by (rule cache_step.unlock [where k = 7 and v = 5 and l = 0])
      (simp_all add: two_threads_def one_thread_def locked7_def Clear_def SetUnlock_def)
  ultimately show ?thesis by (rule cache_reach.step)
qed

text \<open>
  \<open>Clear\<close> forgets a lock without closing its channel. There is a run in which thread 0
  locks key 7, thread 1 waits for it, the cache is cleared, and thread 0 sets the value: the
  value is in the cache, but thread 1 waits, and goes on waiting whatever happens next.
\<close>
theorem clear_strands_waiter:
  "cache_reach True csys_init after_clear \<and>
   items (shared after_clear) 7 = Some (Val 5) \<and>
   {s. cache_reach True after_clear s} \<subseteq> {s. pcs s 1 = Waiting 7 0}"
proof (intro conjI subsetI CollectI)
  fix s assume "s \<in> {s. cache_reach True after_clear s}"
  then have "cache_reach True after_clear s" by simp
  moreover have "stranded 1 7 0 after_clear"
    by (simp add: stranded_def after_clear_def two_threads_def)
  ultimately have "stranded 1 7 0 s"
    by (rule stranded_reach)
  then show "pcs s 1 = Waiting 7 0" by (simp add: stranded_def)
qed (simp_all add: after_clear_reach, simp add: after_clear_def)

end
