(* ===== verification/ChartRef.thy ===== *)
theory ChartRef
  imports GoStrings GoPath
begin

text \<open>
  Chart references, build options and build results
  (\<open>internal/helm/chart/builder.go\<close>), and the reasons of build errors
  (\<open>internal/helm/chart/errors.go\<close>).

  The regular expression of chart names is kept as a regular expression and matched by
  derivatives; \<open>chart_name_iff\<close> says in plain words which names it accepts. Chart names and
  versions are bytes; a name with other bytes than the ones of the class does not match, as
  Go's matcher decides too, whatever its encoding.
\<close>

section \<open>Regular expressions\<close>

datatype rx =
    RNone
  | REps
  | RClass "char list"
  | RAlt rx rx
  | RSeq rx rx
  | RStar rx

fun rx_null :: "rx \<Rightarrow> bool" where
  "rx_null RNone = False"
| "rx_null REps = True"
| "rx_null (RClass cs) = False"
| "rx_null (RAlt r s) = (rx_null r \<or> rx_null s)"
| "rx_null (RSeq r s) = (rx_null r \<and> rx_null s)"
| "rx_null (RStar r) = True"

fun rx_deriv :: "char \<Rightarrow> rx \<Rightarrow> rx" where
  "rx_deriv c RNone = RNone"
| "rx_deriv c REps = RNone"
| "rx_deriv c (RClass cs) = (if c \<in> set cs then REps else RNone)"
| "rx_deriv c (RAlt r s) = RAlt (rx_deriv c r) (rx_deriv c s)"
| "rx_deriv c (RSeq r s) =
     (if rx_null r then RAlt (RSeq (rx_deriv c r) s) (rx_deriv c s) else RSeq (rx_deriv c r) s)"
| "rx_deriv c (RStar r) = RSeq (rx_deriv c r) (RStar r)"

definition rx_match :: "rx \<Rightarrow> string \<Rightarrow> bool" where
  "rx_match r s = rx_null (fold rx_deriv s r)"

definition RPlus :: "rx \<Rightarrow> rx" where
  "RPlus r = RSeq r (RStar r)"

definition ROpt :: "rx \<Rightarrow> rx" where
  "ROpt r = RAlt r REps"

text \<open>The language of an expression, and that the derivatives decide it.\<close>

inductive_set star :: "'a list set \<Rightarrow> 'a list set" for L where
  star_Nil [intro!, simp]: "[] \<in> star L"
| star_append [intro]: "u \<in> L \<Longrightarrow> v \<in> star L \<Longrightarrow> u @ v \<in> star L"

fun rx_lang :: "rx \<Rightarrow> string set" where
  "rx_lang RNone = {}"
| "rx_lang REps = {[]}"
| "rx_lang (RClass cs) = {[c] | c. c \<in> set cs}"
| "rx_lang (RAlt r s) = rx_lang r \<union> rx_lang s"
| "rx_lang (RSeq r s) = {u @ v | u v. u \<in> rx_lang r \<and> v \<in> rx_lang s}"
| "rx_lang (RStar r) = star (rx_lang r)"

lemma rx_null_iff: "rx_null r \<longleftrightarrow> [] \<in> rx_lang r"
  by (induction r) auto

lemma star_Cons_iff: "c # w \<in> star L \<longleftrightarrow> (\<exists>u v. w = u @ v \<and> c # u \<in> L \<and> v \<in> star L)"
proof
  assume "c # w \<in> star L"
  then show "\<exists>u v. w = u @ v \<and> c # u \<in> L \<and> v \<in> star L"
  proof (induction "c # w" rule: star.induct)
    case (star_append u v)
    then show ?case by (cases u) auto
  qed
next
  assume "\<exists>u v. w = u @ v \<and> c # u \<in> L \<and> v \<in> star L"
  then show "c # w \<in> star L" by (metis append_Cons star.star_append)
qed

lemma rx_deriv_iff: "w \<in> rx_lang (rx_deriv c r) \<longleftrightarrow> c # w \<in> rx_lang r"
proof (induction r arbitrary: w)
  case (RSeq r s)
  have "c # w \<in> rx_lang (RSeq r s) \<longleftrightarrow>
      ([] \<in> rx_lang r \<and> c # w \<in> rx_lang s) \<or>
      (\<exists>u v. w = u @ v \<and> c # u \<in> rx_lang r \<and> v \<in> rx_lang s)"
    by (auto simp: Cons_eq_append_conv)
  with RSeq.IH show ?case by (auto simp: rx_null_iff)
qed (auto simp: star_Cons_iff)

lemma rx_match_iff: "rx_match r s \<longleftrightarrow> s \<in> rx_lang r"
  by (induction s arbitrary: r) (simp_all add: rx_match_def rx_null_iff rx_deriv_iff)

lemma rx_plus_iff:
  assumes "[] \<notin> rx_lang r"
  shows "w \<in> rx_lang (RPlus r) \<longleftrightarrow> w \<noteq> [] \<and> w \<in> star (rx_lang r)"
proof (cases w)
  case Nil
  with assms show ?thesis by (simp add: RPlus_def)
next
  case (Cons c x)
  have "c # x \<in> rx_lang (RPlus r) \<longleftrightarrow>
      (\<exists>u v. c # x = u @ v \<and> u \<in> rx_lang r \<and> v \<in> star (rx_lang r))"
    by (simp add: RPlus_def)
  also have "\<dots> \<longleftrightarrow> (\<exists>u v. x = u @ v \<and> c # u \<in> rx_lang r \<and> v \<in> star (rx_lang r))"
    using assms by (auto simp: Cons_eq_append_conv)
  finally show ?thesis using Cons by (simp add: star_Cons_iff)
qed

lemma rx_star_class: "v \<in> star {[c] | c. c \<in> A} \<longleftrightarrow> set v \<subseteq> A"
proof (induction v)
  case (Cons x v)
  have "x # v \<in> star {[c] | c. c \<in> A} \<longleftrightarrow> x \<in> A \<and> v \<in> star {[c] | c. c \<in> A}"
    by (auto simp: star_Cons_iff)
  with Cons.IH show ?case by auto
qed simp

lemma rx_plus_class: "u \<in> rx_lang (RPlus (RClass cs)) \<longleftrightarrow> u \<noteq> [] \<and> set u \<subseteq> set cs"
  by (subst rx_plus_iff) (simp_all add: rx_star_class)

section \<open>Build errors\<close>

definition ErrChartReference :: build_error_reason where
  "ErrChartReference = BuildErrorReason ''InvalidChartReference'' ''invalid chart reference''"

definition ErrChartPull :: build_error_reason where
  "ErrChartPull = BuildErrorReason ''ChartPullError'' ''chart pull error''"

definition ErrChartMetadataPatch :: build_error_reason where
  "ErrChartMetadataPatch = BuildErrorReason ''MetadataPatchError'' ''chart metadata patch error''"

definition ErrValuesFilesMerge :: build_error_reason where
  "ErrValuesFilesMerge = BuildErrorReason ''ValuesFilesError'' ''values files merge error''"

definition ErrDependencyBuild :: build_error_reason where
  "ErrDependencyBuild = BuildErrorReason ''DependencyBuildError'' ''dependency build error''"

definition ErrChartPackage :: build_error_reason where
  "ErrChartPackage = BuildErrorReason ''ChartPackageError'' ''chart package error''"

definition ErrChartVerification :: build_error_reason where
  "ErrChartVerification =
     BuildErrorReason ''ChartVerificationError'' ''chart verification error''"

definition ErrUnknown :: build_error_reason where
  "ErrUnknown = BuildErrorReason ''Unknown'' ''unknown build error''"

lemmas reason_defs =
  ErrChartReference_def ErrChartPull_def ErrChartMetadataPatch_def ErrValuesFilesMerge_def
  ErrDependencyBuild_def ErrChartPackage_def ErrChartVerification_def ErrUnknown_def

text \<open>The switch compares the error itself with three bare reasons.\<close>

definition IsPersistentBuildErrorReason :: "go_error \<Rightarrow> bool" where
  "IsPersistentBuildErrorReason err =
     (if err \<in> {ReasonError ErrChartReference, ReasonError ErrChartMetadataPatch,
                ReasonError ErrValuesFilesMerge} then True else False)"

section \<open>References\<close>

record local_reference =
  WorkDir :: string
  lref_Path :: string

record remote_reference =
  ref_Name :: string
  ref_Version :: string

datatype reference = LocalRef local_reference | RemoteRef remote_reference

definition LocalReference_Validate :: "local_reference \<Rightarrow> go_error option" where
  "LocalReference_Validate r =
     (if WorkDir r = '''' then Some (ErrorString ''no work dir set for local chart reference'')
      else if lref_Path r = '''' then Some (ErrorString ''no path set for local chart reference'')
      else if \<not> is_abs (WorkDir r)
        then Some (ErrorString ''local chart reference work dir is expected to be absolute'')
      else if is_abs (lref_Path r)
        then Some (ErrorString ''local chart reference path is expected to be relative'')
      else None)"

text \<open>\<open>^([-a-z0-9]+/?)+$\<close>; without flags both anchors are the ends of the text.\<close>

definition chart_name_chars :: "char list" where
  "chart_name_chars = ''-abcdefghijklmnopqrstuvwxyz0123456789''"

definition chart_name_rx :: rx where
  "chart_name_rx = RPlus (RSeq (RPlus (RClass chart_name_chars)) (ROpt (RClass ''/'')))"

definition RemoteReference_Validate :: "remote_reference \<Rightarrow> go_error option" where
  "RemoteReference_Validate r =
     (if ref_Name r = '''' then Some (ErrorString ''no name set for remote chart reference'')
      else if \<not> rx_match chart_name_rx (ref_Name r)
        then Some (ErrorString (''invalid chart name '' @ [CHR 0x27] @ ref_Name r @ [CHR 0x27] @
          '': a valid name must be lower case letters and numbers and MAY be separated with dashes (-) or slashes (/)''))
      else None)"

definition Reference_Validate :: "reference \<Rightarrow> go_error option" where
  "Reference_Validate r =
     (case r of LocalRef l \<Rightarrow> LocalReference_Validate l | RemoteRef m \<Rightarrow> RemoteReference_Validate m)"

text \<open>\<open>url.PathEscape\<close>.\<close>

definition upper_hex_digit :: "nat \<Rightarrow> char" where
  "upper_hex_digit n = (if n < 10 then char_of (48 + n) else char_of (55 + n))"

definition path_segment_char :: "char \<Rightarrow> bool" where
  "path_segment_char c =
     (c \<in> set ''abcdefghijklmnopqrstuvwxyzABCDEFGHIJKLMNOPQRSTUVWXYZ0123456789-_.~$&+:=@'')"

fun path_escape :: "string \<Rightarrow> string" where
  "path_escape [] = []"
| "path_escape (c # s) =
     (if path_segment_char c then c # path_escape s
      else CHR ''%'' # upper_hex_digit (of_char c div 16) # upper_hex_digit (of_char c mod 16)
             # path_escape s)"

definition WithEscapedName :: "remote_reference \<Rightarrow> remote_reference" where
  "WithEscapedName r = r\<lparr>ref_Name := path_escape (ref_Name r)\<rparr>"

definition RemoteReference_String :: "remote_reference \<Rightarrow> string" where
  "RemoteReference_String r = ref_Name r @ ''%'' @ ref_Version r"

section \<open>Options and results of a build\<close>

definition ValuesfileName :: string where
  "ValuesfileName = ''values.yaml''"

record build_options =
  VersionMetadata :: string
  opt_ValuesFiles :: "string list"
  CachedChart :: string
  Force :: bool
  Verify :: bool

definition GetValuesFiles :: "build_options \<Rightarrow> string list" where
  "GetValuesFiles opts =
     (case opt_ValuesFiles opts of
        [f] \<Rightarrow> if path_clean f = path_clean ValuesfileName then [] else [f]
      | fs \<Rightarrow> fs)"

record build =
  bld_Name :: string
  bld_Version :: string
  bld_Path :: string
  bld_ValuesFiles :: "string list"
  ResolvedDependencies :: int
  Packaged :: bool

definition empty_build :: build where
  "empty_build =
     \<lparr>bld_Name = '''', bld_Version = '''', bld_Path = '''', bld_ValuesFiles = [],
      ResolvedDependencies = 0, Packaged = False\<rparr>"

text \<open>The methods accept a nil pointer, here \<^term>\<open>None\<close>.\<close>

definition HasMetadata :: "build option \<Rightarrow> bool" where
  "HasMetadata b =
     (case b of None \<Rightarrow> False | Some r \<Rightarrow> bld_Name r \<noteq> '''' \<and> bld_Version r \<noteq> '''')"

definition Complete :: "build option \<Rightarrow> bool" where
  "Complete b = (HasMetadata b \<and> bld_Path (the b) \<noteq> '''')"

definition Build_String :: "build option \<Rightarrow> string" where
  "Build_String b = (case b of None \<Rightarrow> '''' | Some r \<Rightarrow> bld_Path r)"

definition quoted :: "string \<Rightarrow> string" where
  "quoted s = [CHR 0x27] @ s @ [CHR 0x27]"

definition Summary :: "build option \<Rightarrow> string" where
  "Summary bp =
     (if \<not> HasMetadata bp then ''no chart build''
      else
        let b = the bp;
            action = (if bld_Path b \<noteq> '''' then (if Packaged b then ''packaged'' else ''pulled'')
                      else ''new'') in
        action @ '' '' @ quoted (bld_Name b) @ '' chart with version '' @ quoted (bld_Version b) @
        (if bld_ValuesFiles b \<noteq> []
         then '' and merged values files '' @ ''['' @ join_with '' '' (bld_ValuesFiles b) @ '']''
         else ''''))"

section \<open>Chart names\<close>

text \<open>The names the code accepts, element by element.\<close>

definition chart_name_ok :: "string \<Rightarrow> bool" where
  "chart_name_ok s =
     (s \<noteq> [] \<and> set s \<subseteq> set (slash # chart_name_chars) \<and> hd s \<noteq> slash \<and>
      \<not> contains s [slash, slash])"

lemma slash_not_name_char [simp]: "slash \<notin> set chart_name_chars"
  by (simp add: slash_def chart_name_chars_def)

definition name_blocks :: "string set" where
  "name_blocks = {u. \<exists>w. w \<noteq> [] \<and> set w \<subseteq> set chart_name_chars \<and> (u = w \<or> u = w @ [slash])}"

lemma chart_name_blocks:
  "rx_lang (RSeq (RPlus (RClass chart_name_chars)) (ROpt (RClass ''/''))) = name_blocks"
proof -
  have opt: "rx_lang (ROpt (RClass ''/'')) = {[], [slash]}"
    by (auto simp: ROpt_def slash_def)
  show ?thesis
    unfolding rx_lang.simps(5) opt name_blocks_def
    by (auto simp: rx_plus_class simp del: rx_lang.simps)
qed

lemma contains_two_append:
  assumes "c \<notin> set w"
  shows "contains (w @ [c] @ v) [c, c] \<longleftrightarrow> (v \<noteq> [] \<and> hd v = c) \<or> contains v [c, c]"
  using assms by (induction w) (cases v; auto)+

lemma contains_no_sep: "c \<notin> set w \<Longrightarrow> \<not> contains w [c, c]"
  by (induction w) auto

lemma chart_name_star:
  "v \<in> star name_blocks \<Longrightarrow>
   v = [] \<or> chart_name_ok v"
proof (induction rule: star.induct)
  case (star_append u v)
  then obtain w where w: "w \<noteq> []" "set w \<subseteq> set chart_name_chars" "u = w \<or> u = w @ [slash]"
    by (auto simp: name_blocks_def)
  then have ns: "slash \<notin> set w" using slash_not_name_char by blast
  have hd: "hd w \<noteq> slash" using w(1) ns by (metis hd_in_set)
  have cw: "contains (w @ v) [slash, slash] \<longleftrightarrow> contains v [slash, slash]"
    using ns by (induction w) auto
  show ?case
    using w(3)
  proof
    assume "u = w"
    with star_append.IH w hd cw contains_no_sep[OF ns] show ?thesis
      by (auto simp: chart_name_ok_def)
  next
    assume u: "u = w @ [slash]"
    have "contains (w @ [slash] @ v) [slash, slash] \<longleftrightarrow>
        (v \<noteq> [] \<and> hd v = slash) \<or> contains v [slash, slash]"
      by (rule contains_two_append[OF ns])
    with star_append.IH w(1,2) hd u show ?thesis
      by (auto simp: chart_name_ok_def)
  qed
qed simp

lemma chart_name_in_star:
  "chart_name_ok v \<Longrightarrow>
   v \<in> star name_blocks"
proof (induction v rule: length_induct)
  case (1 v)
  define w where "w = takeWhile (\<lambda>c. c \<noteq> slash) v"
  define t where "t = dropWhile (\<lambda>c. c \<noteq> slash) v"
  have v: "v = w @ t" by (simp add: w_def t_def)
  have ns: "slash \<notin> set w" by (auto simp: w_def dest: set_takeWhileD)
  have wn: "w \<noteq> []" using 1(2) by (cases v) (auto simp: w_def chart_name_ok_def)
  have ws: "set w \<subseteq> set chart_name_chars"
    using 1(2) ns v by (auto simp: chart_name_ok_def)
  show ?case
  proof (cases t)
    case Nil
    then have "v \<in> name_blocks" using v wn ws by (auto simp: name_blocks_def)
    then show ?thesis by (metis append_Nil2 star.star_append star.star_Nil)
  next
    case (Cons a x)
    then have a: "a = slash" using t_def by (metis (mono_tags) dropWhile_eq_Cons_conv)
    have blk: "w @ [slash] \<in> name_blocks" using wn ws by (auto simp: name_blocks_def)
    have vx: "v = (w @ [slash]) @ x" using v Cons a by simp
    have "x \<in> star name_blocks"
    proof (cases "x = []")
      case False
      then have "chart_name_ok x"
        using 1(2) contains_two_append[OF ns, of x] by (auto simp: vx chart_name_ok_def)
      with 1(1) vx show ?thesis by auto
    qed simp
    with blk vx show ?thesis by (metis star.star_append)
  qed
qed

lemma chart_name_iff: "rx_match chart_name_rx s \<longleftrightarrow> chart_name_ok s"
proof -
  have "[] \<notin> name_blocks" by (auto simp: name_blocks_def)
  then have "rx_match chart_name_rx s \<longleftrightarrow> s \<noteq> [] \<and> s \<in> star name_blocks"
    unfolding rx_match_iff chart_name_rx_def
    by (subst rx_plus_iff) (simp_all add: chart_name_blocks del: rx_lang.simps)
  also have "\<dots> \<longleftrightarrow> chart_name_ok s"
    using chart_name_star chart_name_in_star by (auto simp: chart_name_ok_def)
  finally show ?thesis .
qed

lemma RemoteReference_Validate_iff:
  "RemoteReference_Validate r = None \<longleftrightarrow> chart_name_ok (ref_Name r)"
  by (auto simp: RemoteReference_Validate_def chart_name_iff chart_name_ok_def)

lemma chart_name_ok_segment:
  "w \<noteq> [] \<Longrightarrow> set w \<subseteq> set chart_name_chars \<Longrightarrow>
   chart_name_ok (w @ slash # x) \<longleftrightarrow> x = [] \<or> chart_name_ok x"
proof -
  assume w: "w \<noteq> []" "set w \<subseteq> set chart_name_chars"
  then have ns: "slash \<notin> set w" using slash_not_name_char by blast
  with w have "hd w \<noteq> slash" by (metis hd_in_set)
  with w contains_two_append[OF ns, of x] show ?thesis
    by (cases "x = []") (auto simp: chart_name_ok_def)
qed

lemma chart_name_ok_segments:
  "chart_name_ok s \<longleftrightarrow>
   (\<exists>ws. ws \<noteq> [] \<and> list_all (\<lambda>w. w \<noteq> [] \<and> set w \<subseteq> set chart_name_chars) ws \<and>
         (s = join_with [slash] ws \<or> s = join_with [slash] ws @ [slash]))"
  (is "_ \<longleftrightarrow> (\<exists>ws. ?P ws s)")
proof
  assume "chart_name_ok s"
  then show "\<exists>ws. ?P ws s"
  proof (induction s rule: length_induct)
    case (1 s)
    define w where "w = takeWhile (\<lambda>c. c \<noteq> slash) s"
    define t where "t = dropWhile (\<lambda>c. c \<noteq> slash) s"
    have s: "s = w @ t" by (simp add: w_def t_def)
    have ns: "slash \<notin> set w" by (auto simp: w_def dest: set_takeWhileD)
    have wn: "w \<noteq> []" using 1(2) by (cases s) (auto simp: w_def chart_name_ok_def)
    have ws: "set w \<subseteq> set chart_name_chars"
      using 1(2) ns s by (auto simp: chart_name_ok_def)
    show ?case
    proof (cases t)
      case Nil
      with s wn ws show ?thesis by (intro exI[of _ "[w]"]) auto
    next
      case (Cons a x)
      then have a: "a = slash" using t_def by (metis (mono_tags) dropWhile_eq_Cons_conv)
      show ?thesis
      proof (cases "x = []")
        case True
        with s Cons a wn ws show ?thesis by (intro exI[of _ "[w]"]) auto
      next
        case False
        then have "chart_name_ok x"
          using 1(2) chart_name_ok_segment[OF wn ws, of x] s Cons a by auto
        then obtain us where us: "?P us x" using 1(1)[rule_format, of x] s Cons by auto
        then have "?P (w # us) s" using s Cons a wn ws by (cases us) auto
        then show ?thesis by blast
      qed
    qed
  qed
next
  assume "\<exists>ws. ?P ws s"
  then obtain ws where ws: "?P ws s" by blast
  have "ws \<noteq> [] \<Longrightarrow> list_all (\<lambda>w. w \<noteq> [] \<and> set w \<subseteq> set chart_name_chars) ws \<Longrightarrow>
      chart_name_ok (join_with [slash] ws) \<and> chart_name_ok (join_with [slash] ws @ [slash])" for ws
  proof (induction ws rule: induct_list012)
    case (2 w)
    then have ns: "slash \<notin> set w" using slash_not_name_char by auto
    then have "chart_name_ok w"
      using 2 contains_no_sep[OF ns] by (auto simp: chart_name_ok_def dest: hd_in_set)
    then show ?case using 2 chart_name_ok_segment[of w "[]"] by simp
  next
    case (3 w v ws)
    then show ?case by (simp add: chart_name_ok_segment)
  qed simp
  with ws show "chart_name_ok s" by blast
qed

text \<open>
  C28. A remote reference is valid exactly when its name is a non-empty sequence of non-empty
  elements of lower case letters, digits and dashes, separated by single slashes, with at most
  one slash at the end. So a valid name has no empty element, no dot, no percent sign, and it
  does not begin with a slash.
\<close>

theorem valid_chart_names:
  "RemoteReference_Validate r = None \<longleftrightarrow>
   (\<exists>ws. ws \<noteq> [] \<and> list_all (\<lambda>w. w \<noteq> [] \<and> set w \<subseteq> set chart_name_chars) ws \<and>
         (ref_Name r = join_with [slash] ws \<or> ref_Name r = join_with [slash] ws @ [slash]))"
  by (simp add: RemoteReference_Validate_iff chart_name_ok_segments)

section \<open>Escaped names\<close>

lemma upper_hex_digit_inj: "m < 16 \<Longrightarrow> n < 16 \<Longrightarrow> upper_hex_digit m = upper_hex_digit n \<longleftrightarrow> m = n"
  by (auto simp: upper_hex_digit_def split: if_splits dest!: arg_cong[where f = of_char])

lemma of_char_split: "of_char c = 16 * (of_char c div 16) + (of_char c mod 16 :: nat)"
  by simp

lemma of_char_div_16: "(of_char c :: nat) div 16 < 16"
proof -
  have "(of_char c :: nat) < 256" by (metis UNIV_I atLeastLessThan_iff imageI inj_of_char range_nat_of_char)
  then show ?thesis by (simp add: less_mult_imp_div_less)
qed

lemma path_escape_inj: "path_escape s = path_escape t \<Longrightarrow> s = t"
proof (induction s arbitrary: t rule: path_escape.induct)
  case 1
  then show ?case by (cases t) (auto split: if_splits)
next
  case (2 c s)
  then obtain d u where t: "t = d # u" by (cases t) (auto split: if_splits)
  have pc: "\<not> path_segment_char CHR ''%''" by (simp add: path_segment_char_def)
  show ?case
  proof (cases "path_segment_char c"; cases "path_segment_char d")
    assume c: "\<not> path_segment_char c" and d: "\<not> path_segment_char d"
    from 2(3) t c d have
      "(of_char c :: nat) div 16 = of_char d div 16" "(of_char c :: nat) mod 16 = of_char d mod 16"
      and u: "path_escape s = path_escape u"
      by (auto simp: upper_hex_digit_inj of_char_div_16)
    then have "(of_char c :: nat) = of_char d"
      using of_char_split[of c] of_char_split[of d] by metis
    with 2(2)[OF c u] t show ?thesis by simp
  qed (use 2 t pc in auto)
qed

lemma path_escape_no_slash: "slash \<notin> set (path_escape s)"
proof (induction s)
  case (Cons c s)
  have "upper_hex_digit n \<noteq> slash" if "n < 16" for n
    using that by (auto simp: upper_hex_digit_def slash_def split: if_splits
        dest!: arg_cong[where f = "of_char :: char \<Rightarrow> nat"])
  moreover have "\<not> path_segment_char slash" by (simp add: path_segment_char_def slash_def)
  moreover have "slash \<noteq> CHR ''%''" by (simp add: slash_def)
  ultimately show ?case using Cons of_char_div_16[of c] by (auto; metis mod_less_divisor zero_less_numeral)
qed simp

lemma WithEscapedName_inj: "WithEscapedName r = WithEscapedName r' \<Longrightarrow> r = r'"
  by (cases r; cases r') (auto simp: WithEscapedName_def dest: path_escape_inj)

lemma WithEscapedName_sel [simp]:
  "ref_Version (WithEscapedName r) = ref_Version r"
  "ref_Name (WithEscapedName r) = path_escape (ref_Name r)"
  by (simp_all add: WithEscapedName_def)

section \<open>Facts about errors, options and results\<close>

lemma no_build_error_is_persistent:
  "\<not> IsPersistentBuildErrorReason (BuildError r e) \<and> errors_is (BuildError r e) (ReasonError r)"
  by (simp add: IsPersistentBuildErrorReason_def)

lemma LocalReference_Validate_iff:
  "LocalReference_Validate r = None \<longleftrightarrow>
   is_abs (WorkDir r) \<and> lref_Path r \<noteq> [] \<and> \<not> is_abs (lref_Path r)"
  by (auto simp: LocalReference_Validate_def is_abs_def)

lemma GetValuesFiles_cases:
  "GetValuesFiles opts = (if \<exists>f. opt_ValuesFiles opts = [f] \<and> path_clean f = path_clean ValuesfileName
     then [] else opt_ValuesFiles opts)"
  by (auto simp: GetValuesFiles_def split: list.splits)

lemma Complete_imp: "Complete b \<Longrightarrow> HasMetadata b \<and> Build_String b \<noteq> ''''"
  by (auto simp: Complete_def HasMetadata_def Build_String_def split: option.splits)

end
