(* ===== verification/GoURL.thy ===== *)
theory GoURL
  imports GoStrings
begin

text \<open>
  Go's \<open>net/url\<close>, as far as the program calls it: \<open>Parse\<close>, \<open>String\<close> and \<open>Hostname\<close>,
  with the escaping of paths, hosts, user names and fragments they are made of.
\<close>

section \<open>Escaping\<close>

datatype encoding = EncPath | EncUserPassword | EncHost | EncZone | EncFragment

definition is_letter :: "char \<Rightarrow> bool" where
  "is_letter c = (let k = (of_char c :: nat) in 97 \<le> k \<and> k \<le> 122 \<or> 65 \<le> k \<and> k \<le> 90)"

definition is_digit :: "char \<Rightarrow> bool" where
  "is_digit c = (let k = (of_char c :: nat) in 48 \<le> k \<and> k \<le> 57)"

fun shouldEscape :: "char \<Rightarrow> encoding \<Rightarrow> bool" where
  "shouldEscape c mode =
     (if is_letter c \<or> is_digit c then False
      else if (mode = EncHost \<or> mode = EncZone) \<and>
              c \<in> set (''!$&()*+,;=:[]<>'' @ [CHR 0x22, CHR 0x27]) then False
      else if c \<in> set ''-_.~'' then False
      else if c \<in> set ''$&+,/:;=?@'' then
        (case mode of
           EncPath \<Rightarrow> c = CHR ''?''
         | EncUserPassword \<Rightarrow> c \<in> set ''@/?:''
         | EncFragment \<Rightarrow> False
         | _ \<Rightarrow> True)
      else if mode = EncFragment \<and> c \<in> set ''!()*'' then False
      else True)"

definition upper_hex :: "nat \<Rightarrow> char" where
  "upper_hex n = (if n < 10 then char_of (48 + n) else char_of (55 + n))"

fun url_escape :: "string \<Rightarrow> encoding \<Rightarrow> string" where
  "url_escape [] mode = []"
| "url_escape (c # s) mode =
     (if shouldEscape c mode
      then CHR ''%'' # upper_hex (of_char c div 16) # upper_hex (of_char c mod 16) # url_escape s mode
      else c # url_escape s mode)"

definition unhex :: "char \<Rightarrow> nat option" where
  "unhex c =
     (let k = (of_char c :: nat) in
      if 48 \<le> k \<and> k \<le> 57 then Some (k - 48)
      else if 97 \<le> k \<and> k \<le> 102 then Some (k - 87)
      else if 65 \<le> k \<and> k \<le> 70 then Some (k - 55)
      else None)"

definition escape_error :: "string \<Rightarrow> go_error" where
  "escape_error s = ErrorString (''invalid URL escape '' @ s)"

definition host_error :: "string \<Rightarrow> go_error" where
  "host_error s = ErrorString (''invalid character '' @ s @ '' in host name'')"

fun url_unescape :: "string \<Rightarrow> encoding \<Rightarrow> go_error + string" where
  "url_unescape [] mode = Inr []"
| "url_unescape (c # s) mode =
     (if c = CHR ''%'' then
        (case s of
           a # b # t \<Rightarrow>
             (case (unhex a, unhex b) of
                (Some x, Some y) \<Rightarrow>
                  if mode = EncHost \<and> x < 8 \<and> [a, b] \<noteq> ''25'' then Inl (escape_error [c, a, b])
                  else if mode = EncZone \<and> [a, b] \<noteq> ''25'' \<and> char_of (16 * x + y) \<noteq> CHR '' '' \<and>
                     shouldEscape (char_of (16 * x + y)) EncHost
                  then Inl (escape_error [c, a, b])
                  else bindE (url_unescape t mode) (\<lambda>r. Inr (char_of (16 * x + y) # r))
              | _ \<Rightarrow> Inl (escape_error [c, a, b]))
         | _ \<Rightarrow> Inl (escape_error (c # s)))
      else if (mode = EncHost \<or> mode = EncZone) \<and> (of_char c :: nat) < 128 \<and> shouldEscape c mode
        then Inl (host_error [c])
      else bindE (url_unescape s mode) (\<lambda>r. Inr (c # r)))"

section \<open>URLs\<close>

record url =
  Scheme :: string
  Opaque :: string
  User :: "(string \<times> string option) option"
  Host :: string
  u_Path :: string
  RawPath :: string
  OmitHost :: bool
  ForceQuery :: bool
  RawQuery :: string
  Fragment :: string
  RawFragment :: string

definition empty_url :: url where
  "empty_url =
     \<lparr>Scheme = '''', Opaque = '''', User = None, Host = '''', u_Path = '''', RawPath = '''',
      OmitHost = False, ForceQuery = False, RawQuery = '''', Fragment = '''', RawFragment = ''''\<rparr>"

text \<open>\<open>strings.Cut\<close> at one character, and at its last occurrence.\<close>

definition cut :: "char \<Rightarrow> string \<Rightarrow> string \<times> string option" where
  "cut c s =
     (let a = takeWhile (\<lambda>x. x \<noteq> c) s; b = dropWhile (\<lambda>x. x \<noteq> c) s in
      (a, case b of [] \<Rightarrow> None | _ # t \<Rightarrow> Some t))"

definition cut_last :: "char \<Rightarrow> string \<Rightarrow> (string \<times> string) option" where
  "cut_last c s =
     (case cut c (rev s) of (b, None) \<Rightarrow> None | (b, Some a) \<Rightarrow> Some (rev a, rev b))"

text \<open>The scheme: \<open>Inr None\<close> when there is none.\<close>

fun scan_scheme :: "string \<Rightarrow> string \<Rightarrow> go_error + (string \<times> string) option" where
  "scan_scheme acc [] = Inr None"
| "scan_scheme acc (c # s) =
     (if is_letter c then scan_scheme (acc @ [c]) s
      else if is_digit c \<or> c \<in> set ''+-.'' then
        (if acc = [] then Inr None else scan_scheme (acc @ [c]) s)
      else if c = CHR '':'' then
        (if acc = [] then Inl (ErrorString ''missing protocol scheme'') else Inr (Some (acc, s)))
      else Inr None)"

definition to_lower :: "string \<Rightarrow> string" where
  "to_lower s =
     map (\<lambda>c. let k = (of_char c :: nat) in if 65 \<le> k \<and> k \<le> 90 then char_of (k + 32) else c) s"

definition validOptionalPort :: "string \<Rightarrow> bool" where
  "validOptionalPort port =
     (case port of [] \<Rightarrow> True | c # ds \<Rightarrow> c = CHR '':'' \<and> list_all is_digit ds)"

definition validUserinfo :: "string \<Rightarrow> bool" where
  "validUserinfo s =
     list_all (\<lambda>c. is_letter c \<or> is_digit c \<or> c \<in> set (''-._:~!$&()*+,;=%@'' @ [CHR 0x27])) s"

fun index_of :: "string \<Rightarrow> string \<Rightarrow> nat option" where
  "index_of s sub =
     (if has_prefix s sub then Some 0
      else case s of [] \<Rightarrow> None | _ # t \<Rightarrow> map_option Suc (index_of t sub))"

declare index_of.simps [simp del]

definition parseHost :: "string \<Rightarrow> go_error + string" where
  "parseHost host =
     (if has_prefix host ''['' then
        (case cut_last (CHR '']'') host of
           None \<Rightarrow> Inl (ErrorString ''missing ']' in host'')
         | Some (a, colonPort) \<Rightarrow>
             if \<not> validOptionalPort colonPort
             then Inl (ErrorString (''invalid port '' @ colonPort @ '' after host''))
             else
               (case index_of a ''%25'' of
                  Some zone \<Rightarrow>
                    bindE (url_unescape (take zone a) EncHost) (\<lambda>h1.
                    bindE (url_unescape (drop zone a) EncZone) (\<lambda>h2.
                    bindE (url_unescape ('']'' @ colonPort) EncHost) (\<lambda>h3.
                    Inr (h1 @ h2 @ h3))))
                | None \<Rightarrow> url_unescape host EncHost))
      else
        (case cut_last (CHR '':'') host of
           Some (a, p) \<Rightarrow>
             if \<not> validOptionalPort ('':'' @ p)
             then Inl (ErrorString (''invalid port :'' @ p @ '' after host''))
             else url_unescape host EncHost
         | None \<Rightarrow> url_unescape host EncHost))"

definition parseUser :: "string \<Rightarrow> go_error + (string \<times> string option)" where
  "parseUser userinfo =
     (if \<not> validUserinfo userinfo then Inl (ErrorString ''net/url: invalid userinfo'')
      else
        (case cut (CHR '':'') userinfo of
           (_, None) \<Rightarrow> bindE (url_unescape userinfo EncUserPassword) (\<lambda>n. Inr (n, None))
         | (name, Some pw) \<Rightarrow>
             bindE (url_unescape name EncUserPassword) (\<lambda>n.
             bindE (url_unescape pw EncUserPassword) (\<lambda>p. Inr (n, Some p)))))"

definition parseAuthority :: "string \<Rightarrow> go_error + ((string \<times> string option) option \<times> string)" where
  "parseAuthority authority =
     (case cut_last (CHR ''@'') authority of
        None \<Rightarrow> bindE (parseHost authority) (\<lambda>h. Inr (None, h))
      | Some (userinfo, hostpart) \<Rightarrow>
          bindE (parseHost hostpart) (\<lambda>h.
          bindE (parseUser userinfo) (\<lambda>u. Inr (Some u, h))))"

definition setPath :: "string \<Rightarrow> url \<Rightarrow> go_error + url" where
  "setPath p u =
     bindE (url_unescape p EncPath) (\<lambda>path.
     Inr (u\<lparr>u_Path := path, RawPath := (if p = url_escape path EncPath then [] else p)\<rparr>))"

definition setFragment :: "string \<Rightarrow> url \<Rightarrow> go_error + url" where
  "setFragment f u =
     bindE (url_unescape f EncFragment) (\<lambda>frag.
     Inr (u\<lparr>Fragment := frag, RawFragment := (if f = url_escape frag EncFragment then [] else f)\<rparr>))"

definition split_query :: "string \<Rightarrow> bool \<times> string \<times> string" where
  "split_query rest =
     (if has_suffix rest ''?'' \<and> length (filter (\<lambda>c. c = CHR ''?'') rest) = 1
      then (True, butlast rest, '''')
      else case cut (CHR ''?'') rest of
             (a, None) \<Rightarrow> (False, a, '''') | (a, Some q) \<Rightarrow> (False, a, q))"

definition parse_rest :: "url \<Rightarrow> string \<Rightarrow> go_error + url" where
  "parse_rest u rest =
     (if \<not> has_prefix rest ''/'' \<and> Scheme u \<noteq> '''' then Inr (u\<lparr>Opaque := rest\<rparr>)
      else if \<not> has_prefix rest ''/'' \<and> CHR '':'' \<in> set (fst (cut (CHR ''/'') rest))
        then Inl (ErrorString ''first path segment in URL cannot contain colon'')
      else if (Scheme u \<noteq> '''' \<or> \<not> has_prefix rest ''///'') \<and> has_prefix rest ''//'' then
        (let a = takeWhile (\<lambda>c. c \<noteq> CHR ''/'') (drop 2 rest);
             p = dropWhile (\<lambda>c. c \<noteq> CHR ''/'') (drop 2 rest) in
         bindE (parseAuthority a) (\<lambda>(usr, h). setPath p (u\<lparr>User := usr, Host := h\<rparr>)))
      else if Scheme u \<noteq> '''' \<and> has_prefix rest ''/'' then setPath rest (u\<lparr>OmitHost := True\<rparr>)
      else setPath rest u)"

definition contains_ctl :: "string \<Rightarrow> bool" where
  "contains_ctl s = list_ex (\<lambda>c. (of_char c :: nat) < 32 \<or> (of_char c :: nat) = 127) s"

definition parse_url :: "string \<Rightarrow> go_error + url" where
  "parse_url raw =
     (if contains_ctl raw then Inl (ErrorString ''net/url: invalid control character in URL'')
      else if raw = ''*'' then Inr (empty_url\<lparr>u_Path := ''*''\<rparr>)
      else
        bindE (scan_scheme [] raw) (\<lambda>sr.
        let (sch, rest0) = (case sr of None \<Rightarrow> ('''', raw) | Some (sc, r) \<Rightarrow> (to_lower sc, r));
            (fq, rest, q) = split_query rest0 in
        parse_rest (empty_url\<lparr>Scheme := sch, ForceQuery := fq, RawQuery := q\<rparr>) rest))"

definition url_Parse :: "string \<Rightarrow> go_error + url" where
  "url_Parse raw =
     mapErr (\<lambda>e. WrapError (''parse '' @ [CHR 0x22] @ raw @ [CHR 0x22] @ '': '' @ error_string e) e)
       (case cut (CHR ''#'') raw of
          (a, None) \<Rightarrow> parse_url a
        | (a, Some frag) \<Rightarrow>
            bindE (parse_url a) (\<lambda>u. if frag = '''' then Inr u else setFragment frag u))"

section \<open>Printing\<close>

definition validEncoded :: "string \<Rightarrow> encoding \<Rightarrow> bool" where
  "validEncoded s mode =
     list_all (\<lambda>c. c \<in> set (''!$&()*+,;=:@[]%'' @ [CHR 0x27]) \<or> \<not> shouldEscape c mode) s"

definition EscapedPath :: "url \<Rightarrow> string" where
  "EscapedPath u =
     (if RawPath u \<noteq> '''' \<and> validEncoded (RawPath u) EncPath \<and>
         url_unescape (RawPath u) EncPath = Inr (u_Path u)
      then RawPath u
      else if u_Path u = ''*'' then ''*''
      else url_escape (u_Path u) EncPath)"

definition EscapedFragment :: "url \<Rightarrow> string" where
  "EscapedFragment u =
     (if RawFragment u \<noteq> '''' \<and> validEncoded (RawFragment u) EncFragment \<and>
         url_unescape (RawFragment u) EncFragment = Inr (Fragment u)
      then RawFragment u
      else url_escape (Fragment u) EncFragment)"

definition userinfo_string :: "string \<times> string option \<Rightarrow> string" where
  "userinfo_string ui =
     url_escape (fst ui) EncUserPassword @
     (case snd ui of None \<Rightarrow> '''' | Some p \<Rightarrow> '':'' @ url_escape p EncUserPassword)"

definition authority_string :: "url \<Rightarrow> string" where
  "authority_string u =
     (if Scheme u \<noteq> '''' \<or> Host u \<noteq> '''' \<or> User u \<noteq> None then
        (if OmitHost u \<and> Host u = '''' \<and> User u = None then ''''
         else (if Host u \<noteq> '''' \<or> u_Path u \<noteq> '''' \<or> User u \<noteq> None then ''//'' else '''') @
              (case User u of None \<Rightarrow> '''' | Some ui \<Rightarrow> userinfo_string ui @ ''@'') @
              url_escape (Host u) EncHost)
      else '''')"

definition url_front :: "url \<Rightarrow> string" where
  "url_front u =
     (if Scheme u = '''' then '''' else Scheme u @ '':'') @ authority_string u"

definition url_String :: "url \<Rightarrow> string" where
  "url_String u =
     (if Opaque u \<noteq> '''' then (if Scheme u = '''' then '''' else Scheme u @ '':'') @ Opaque u
      else
        (let front = url_front u; path = EscapedPath u;
             front' = front @ (if path \<noteq> '''' \<and> hd path \<noteq> CHR ''/'' \<and> Host u \<noteq> '''' then ''/'' else '''') in
         front' @
         (if front' = '''' \<and> CHR '':'' \<in> set (fst (cut (CHR ''/'') path)) then ''./'' else '''') @
         path)) @
     (if ForceQuery u \<or> RawQuery u \<noteq> '''' then ''?'' @ RawQuery u else '''') @
     (if Fragment u \<noteq> '''' then ''#'' @ EscapedFragment u else '''')"

definition Hostname :: "url \<Rightarrow> string" where
  "Hostname u =
     (let h = (case cut_last (CHR '':'') (Host u) of
                 Some (a, p) \<Rightarrow> if validOptionalPort ('':'' @ p) then a else Host u
               | None \<Rightarrow> Host u) in
      if has_prefix h ''['' \<and> has_suffix h '']'' then butlast (tl h) else h)"

section \<open>Escaping and unescaping\<close>

lemma unhex_upper: "n < 16 \<Longrightarrow> unhex (upper_hex n) = Some n"
  by (auto simp: unhex_def upper_hex_def Let_def)

lemma url_unescape_escape: "url_unescape (url_escape s EncPath) EncPath = Inr s"
proof (induction s)
  case (Cons c s)
  have "\<not> shouldEscape (CHR ''%'') EncPath \<Longrightarrow> False"
    by (simp add: is_letter_def is_digit_def)
  moreover have "(of_char c :: nat) div 16 < 16" "(of_char c :: nat) mod 16 < 16"
    using of_char_div_mod_16 by auto
  ultimately show ?case using Cons
    by (cases "shouldEscape c EncPath") (auto simp: unhex_upper simp del: shouldEscape.simps)
qed simp

lemma url_escape_append: "url_escape (s @ t) mode = url_escape s mode @ url_escape t mode"
  by (induction s) (auto simp del: shouldEscape.simps)

lemma url_escape_slash: "url_escape ''/'' EncPath = ''/''"
  by (simp add: is_letter_def is_digit_def)

end
