(* ===== verification/Repository.thy ===== *)
theory Repository
  imports GoURL GoPath
begin

text \<open>
  What the chart repositories share (\<open>internal/helm/repository/utils.go\<close>,
  \<open>repository.go\<close>, \<open>errors.go\<close>): normalised repository URLs, the check of a
  dependency's URL, the data of an index, and the parameters that stand for other packages.
\<close>

section \<open>URLs\<close>

definition OCIScheme :: string where
  "OCIScheme = ''oci''"

definition NormalizeURL :: "string \<Rightarrow> go_error + string" where
  "NormalizeURL repositoryURL =
     (if repositoryURL = '''' then Inr ''''
      else
        bindE (url_Parse repositoryURL) (\<lambda>u.
        if Scheme u = OCIScheme
        then Inr (url_String (u\<lparr>u_Path := trim_right_char (u_Path u) (CHR ''/'')\<rparr>))
        else Inr (url_String (u\<lparr>u_Path := trim_right_char (u_Path u) (CHR ''/'') @ ''/''\<rparr>))))"

definition dep_alias :: string where
  "dep_alias = ''@''"

definition errInvalidDepURL :: go_error where
  "errInvalidDepURL = Sentinel ''invalid dependency repository URL''"

definition errInvalidAliasedDep :: go_error where
  "errInvalidAliasedDep = Sentinel ''aliased repository dependency is not supported''"

definition ValidateDepURL :: "string \<Rightarrow> go_error option" where
  "ValidateDepURL repositoryURL =
     (if has_prefix repositoryURL OCIScheme then None
      else if has_prefix repositoryURL ''https://'' \<or> has_prefix repositoryURL ''http://'' then None
      else if has_prefix repositoryURL dep_alias
        then Some (WrapError (error_string errInvalidAliasedDep @ '': '' @ repositoryURL) errInvalidAliasedDep)
      else Some (WrapError (error_string errInvalidDepURL @ '': '' @ repositoryURL) errInvalidDepURL))"

section \<open>Index data\<close>

text \<open>The fields of a chart's metadata and of an index entry that the program reads.\<close>

record dependency =
  dep_Name :: string
  dep_Version :: string
  dep_Repository :: string
  dep_Alias :: string

record metadata =
  md_Name :: string
  md_Version :: string
  md_APIVersion :: string
  md_Dependencies :: "dependency list"

record chart_version =
  cv_Metadata :: metadata
  cv_URLs :: "string list"
  cv_Created :: int

text \<open>As decoded from YAML an entry may be nil, and its metadata may be nil.\<close>

record raw_chart_version =
  rcv_Metadata :: "metadata option"
  rcv_URLs :: "string list"
  rcv_Created :: int

record raw_index =
  raw_APIVersion :: string
  raw_Entries :: "(string \<times> raw_chart_version option list) list"

record index_file =
  idx_APIVersion :: string
  Entries :: "(string \<times> chart_version list) list"

section \<open>Parameters\<close>

text \<open>
  Semantic versions are those of \<open>Masterminds/semver\<close>, an external package:
  \<open>'v\<close> are its versions, \<open>'c\<close> its constraints. \<open>ParseVersion\<close> is the parser of
  \<open>fluxcd/pkg/version\<close>.
\<close>

record ('v, 'c) semver =
  ParseVersion :: "string \<Rightarrow> go_error + 'v"
  NewVersion :: "string \<Rightarrow> go_error + 'v"
  NewConstraint :: "string \<Rightarrow> go_error + 'c"
  sv_Check :: "'c \<Rightarrow> 'v \<Rightarrow> bool"
  sv_LessThan :: "'v \<Rightarrow> 'v \<Rightarrow> bool"
  sv_Equal :: "'v \<Rightarrow> 'v \<Rightarrow> bool"
  Original :: "'v \<Rightarrow> string"
  SetMetadata :: "'v \<Rightarrow> string \<Rightarrow> go_error + 'v"
  sv_String :: "'v \<Rightarrow> string"

text \<open>
  The precedence of versions, as its documentation has it: a strict order on the classes of
  equal versions, in which two versions always compare.
\<close>

definition semver_order :: "('v, 'c) semver \<Rightarrow> bool" where
  "semver_order sv \<longleftrightarrow>
     (\<forall>a b. sv_Equal sv a b \<longleftrightarrow> \<not> sv_LessThan sv a b \<and> \<not> sv_LessThan sv b a) \<and>
     (\<forall>a b. sv_LessThan sv a b \<longrightarrow> \<not> sv_LessThan sv b a) \<and>
     (\<forall>a b c. sv_LessThan sv a b \<longrightarrow> sv_LessThan sv b c \<longrightarrow> sv_LessThan sv a c) \<and>
     (\<forall>a b c. sv_Equal sv a b \<longrightarrow> sv_Equal sv b c \<longrightarrow> sv_Equal sv a c)"

text \<open>
  A small instance for examples: versions and constraints are numbers, written with decimal
  digits; a constraint is an exact number, or a star for any.
\<close>

definition dec_value :: "string \<Rightarrow> nat option" where
  "dec_value s =
     (if s \<noteq> [] \<and> list_all is_digit s
      then Some (foldl (\<lambda>n c. 10 * n + (of_char c - 48)) 0 s) else None)"

definition num_semver :: "(nat, nat option) semver" where
  "num_semver =
     \<lparr>ParseVersion = (\<lambda>s. case dec_value s of None \<Rightarrow> Inl (ErrorString ''Invalid Semantic Version'') | Some n \<Rightarrow> Inr n),
      NewVersion = (\<lambda>s. case dec_value s of None \<Rightarrow> Inl (ErrorString ''Invalid Semantic Version'') | Some n \<Rightarrow> Inr n),
      NewConstraint = (\<lambda>s. if s = ''*'' then Inr None
        else case dec_value s of None \<Rightarrow> Inl (ErrorString ''improper constraint'') | Some n \<Rightarrow> Inr (Some n)),
      sv_Check = (\<lambda>c v. c = None \<or> c = Some v),
      sv_LessThan = (<), sv_Equal = (=), Original = dec_of_nat,
      SetMetadata = (\<lambda>v m. Inr v), sv_String = dec_of_nat\<rparr>"

lemma num_semver_order [simp]: "semver_order num_semver"
  by (auto simp: semver_order_def num_semver_def)

section \<open>What normalising does\<close>

lemma trim_right_char_replicate: "trim_right_char (s @ ''/'') (CHR ''/'') = trim_right_char s (CHR ''/'')"
  by (rule trim_right_char_snoc)

text \<open>
  A URL of the usual form: a scheme of the three in use, an authority, and a path that needs no
  escaping.
\<close>

definition repo_schemes :: "string set" where
  "repo_schemes = {''https'', ''http'', ''oci''}"

definition usual_url :: "string \<Rightarrow> string \<Rightarrow> string \<Rightarrow> bool" where
  "usual_url sch a p \<longleftrightarrow>
     sch \<in> repo_schemes \<and> set a \<inter> set ''/?#'' = {} \<and> (p = '''' \<or> hd p = CHR ''/'') \<and>
     set p \<inter> set ''?#'' = {} \<and> url_escape p EncPath = p \<and> \<not> contains_ctl a \<and> \<not> contains_ctl p"

lemma cut_none: "c \<notin> set s \<Longrightarrow> cut c s = (s, None)"
  by (induction s) (auto simp: cut_def Let_def)

lemma takeWhile_neq: "c \<notin> set a \<Longrightarrow> takeWhile (\<lambda>x. x \<noteq> c) (a @ p) = a @ takeWhile (\<lambda>x. x \<noteq> c) p"
  by (induction a) auto

lemma dropWhile_neq: "c \<notin> set a \<Longrightarrow> dropWhile (\<lambda>x. x \<noteq> c) (a @ p) = dropWhile (\<lambda>x. x \<noteq> c) p"
  by (induction a) auto

lemma has_suffix_last: "c \<notin> set s \<Longrightarrow> \<not> has_suffix s [c]"
  by (auto simp: has_suffix_iff)

lemma split_query_none: "CHR ''?'' \<notin> set s \<Longrightarrow> split_query s = (False, s, '''')"
  by (simp add: split_query_def has_suffix_last cut_none)

lemma scan_repo_scheme:
  "sch \<in> repo_schemes \<Longrightarrow> scan_scheme [] (sch @ CHR '':'' # rest) = Inr (Some (sch, rest)) \<and> to_lower sch = sch"
  by (auto simp: repo_schemes_def is_letter_def is_digit_def to_lower_def Let_def)

lemma repo_scheme_chars:
  "sch \<in> repo_schemes \<Longrightarrow> sch \<noteq> [] \<and> set sch \<inter> set ''/?#*'' = {} \<and> \<not> contains_ctl sch"
  by (auto simp: repo_schemes_def contains_ctl_def)

lemma setPath_plain:
  "url_escape p EncPath = p \<Longrightarrow> setPath p u = Inr (u\<lparr>u_Path := p, RawPath := ''''\<rparr>)"
  using url_unescape_escape[of p] by (simp add: setPath_def)

lemma parse_rest_usual:
  assumes "Scheme u \<noteq> ''''" and "CHR ''/'' \<notin> set a" and "p = '''' \<or> hd p = CHR ''/''"
    and "url_escape p EncPath = p"
  shows "parse_rest u (''//'' @ a @ p) =
    bindE (parseAuthority a) (\<lambda>(usr, h). Inr (u\<lparr>User := usr, Host := h, u_Path := p, RawPath := ''''\<rparr>))"
proof -
  have tp: "takeWhile (\<lambda>c. c \<noteq> CHR ''/'') p = []" "dropWhile (\<lambda>c. c \<noteq> CHR ''/'') p = p"
    using assms(3) by (cases p; simp)+
  have t: "takeWhile (\<lambda>c. c \<noteq> CHR ''/'') (a @ p) = a" "dropWhile (\<lambda>c. c \<noteq> CHR ''/'') (a @ p) = p"
    by (simp_all only: takeWhile_neq[OF assms(2)] dropWhile_neq[OF assms(2)] tp append_Nil2)
  show ?thesis
    using assms(1) by (simp add: parse_rest_def t setPath_plain[OF assms(4)] Let_def)
qed

lemma url_Parse_usual:
  assumes "usual_url sch a p"
  shows "\<exists>h. url_Parse (sch @ ''://'' @ a @ p) = mapErr h
    (bindE (parseAuthority a) (\<lambda>(usr, h).
      Inr (empty_url\<lparr>Scheme := sch, User := usr, Host := h, u_Path := p\<rparr>)))"
proof -
  let ?s = "sch @ ''://'' @ a @ p"
  have sch: "sch \<in> repo_schemes" and ch: "sch \<noteq> []" "set sch \<inter> set ''/?#*'' = {}" "\<not> contains_ctl sch"
    using assms repo_scheme_chars[of sch] by (auto simp: usual_url_def)
  have hash: "CHR ''#'' \<notin> set ?s" using assms ch by (auto simp: usual_url_def)
  have q: "CHR ''?'' \<notin> set (''//'' @ a @ p)" using assms by (auto simp: usual_url_def)
  have ctl: "\<not> contains_ctl ?s" using assms ch by (auto simp: usual_url_def contains_ctl_def)
  have star: "?s \<noteq> ''*''" using ch by (cases sch) auto
  have pu: "parse_url ?s = bindE (parseAuthority a) (\<lambda>(usr, h).
      Inr (empty_url\<lparr>Scheme := sch, User := usr, Host := h, u_Path := p\<rparr>))"
  proof -
    have sc: "scan_scheme [] ?s = Inr (Some (sch, ''//'' @ a @ p))" and lo: "to_lower sch = sch"
      using scan_repo_scheme[OF sch] by simp_all
    have "parse_url ?s = parse_rest (empty_url\<lparr>Scheme := sch, ForceQuery := False, RawQuery := ''''\<rparr>) (''//'' @ a @ p)"
      unfolding parse_url_def sc using ctl star by (simp add: lo split_query_none[OF q, simplified])
    also have "\<dots> = bindE (parseAuthority a) (\<lambda>(usr, h).
        Inr (empty_url\<lparr>Scheme := sch, User := usr, Host := h, u_Path := p\<rparr>))"
      using assms ch by (subst parse_rest_usual) (auto simp: usual_url_def empty_url_def)
    finally show ?thesis .
  qed
  show ?thesis
    unfolding url_Parse_def cut_none[OF hash] by (auto simp only: pu prod.case option.case)
qed

text \<open>
  Normalising ignores how many slashes a repository's URL ends with: for a URL of the usual
  form the result is the same with one slash more. So the caches, whose keys are normalised
  URLs, do not tell the two apart.
\<close>

theorem normalize_ignores_last_slash:
  assumes "usual_url sch a p" and "NormalizeURL (sch @ ''://'' @ a @ p) = Inr t"
  shows "NormalizeURL (sch @ ''://'' @ a @ p @ ''/'') = Inr t"
proof -
  have us: "usual_url sch a (p @ ''/'')"
    using assms(1) by (cases p) (auto simp: usual_url_def url_escape_append url_escape_slash contains_ctl_def)
  obtain h where h: "url_Parse (sch @ ''://'' @ a @ p) = mapErr h
      (bindE (parseAuthority a) (\<lambda>(usr, h). Inr (empty_url\<lparr>Scheme := sch, User := usr, Host := h, u_Path := p\<rparr>)))"
    using url_Parse_usual[OF assms(1)] by blast
  obtain h' where h': "url_Parse (sch @ ''://'' @ a @ p @ ''/'') = mapErr h'
      (bindE (parseAuthority a) (\<lambda>(usr, h). Inr (empty_url\<lparr>Scheme := sch, User := usr, Host := h, u_Path := p @ ''/''\<rparr>)))"
    using url_Parse_usual[OF us] by auto
  show ?thesis
  proof (cases "parseAuthority a")
    case (Inl e)
    with h assms(2) show ?thesis by (simp add: NormalizeURL_def)
  next
    case (Inr x)
    obtain usr hst where x: "x = (usr, hst)" by fastforce
    have 1: "url_Parse (sch @ ''://'' @ a @ p) =
        Inr (empty_url\<lparr>Scheme := sch, User := usr, Host := hst, u_Path := p\<rparr>)"
      unfolding h Inr x by simp
    have 2: "url_Parse (sch @ ''://'' @ a @ p @ ''/'') =
        Inr (empty_url\<lparr>Scheme := sch, User := usr, Host := hst, u_Path := p @ ''/''\<rparr>)"
      unfolding h' Inr x by simp
    from assms(2) show ?thesis
      unfolding NormalizeURL_def 1 2 by (simp add: trim_right_char_replicate split: if_splits)
  qed
qed

theorem normalize_ignores_last_slash_witness:
  "NormalizeURL (''https'' @ ''://'' @ ''charts.example.org'' @ ''/stable'' @ ''/'') =
   Inr ''https://charts.example.org/stable/''"
proof (rule normalize_ignores_last_slash)
  show "usual_url ''https'' ''charts.example.org'' ''/stable''"
    by (simp add: usual_url_def repo_schemes_def is_letter_def is_digit_def contains_ctl_def)
  show "NormalizeURL (''https'' @ ''://'' @ ''charts.example.org'' @ ''/stable'') =
      Inr ''https://charts.example.org/stable/''"
    by code_simp
qed

text \<open>
  The raw path of the parsed URL is not normalised with the path. For a path with an
  escaped slash the two no longer agree, the raw form is dropped, and the printed URL has
  another path: \<open>a/b\<close> instead of \<open>a%2Fb\<close>, unless the URL ended with a slash already.
\<close>

theorem normalize_drops_escapes:
  "NormalizeURL ''https://h/a%2Fb'' = Inr ''https://h/a/b/'' \<and>
   NormalizeURL ''https://h/a%2Fb/'' = Inr ''https://h/a%2Fb/'' \<and>
   NormalizeURL ''https://h/a%2F'' = Inr ''https://h/a%2F''"
  by (intro conjI) code_simp+

lemma ValidateDepURL_iff:
  "ValidateDepURL u = None \<longleftrightarrow>
   has_prefix u ''oci'' \<or> has_prefix u ''https://'' \<or> has_prefix u ''http://''"
  by (auto simp: ValidateDepURL_def OCIScheme_def)

lemma ValidateDepURL_error:
  "ValidateDepURL u = Some e \<Longrightarrow> errors_is e errInvalidAliasedDep \<or> errors_is e errInvalidDepURL"
  by (auto simp: ValidateDepURL_def split: if_splits)

end
