(* ===== verification/GoOS.thy ===== *)
theory GoOS
  imports GoPath "HOL-Library.List_Lexorder" "HOL-Library.Char_ord"
begin

text \<open>
  The operating system as the program sees it through package \<open>os\<close>: a file system, a clock
  that counts the calls, and the outcomes the program cannot foresee. Every call may fail:
  \<open>fault\<close> says at which tick and how, so a theorem about a run holds for every schedule of
  failures. A failing write may have written a part of its data (\<open>short\<close>). Names of temporary
  files come from \<open>rand\<close>. The file system maps clean paths to nodes; \<open>device\<close> tells file
  systems apart, since a rename does not cross them. \<open>entries\<close> lists the names in a directory;
  it is a field because a function on paths cannot be enumerated. File modes and times are not
  modelled. Of the process's own shared state the world holds the pool of idle transports
  (\<open>idle\<close>) and the choices of that pool (\<open>pick\<close>).
\<close>

datatype node = File string | Directory | Symlink string | Special string

text \<open>A TLS configuration, and a transport of \<open>net/http\<close> with the one field that matters.\<close>

record tls_config =
  Certificates :: "string list"
  RootCAs :: "string option"
  ServerName :: string

datatype transport = Transport (TLSClientConfig: "tls_config option")

record world =
  nodes :: "string \<Rightarrow> node option"
  clock :: nat
  fault :: "nat \<Rightarrow> go_error option"
  short :: "nat \<Rightarrow> nat"
  rand :: "nat \<Rightarrow> string"
  device :: "string \<Rightarrow> nat"
  tempdir :: string
  entries :: "(string \<Rightarrow> node option) \<Rightarrow> string \<Rightarrow> string list"
  idle :: "transport list"
  pick :: "nat \<Rightarrow> nat"

type_synonym 'a io = "world \<Rightarrow> (go_error + 'a) \<times> world"

section \<open>Sequencing\<close>

definition io_return :: "'a \<Rightarrow> 'a io" where
  "io_return x w = (Inr x, w)"

definition io_fail :: "go_error \<Rightarrow> 'a io" where
  "io_fail e w = (Inl e, w)"

definition io_lift :: "go_error + 'a \<Rightarrow> 'a io" where
  "io_lift r w = (r, w)"

text \<open>\<open>io_try m k\<close> hands the outcome of \<open>m\<close>, good or bad, to \<open>k\<close>.\<close>

definition io_try :: "'a io \<Rightarrow> (go_error + 'a \<Rightarrow> 'b io) \<Rightarrow> 'b io" where
  "io_try m k w = (case m w of (r, w') \<Rightarrow> k r w')"

definition io_bind :: "'a io \<Rightarrow> ('a \<Rightarrow> 'b io) \<Rightarrow> 'b io" where
  "io_bind m k w = (case m w of (Inl e, w') \<Rightarrow> (Inl e, w') | (Inr x, w') \<Rightarrow> k x w')"

definition io_err :: "(go_error \<Rightarrow> go_error) \<Rightarrow> 'a io \<Rightarrow> 'a io" where
  "io_err h m w = (case m w of (r, w') \<Rightarrow> (mapErr h r, w'))"

text \<open>A deferred call whose own result is dropped.\<close>

definition io_defer :: "'a io \<Rightarrow> 'b io \<Rightarrow> 'a io" where
  "io_defer m c w = (case m w of (r, w') \<Rightarrow> (r, snd (c w')))"

text \<open>A call whose result is dropped (\<open>_ = f()\<close>).\<close>

definition io_drop :: "'a io \<Rightarrow> unit io" where
  "io_drop m w = (Inr (), snd (m w))"

lemmas io_defs = io_return_def io_fail_def io_lift_def io_try_def io_bind_def io_err_def
  io_defer_def io_drop_def

section \<open>System errors\<close>

definition ENOTDIR :: go_error where "ENOTDIR = Sentinel ''not a directory''"
definition EEXIST :: go_error where "EEXIST = Sentinel ''file exists''"
definition EISDIR :: go_error where "EISDIR = Sentinel ''is a directory''"
definition ENOTEMPTY :: go_error where "ENOTEMPTY = Sentinel ''directory not empty''"
definition EXDEV :: go_error where "EXDEV = Sentinel ''invalid cross-device link''"
definition ELOOP :: go_error where "ELOOP = Sentinel ''too many levels of symbolic links''"
definition EINVAL :: go_error where "EINVAL = Sentinel ''invalid argument''"

lemmas errno_defs = ErrNotExist_def ENOTDIR_def EEXIST_def EISDIR_def ENOTEMPTY_def EXDEV_def
  ELOOP_def EINVAL_def

text \<open>
  \<open>os.IsNotExist\<close> looks below a path or link error, but not below a wrapped error
  (\<open>errors.Is\<close> does).
\<close>

definition os_is_not_exist :: "go_error \<Rightarrow> bool" where
  "os_is_not_exist e =
     (case e of
        PathError op p e' \<Rightarrow> e' = ErrNotExist
      | LinkError op p q e' \<Rightarrow> e' = ErrNotExist
      | _ \<Rightarrow> e = ErrNotExist)"

section \<open>Paths and links\<close>

definition path_dir :: "string \<Rightarrow> string" where
  "path_dir s = path_clean (rev (dropWhile (\<lambda>c. c \<noteq> slash) (rev s)))"

text \<open>The path a chain of links ends at; the kernel follows at most 40.\<close>

fun follow :: "nat \<Rightarrow> (string \<Rightarrow> node option) \<Rightarrow> string \<Rightarrow> go_error + string" where
  "follow 0 fs p = Inl ELOOP"
| "follow (Suc n) fs p =
     (case fs p of
        Some (Symlink t) \<Rightarrow>
          follow n fs (path_clean (if is_abs t then t else path_join [path_dir p, t]))
      | _ \<Rightarrow> Inr p)"

definition resolve :: "world \<Rightarrow> string \<Rightarrow> go_error + string" where
  "resolve w p = follow 41 (nodes w) (path_clean p)"

definition stat_node :: "world \<Rightarrow> string \<Rightarrow> go_error + node" where
  "stat_node w p = bindE (resolve w p) (\<lambda>q.
     case nodes w q of None \<Rightarrow> Inl ErrNotExist | Some nd \<Rightarrow> Inr nd)"

definition lstat_node :: "world \<Rightarrow> string \<Rightarrow> go_error + node" where
  "lstat_node w p =
     (case nodes w (path_clean p) of None \<Rightarrow> Inl ErrNotExist | Some nd \<Rightarrow> Inr nd)"

definition parent_ok :: "world \<Rightarrow> string \<Rightarrow> go_error option" where
  "parent_ok w p =
     (case stat_node w (path_dir p) of
        Inl e \<Rightarrow> Some e
      | Inr nd \<Rightarrow> if nd = Directory then None else Some ENOTDIR)"

fun node_is_dir :: "node \<Rightarrow> bool" where
  "node_is_dir Directory = True"
| "node_is_dir _ = False"

fun node_is_regular :: "node \<Rightarrow> bool" where
  "node_is_regular (File b) = True"
| "node_is_regular _ = False"

lemma node_is_regular_iff: "node_is_regular nd \<longleftrightarrow> (\<exists>b. nd = File b)"
  by (cases nd) auto

fun node_size :: "node \<Rightarrow> nat" where
  "node_size (File b) = length b"
| "node_size _ = 0"

section \<open>System calls\<close>

text \<open>One tick of the clock, the fault of that tick if there is one, else the call itself.\<close>

definition syscall :: "(go_error \<Rightarrow> go_error) \<Rightarrow> 'a io \<Rightarrow> 'a io" where
  "syscall wr f w =
     (let w' = w\<lparr>clock := Suc (clock w)\<rparr> in
      case fault w (clock w) of
        Some e \<Rightarrow> (Inl (wr e), w')
      | None \<Rightarrow> (case f w' of (r, w'') \<Rightarrow> (mapErr wr r, w'')))"

definition set_node :: "string \<Rightarrow> node option \<Rightarrow> unit io" where
  "set_node p nd w = (Inr (), w\<lparr>nodes := (nodes w)(p := nd)\<rparr>)"

definition os_stat :: "string \<Rightarrow> node io" where
  "os_stat p = syscall (PathError ''stat'' p) (\<lambda>w. (stat_node w p, w))"

definition os_lstat :: "string \<Rightarrow> node io" where
  "os_lstat p = syscall (PathError ''lstat'' p) (\<lambda>w. (lstat_node w p, w))"

text \<open>Opening gives the path of the open file, which later reads and writes go to.\<close>

definition os_open :: "string \<Rightarrow> string io" where
  "os_open p = syscall (PathError ''open'' p) (\<lambda>w.
     (bindE (resolve w p) (\<lambda>q. case nodes w q of None \<Rightarrow> Inl ErrNotExist | Some _ \<Rightarrow> Inr q), w))"

definition os_read :: "string \<Rightarrow> string io" where
  "os_read q = syscall (PathError ''read'' q) (\<lambda>w.
     (case nodes w q of
        Some (File b) \<Rightarrow> Inr b
      | Some (Special b) \<Rightarrow> Inr b
      | Some Directory \<Rightarrow> Inl EISDIR
      | _ \<Rightarrow> Inl ErrNotExist, w))"

definition os_ReadFile :: "string \<Rightarrow> string io" where
  "os_ReadFile p = io_bind (os_open p) os_read"

definition os_create :: "string \<Rightarrow> string io" where
  "os_create p = syscall (PathError ''open'' p) (\<lambda>w.
     case resolve w p of
       Inl e \<Rightarrow> (Inl e, w)
     | Inr q \<Rightarrow>
         (case nodes w q of
            Some Directory \<Rightarrow> (Inl EISDIR, w)
          | Some (Special b) \<Rightarrow> (Inr q, w)
          | _ \<Rightarrow>
              (case parent_ok w q of
                 Some e \<Rightarrow> (Inl e, w)
               | None \<Rightarrow> (Inr q, w\<lparr>nodes := (nodes w)(q := Some (File []))\<rparr>))))"

definition append_data :: "string \<Rightarrow> string \<Rightarrow> world \<Rightarrow> world" where
  "append_data q b w =
     (case nodes w q of
        Some (File old) \<Rightarrow> w\<lparr>nodes := (nodes w)(q := Some (File (old @ b)))\<rparr>
      | _ \<Rightarrow> w)"

definition os_write :: "string \<Rightarrow> string \<Rightarrow> unit io" where
  "os_write q b w =
     (let t = clock w; w' = w\<lparr>clock := Suc t\<rparr> in
      case fault w t of
        Some e \<Rightarrow> (Inl (PathError ''write'' q e), append_data q (take (short w t) b) w')
      | None \<Rightarrow> (Inr (), append_data q b w'))"

definition os_close :: "string \<Rightarrow> unit io" where
  "os_close q = syscall (PathError ''close'' q) (\<lambda>w. (Inr (), w))"

definition os_WriteFile :: "string \<Rightarrow> string \<Rightarrow> unit io" where
  "os_WriteFile p b =
     io_bind (os_create p) (\<lambda>q.
     io_try (os_write q b) (\<lambda>r.
     io_try (os_close q) (\<lambda>r'.
     io_lift (case r of Inl e \<Rightarrow> Inl e | Inr _ \<Rightarrow> r'))))"

definition below :: "string \<Rightarrow> string \<Rightarrow> bool" where
  "below p q = has_prefix q ((if p = ''/'' then [] else p) @ [slash])"

text \<open>The listing of a directory names every node in it, once.\<close>

definition entries_ok :: "world \<Rightarrow> bool" where
  "entries_ok w \<longleftrightarrow>
     (\<forall>p. distinct (entries w (nodes w) p) \<and>
        set (entries w (nodes w) p) = {n. plain_elem n \<and> nodes w (path_join [p, n]) \<noteq> None})"

text \<open>Of a file system with known paths the listing can be computed.\<close>

definition listing :: "string list \<Rightarrow> (string \<Rightarrow> node option) \<Rightarrow> string \<Rightarrow> string list" where
  "listing ps fs p =
     filter (\<lambda>n. plain_elem n \<and> fs (path_join [p, n]) \<noteq> None) (remdups (concat (map path_elems ps)))"

lemma entries_ok_listing:
  assumes "entries w = listing ps" and "dom (nodes w) \<subseteq> set ps"
  shows "entries_ok w"
proof -
  have "\<exists>q\<in>set ps. n \<in> set (path_elems q)" if "plain_elem n" "nodes w (path_join [p, n]) = Some nd" for p n nd
    using that assms(2) path_join_elem(1)[OF that(1), of p] by (intro bexI[of _ "path_join [p, n]"]) auto
  then show ?thesis by (auto simp: entries_ok_def assms(1) listing_def)
qed

text \<open>Names in lexical order, each with whether it is a directory (a link is not).\<close>

definition os_ReadDir :: "string \<Rightarrow> (string \<times> bool) list io" where
  "os_ReadDir p = syscall (PathError ''open'' p) (\<lambda>w.
     (bindE (resolve w p) (\<lambda>q.
        case nodes w q of
          None \<Rightarrow> Inl ErrNotExist
        | Some Directory \<Rightarrow> Inr (map (\<lambda>n. (n, nodes w (path_join [q, n]) = Some Directory)) (sort (entries w (nodes w) q)))
        | Some _ \<Rightarrow> Inl ENOTDIR), w))"

definition os_Remove :: "string \<Rightarrow> unit io" where
  "os_Remove p = syscall (PathError ''remove'' p) (\<lambda>w.
     let q = path_clean p in
     case nodes w q of
       None \<Rightarrow> (Inl ErrNotExist, w)
     | Some nd \<Rightarrow>
         if nd = Directory \<and> entries w (nodes w) q \<noteq> [] then (Inl ENOTEMPTY, w)
         else (Inr (), w\<lparr>nodes := (nodes w)(q := None)\<rparr>))"

definition os_RemoveAll :: "string \<Rightarrow> unit io" where
  "os_RemoveAll p = syscall (PathError ''unlinkat'' p) (\<lambda>w.
     let q = path_clean p in
     (Inr (), w\<lparr>nodes := (\<lambda>x. if x = q \<or> below q x then None else nodes w x)\<rparr>))"

definition os_Symlink :: "string \<Rightarrow> string \<Rightarrow> unit io" where
  "os_Symlink old new = syscall (LinkError ''symlink'' old new) (\<lambda>w.
     let q = path_clean new in
     case parent_ok w q of
       Some e \<Rightarrow> (Inl e, w)
     | None \<Rightarrow>
         if nodes w q \<noteq> None then (Inl EEXIST, w)
         else (Inr (), w\<lparr>nodes := (nodes w)(q := Some (Symlink old))\<rparr>))"

definition os_Readlink :: "string \<Rightarrow> string io" where
  "os_Readlink p = syscall (PathError ''readlink'' p) (\<lambda>w.
     (case nodes w (path_clean p) of
        None \<Rightarrow> Inl ErrNotExist
      | Some (Symlink t) \<Rightarrow> Inr t
      | Some _ \<Rightarrow> Inl EINVAL, w))"

definition os_Chmod :: "string \<Rightarrow> unit io" where
  "os_Chmod p = syscall (PathError ''chmod'' p) (\<lambda>w.
     (bindE (stat_node w p) (\<lambda>_. Inr ()), w))"

text \<open>
  A rename moves the node (and, of a directory, the tree below it); the target may be a file,
  which is replaced, or an empty directory when a directory is moved.
\<close>

definition move_tree :: "(string \<Rightarrow> node option) \<Rightarrow> string \<Rightarrow> string \<Rightarrow> string \<Rightarrow> node option" where
  "move_tree fs p q x =
     (if x = q then fs p
      else if below q x then fs (p @ drop (length q) x)
      else if x = p \<or> below p x then None
      else fs x)"

definition rename_error :: "world \<Rightarrow> string \<Rightarrow> string \<Rightarrow> go_error option" where
  "rename_error w p q =
     (case nodes w p of
        None \<Rightarrow> Some ErrNotExist
      | Some nd \<Rightarrow>
          (case parent_ok w q of
             Some e \<Rightarrow> Some e
           | None \<Rightarrow>
               if device w p \<noteq> device w q then Some EXDEV
               else if below p q then Some EINVAL
               else (case nodes w q of
                       None \<Rightarrow> None
                     | Some nd' \<Rightarrow>
                         if nd' = Directory \<and> nd \<noteq> Directory then Some EEXIST
                         else if nd = Directory \<and> nd' \<noteq> Directory then Some ENOTDIR
                         else if nd' = Directory \<and> entries w (nodes w) q \<noteq> [] then Some ENOTEMPTY
                         else None)))"

definition os_Rename :: "string \<Rightarrow> string \<Rightarrow> unit io" where
  "os_Rename old new = syscall (LinkError ''rename'' old new) (\<lambda>w.
     let p = path_clean old; q = path_clean new in
     case rename_error w p q of
       Some e \<Rightarrow> (Inl e, w)
     | None \<Rightarrow> (Inr (), if p = q then w else w\<lparr>nodes := move_tree (nodes w) p q\<rparr>))"

text \<open>\<open>os.MkdirAll\<close>: the missing directories on the way from the root to the path.\<close>

fun prefixes_of :: "bool \<Rightarrow> string list \<Rightarrow> string list \<Rightarrow> string list" where
  "prefixes_of rooted acc [] = []"
| "prefixes_of rooted acc (x # xs) =
     render_path rooted (acc @ [x]) # prefixes_of rooted (acc @ [x]) xs"

fun mkdirs :: "string list \<Rightarrow> unit io" where
  "mkdirs [] w = (Inr (), w)"
| "mkdirs (p # ps) w =
     (case stat_node w p of
        Inr Directory \<Rightarrow> mkdirs ps w
      | Inr _ \<Rightarrow> (Inl ENOTDIR, w)
      | Inl e \<Rightarrow>
          if e = ErrNotExist \<and> nodes w p = None
          then mkdirs ps (w\<lparr>nodes := (nodes w)(p := Some Directory)\<rparr>) else (Inl e, w))"

definition os_MkdirAll :: "string \<Rightarrow> unit io" where
  "os_MkdirAll p = syscall (PathError ''mkdir'' p) (mkdirs (prefixes_of (is_abs p) [] (path_elems p)))"

text \<open>
  Temporary names: the star of the pattern, or its end, is replaced by a random part; a name
  that exists is skipped, at most 10000 times.
\<close>

definition temp_pattern :: "string \<Rightarrow> string \<times> string" where
  "temp_pattern pat =
     (if CHR ''*'' \<in> set pat
      then (rev (tl (dropWhile (\<lambda>c. c \<noteq> CHR ''*'') (rev pat))),
            rev (takeWhile (\<lambda>c. c \<noteq> CHR ''*'') (rev pat)))
      else (pat, []))"

fun temp_name :: "nat \<Rightarrow> world \<Rightarrow> string \<Rightarrow> string \<Rightarrow> string option" where
  "temp_name n w dir pat =
     (if n = 0 then None
      else
        let p = path_join [dir, fst (temp_pattern pat) @ rand w (clock w + n) @ snd (temp_pattern pat)] in
        if nodes w p = None then Some p else temp_name (n - 1) w dir pat)"

declare temp_name.simps [simp del]

definition make_temp :: "node \<Rightarrow> string \<Rightarrow> string \<Rightarrow> string \<Rightarrow> string io" where
  "make_temp nd op dir pat =
     syscall (PathError op (path_join [dir, pat])) (\<lambda>w.
       case temp_name 10000 w dir pat of
         None \<Rightarrow> (Inl EEXIST, w)
       | Some p \<Rightarrow>
           (case parent_ok w p of
              Some e \<Rightarrow> (Inl e, w)
            | None \<Rightarrow> (Inr p, w\<lparr>nodes := (nodes w)(p := Some nd)\<rparr>)))"

definition os_CreateTemp :: "string \<Rightarrow> string \<Rightarrow> string io" where
  "os_CreateTemp dir pat w =
     make_temp (File []) ''createtemp'' (if dir = [] then tempdir w else dir) pat w"

definition os_MkdirTemp :: "string \<Rightarrow> string \<Rightarrow> string io" where
  "os_MkdirTemp dir pat w =
     make_temp Directory ''mkdirtemp'' (if dir = [] then tempdir w else dir) pat w"

section \<open>Facts about calls\<close>

text \<open>A call leaves the environment alone: only nodes, the clock and the pool change.\<close>

definition same_env :: "world \<Rightarrow> world \<Rightarrow> bool" where
  "same_env w w' \<longleftrightarrow>
     fault w' = fault w \<and> short w' = short w \<and> rand w' = rand w \<and> device w' = device w \<and>
     tempdir w' = tempdir w \<and> entries w' = entries w \<and> pick w' = pick w"

lemma same_env_refl [simp]: "same_env w w"
  by (simp add: same_env_def)

lemma same_env_trans [trans]: "same_env w w' \<Longrightarrow> same_env w' w'' \<Longrightarrow> same_env w w''"
  by (simp add: same_env_def)

text \<open>A call that only reads: it keeps the file system, whatever its outcome.\<close>

definition reads :: "'a io \<Rightarrow> bool" where
  "reads m \<longleftrightarrow> (\<forall>w. nodes (snd (m w)) = nodes w)"

lemma readsD: "reads m \<Longrightarrow> m w = (r, w') \<Longrightarrow> nodes w' = nodes w"
  unfolding reads_def by (metis snd_conv)

lemma reads_try [inv_intros]:
  "reads m \<Longrightarrow> (\<And>r. reads (k r)) \<Longrightarrow> reads (io_try m k)"
  by (auto simp: reads_def io_try_def split: prod.splits) (metis snd_conv)

lemma reads_bind [inv_intros]:
  "reads m \<Longrightarrow> (\<And>x. reads (k x)) \<Longrightarrow> reads (io_bind m k)"
  by (auto simp: reads_def io_bind_def split: prod.splits sum.splits) (metis snd_conv)+

lemma reads_err [inv_intros]: "reads m \<Longrightarrow> reads (io_err h m)"
  by (auto simp: reads_def io_err_def split: prod.splits) (metis snd_conv)

lemma reads_basic [inv_intros]: "reads (io_return x)" "reads (io_fail e)" "reads (io_lift r)"
  by (simp_all add: reads_def io_defs)

lemma reads_defer [inv_intros]: "reads m \<Longrightarrow> reads c \<Longrightarrow> reads (io_defer m c)"
  by (auto simp: reads_def io_defer_def split: prod.splits) (metis snd_conv)

lemma reads_drop [inv_intros]: "reads m \<Longrightarrow> reads (io_drop m)"
  by (simp add: reads_def io_drop_def)

lemma reads_branches [inv_intros]:
  "(c \<Longrightarrow> reads m) \<Longrightarrow> (\<not> c \<Longrightarrow> reads m') \<Longrightarrow> reads (if c then m else m')"
  "(\<And>e. s = Inl e \<Longrightarrow> reads (f e)) \<Longrightarrow> (\<And>y. s = Inr y \<Longrightarrow> reads (g y)) \<Longrightarrow>
   reads (case s of Inl e \<Rightarrow> f e | Inr y \<Rightarrow> g y)"
  "(q = None \<Longrightarrow> reads m) \<Longrightarrow> (\<And>z. q = Some z \<Longrightarrow> reads (h z)) \<Longrightarrow>
   reads (case q of None \<Rightarrow> m | Some z \<Rightarrow> h z)"
  "(\<And>a b. pr = (a, b) \<Longrightarrow> reads (k a b)) \<Longrightarrow> reads (case pr of (a, b) \<Rightarrow> k a b)"
  by (auto split: sum.splits option.splits prod.splits)

lemma reads_syscall: "reads f \<Longrightarrow> reads (syscall wr f)"
  unfolding reads_def syscall_def
  by (auto simp: Let_def split: option.splits prod.splits) (metis snd_conv world.select_convs(1) world.surjective world.update_convs(2))

lemma reads_calls [inv_intros]:
  "reads (os_stat p)" "reads (os_lstat p)" "reads (os_open p)" "reads (os_read p)"
  "reads (os_close p)" "reads (os_ReadDir p)" "reads (os_Readlink p)" "reads (os_Chmod p)"
  unfolding os_stat_def os_lstat_def os_open_def os_read_def os_close_def os_ReadDir_def
    os_Readlink_def os_Chmod_def
  by (rule reads_syscall; simp add: reads_def)+

lemma reads_ReadFile [inv_intros]: "reads (os_ReadFile p)"
  unfolding os_ReadFile_def by (intro inv_intros)

lemma syscall_cases:
  assumes "syscall wr f w = (r, w')"
  obtains (fault) e where "fault w (clock w) = Some e" and "r = Inl (wr e)"
      and "w' = w\<lparr>clock := Suc (clock w)\<rparr>"
    | (run) r' where "fault w (clock w) = None" and "f (w\<lparr>clock := Suc (clock w)\<rparr>) = (r', w')"
      and "r = mapErr wr r'"
  using assms by (auto simp: syscall_def Let_def split: option.splits prod.splits)

text \<open>Every call keeps the environment.\<close>

definition keeps_env :: "'a io \<Rightarrow> bool" where
  "keeps_env m \<longleftrightarrow> (\<forall>w. same_env w (snd (m w)))"

lemma keeps_envD: "keeps_env m \<Longrightarrow> m w = (r, w') \<Longrightarrow> same_env w w'"
  unfolding keeps_env_def by (metis snd_conv)

lemma keeps_env_try [inv_intros]:
  "keeps_env m \<Longrightarrow> (\<And>r. keeps_env (k r)) \<Longrightarrow> keeps_env (io_try m k)"
  unfolding keeps_env_def io_try_def by (metis (no_types, lifting) case_prod_beta same_env_trans)

lemma keeps_env_bind [inv_intros]:
  assumes "keeps_env m" and "\<And>x. keeps_env (k x)"
  shows "keeps_env (io_bind m k)"
  unfolding keeps_env_def
proof
  fix w
  obtain r w' where m: "m w = (r, w')" by fastforce
  have "same_env w w'" using keeps_envD[OF assms(1) m] .
  moreover have "same_env w' (snd (k x w'))" for x using assms(2) by (simp add: keeps_env_def)
  ultimately show "same_env w (snd (io_bind m k w))"
    by (cases r) (auto simp: io_bind_def m intro: same_env_trans)
qed

lemma keeps_env_err [inv_intros]: "keeps_env m \<Longrightarrow> keeps_env (io_err h m)"
  by (auto simp: keeps_env_def io_err_def case_prod_beta)

lemma keeps_env_basic [inv_intros]: "keeps_env (io_return x)" "keeps_env (io_fail e)" "keeps_env (io_lift r)"
  by (simp_all add: keeps_env_def io_defs)

lemma keeps_env_defer [inv_intros]: "keeps_env m \<Longrightarrow> keeps_env c \<Longrightarrow> keeps_env (io_defer m c)"
  unfolding keeps_env_def io_defer_def by (metis (no_types, lifting) case_prod_beta same_env_trans snd_conv)

lemma keeps_env_drop [inv_intros]: "keeps_env m \<Longrightarrow> keeps_env (io_drop m)"
  by (simp add: keeps_env_def io_drop_def)

lemma keeps_env_branches [inv_intros]:
  "(c \<Longrightarrow> keeps_env m) \<Longrightarrow> (\<not> c \<Longrightarrow> keeps_env m') \<Longrightarrow> keeps_env (if c then m else m')"
  "(\<And>e. s = Inl e \<Longrightarrow> keeps_env (f e)) \<Longrightarrow> (\<And>y. s = Inr y \<Longrightarrow> keeps_env (g y)) \<Longrightarrow>
   keeps_env (case s of Inl e \<Rightarrow> f e | Inr y \<Rightarrow> g y)"
  "(q = None \<Longrightarrow> keeps_env m) \<Longrightarrow> (\<And>z. q = Some z \<Longrightarrow> keeps_env (h z)) \<Longrightarrow>
   keeps_env (case q of None \<Rightarrow> m | Some z \<Rightarrow> h z)"
  "(\<And>a b. pr = (a, b) \<Longrightarrow> keeps_env (k a b)) \<Longrightarrow> keeps_env (case pr of (a, b) \<Rightarrow> k a b)"
  by (auto split: sum.splits option.splits prod.splits)

lemma keeps_env_syscall:
  assumes "keeps_env f" shows "keeps_env (syscall wr f)"
  unfolding keeps_env_def
proof
  fix w
  have "same_env w (w\<lparr>clock := Suc (clock w)\<rparr>)" by (simp add: same_env_def)
  moreover have "same_env v (snd (f v))" for v using assms by (simp add: keeps_env_def)
  ultimately show "same_env w (snd (syscall wr f w))"
    by (auto simp: syscall_def Let_def case_prod_beta split: option.splits intro: same_env_trans)
qed

lemma same_env_set [simp]: "same_env w (w\<lparr>nodes := fs\<rparr>)" "same_env w (w\<lparr>clock := c\<rparr>)"
  by (simp_all add: same_env_def)

lemma mkdirs_env: "same_env w (snd (mkdirs ps w))"
proof (induction ps arbitrary: w)
  case (Cons p ps)
  have "same_env w (snd (mkdirs ps (w\<lparr>nodes := (nodes w)(p := Some Directory)\<rparr>)))"
    using same_env_set(1) Cons.IH same_env_trans by blast
  then show ?case
    using Cons.IH by (auto split: sum.splits node.splits)
qed simp

lemma keeps_env_calls [inv_intros]:
  "keeps_env (os_stat p)" "keeps_env (os_lstat p)" "keeps_env (os_open p)" "keeps_env (os_read p)"
  "keeps_env (os_close p)" "keeps_env (os_ReadDir p)" "keeps_env (os_Readlink p)" "keeps_env (os_Chmod p)"
  "keeps_env (os_create p)" "keeps_env (os_Remove p)" "keeps_env (os_RemoveAll p)"
  "keeps_env (os_Symlink p q)" "keeps_env (os_Rename p q)" "keeps_env (os_MkdirAll p)"
  "keeps_env (make_temp nd op p q)"
  unfolding os_stat_def os_lstat_def os_open_def os_read_def os_close_def os_ReadDir_def
    os_Readlink_def os_Chmod_def os_create_def os_Remove_def os_RemoveAll_def os_Symlink_def
    os_Rename_def os_MkdirAll_def make_temp_def
  by (rule keeps_env_syscall;
      auto simp: keeps_env_def Let_def mkdirs_env same_env_set split: sum.splits option.splits node.splits)+

lemma keeps_env_write [inv_intros]: "keeps_env (os_write q b)"
  by (auto simp: keeps_env_def os_write_def append_data_def same_env_def Let_def
      split: option.splits node.splits)

lemma keeps_env_temp [inv_intros]: "keeps_env (os_CreateTemp d p)" "keeps_env (os_MkdirTemp d p)"
  using keeps_env_calls(15) by (simp_all add: keeps_env_def os_CreateTemp_def os_MkdirTemp_def)

lemma keeps_env_ReadFile [inv_intros]: "keeps_env (os_ReadFile p)"
  unfolding os_ReadFile_def by (intro inv_intros)

text \<open>A world in which no call fails.\<close>

definition no_faults :: "world \<Rightarrow> bool" where
  "no_faults w \<longleftrightarrow> (\<forall>t. fault w t = None)"

lemma no_faults_env: "same_env w w' \<Longrightarrow> no_faults w \<Longrightarrow> no_faults w'"
  by (simp add: no_faults_def same_env_def)

lemma no_faults_step: "keeps_env m \<Longrightarrow> m w = (r, w') \<Longrightarrow> no_faults w \<Longrightarrow> no_faults w'"
  using keeps_envD no_faults_env by blast

text \<open>Temporary files and directories are new.\<close>

lemma temp_name_new: "temp_name n w d p = Some f \<Longrightarrow>
    nodes w f = None \<and> (\<exists>k. f = path_join [d, fst (temp_pattern p) @ rand w k @ snd (temp_pattern p)])"
  by (induction n w d p rule: temp_name.induct)
    (subst (asm) temp_name.simps, auto simp: Let_def split: if_splits)

lemma path_join_clean: "x \<noteq> [] \<Longrightarrow> path_clean (path_join [d, x]) = path_join [d, x]"
  by (cases "d = []") (simp_all add: path_join_def)

definition temp_stem :: "string \<Rightarrow> bool" where
  "temp_stem pat \<longleftrightarrow> fst (temp_pattern pat) \<noteq> [] \<or> snd (temp_pattern pat) \<noteq> []"

lemma make_temp_cases:
  assumes "make_temp nd op d pat w = (r, w')" and "temp_stem pat"
  shows "(\<exists>e. r = Inl e) \<and> nodes w' = nodes w \<or>
    (\<exists>f. r = Inr f \<and> nodes w f = None \<and> path_clean f = f \<and> nodes w' = (nodes w)(f := Some nd))"
  using assms(1)[unfolded make_temp_def]
proof (cases rule: syscall_cases)
  case (run r')
  let ?w = "w\<lparr>clock := Suc (clock w)\<rparr>"
  show ?thesis
  proof (cases "temp_name 10000 ?w d pat")
    case None
    with run show ?thesis by auto
  next
    case (Some f)
    from temp_name_new[OF Some] assms(2) have "nodes w f = None" "path_clean f = f"
      by (auto simp: temp_stem_def path_join_clean)
    with run Some show ?thesis by (auto split: option.splits)
  qed
qed simp

lemma os_CreateTemp_cases:
  assumes "os_CreateTemp d pat w = (r, w')" and "temp_stem pat"
  obtains (fail) e where "r = Inl e" and "nodes w' = nodes w"
    | (ok) f where "r = Inr f" and "nodes w f = None" and "path_clean f = f"
        and "nodes w' = (nodes w)(f := Some (File []))"
  using make_temp_cases[OF assms(1)[unfolded os_CreateTemp_def] assms(2)] by blast

lemma os_MkdirTemp_cases:
  assumes "os_MkdirTemp d pat w = (r, w')" and "temp_stem pat"
  obtains (fail) e where "r = Inl e" and "nodes w' = nodes w"
    | (ok) f where "r = Inr f" and "nodes w f = None" and "path_clean f = f"
        and "nodes w' = (nodes w)(f := Some Directory)"
  using make_temp_cases[OF assms(1)[unfolded os_MkdirTemp_def] assms(2)] by blast

lemma os_Remove_file:
  assumes "nodes w (path_clean p) = Some (File b)" and "no_faults w" and "os_Remove p w = (r, w')"
  shows "r = Inr () \<and> nodes w' = (nodes w)(path_clean p := None)"
  using assms by (auto simp: os_Remove_def no_faults_def Let_def elim!: syscall_cases)

lemma os_close_ok: "no_faults w \<Longrightarrow> os_close p w = (Inr (), w\<lparr>clock := Suc (clock w)\<rparr>)"
  by (simp add: os_close_def syscall_def no_faults_def Let_def)

text \<open>Elimination of a successful run.\<close>

lemma io_bind_InrE:
  assumes "io_bind m k w = (Inr y, w'')"
  obtains x w' where "m w = (Inr x, w')" and "k x w' = (Inr y, w'')"
  using assms by (auto simp: io_bind_def split: prod.splits sum.splits)

lemma io_bind_cases:
  assumes "io_bind m k w = (r, w'')"
  obtains (fail) e where "m w = (Inl e, w'')" and "r = Inl e"
    | (ok) x w' where "m w = (Inr x, w')" and "k x w' = (r, w'')"
  using assms by (auto simp: io_bind_def split: prod.splits sum.splits)

lemma io_try_cases:
  assumes "io_try m k w = (r, w'')"
  obtains (fail) e w' where "m w = (Inl e, w')" and "k (Inl e) w' = (r, w'')"
    | (ok) x w' where "m w = (Inr x, w')" and "k (Inr x) w' = (r, w'')"
proof -
  obtain r' w' where "m w = (r', w')" by fastforce
  with assms that show ?thesis by (cases r') (auto simp: io_try_def)
qed

lemma io_err_cases:
  assumes "io_err h m w = (r, w')"
  obtains (fail) e where "m w = (Inl e, w')" and "r = Inl (h e)"
    | (ok) x where "m w = (Inr x, w')" and "r = Inr x"
proof -
  obtain r' w2 where "m w = (r', w2)" by fastforce
  with assms that show ?thesis by (cases r') (auto simp: io_err_def)
qed

section \<open>A small world\<close>

text \<open>
  A world for examples: two devices, \<open>/t\<close> (where temporary files go) and \<open>/o\<close>, one file,
  no failures, and a name supply that counts.
\<close>

definition small_world :: world where
  "small_world =
     \<lparr>nodes = map_of [(''/'', Directory), (''/t'', Directory), (''/o'', Directory),
                     (''/t/a'', File ''x'')],
      clock = 0, fault = (\<lambda>_. None), short = (\<lambda>_. 0), rand = dec_of_nat,
      device = (\<lambda>p. if has_prefix p ''/o'' then 1 else 0), tempdir = ''/t'',
      entries = (\<lambda>_ _. []), idle = [], pick = (\<lambda>_. 0)\<rparr>"

end
