(* ===== verification/Transport.thy ===== *)
theory Transport
  imports GoOS
begin

text \<open>
  The pool of HTTP transports (\<open>internal/transport/transport.go\<close>). A pool of the standard
  library may hand out any object that was put back, or none (it drops objects when it likes);
  then a new one is made. What matters is that TLS settings never outlive a use: no idle
  transport has a TLS configuration.
\<close>

definition new_transport :: transport where
  "new_transport = Transport None"

text \<open>\<open>pool.Get\<close>: the object the oracle picks is taken out of the pool.\<close>

definition pool_Get :: "world \<Rightarrow> transport \<times> world" where
  "pool_Get w =
     (let i = pick w (clock w); w' = w\<lparr>clock := Suc (clock w)\<rparr> in
      if i < length (idle w)
      then (idle w ! i, w'\<lparr>idle := take i (idle w) @ drop (Suc i) (idle w)\<rparr>)
      else (new_transport, w'))"

definition NewOrIdle :: "tls_config option \<Rightarrow> transport io" where
  "NewOrIdle tlsConfig w =
     (case pool_Get w of (t, w') \<Rightarrow> (Inr (Transport tlsConfig), w'))"

definition Release :: "transport option \<Rightarrow> unit io" where
  "Release transport w =
     (case transport of
        None \<Rightarrow> (Inl (ErrorString ''cannot release nil transport''), w)
      | Some t \<Rightarrow> (Inr (), w\<lparr>idle := Transport None # idle w\<rparr>))"

definition pool_clean :: "world \<Rightarrow> bool" where
  "pool_clean w \<longleftrightarrow> (\<forall>t \<in> set (idle w). TLSClientConfig t = None)"

text \<open>A step that gives back a clean pool when it got one.\<close>

definition keeps_pool_clean :: "'a io \<Rightarrow> bool" where
  "keeps_pool_clean m \<longleftrightarrow> (\<forall>w. pool_clean w \<longrightarrow> pool_clean (snd (m w)))"

lemma NewOrIdle_clean [inv_intros]: "keeps_pool_clean (NewOrIdle tc)"
  by (auto simp: keeps_pool_clean_def NewOrIdle_def pool_Get_def pool_clean_def Let_def
      dest: in_set_takeD in_set_dropD)

lemma Release_clean [inv_intros]: "keeps_pool_clean (Release t)"
  by (auto simp: keeps_pool_clean_def Release_def pool_clean_def split: option.splits)

lemma pool_clean_try [inv_intros]:
  "keeps_pool_clean m \<Longrightarrow> (\<And>r. keeps_pool_clean (k r)) \<Longrightarrow> keeps_pool_clean (io_try m k)"
  by (auto simp: keeps_pool_clean_def io_try_def split: prod.splits)

lemma pool_clean_bind [inv_intros]:
  "keeps_pool_clean m \<Longrightarrow> (\<And>x. keeps_pool_clean (k x)) \<Longrightarrow> keeps_pool_clean (io_bind m k)"
  by (auto simp: keeps_pool_clean_def io_bind_def split: prod.splits sum.splits)

lemma pool_clean_basic [inv_intros]:
  "keeps_pool_clean (io_return x)" "keeps_pool_clean (io_fail e)" "keeps_pool_clean (io_lift r)"
  by (simp_all add: keeps_pool_clean_def io_defs)

lemma pool_clean_err [inv_intros]: "keeps_pool_clean m \<Longrightarrow> keeps_pool_clean (io_err h m)"
  by (auto simp: keeps_pool_clean_def io_err_def split: prod.splits)

lemma pool_clean_defer [inv_intros]:
  "keeps_pool_clean m \<Longrightarrow> keeps_pool_clean c \<Longrightarrow> keeps_pool_clean (io_defer m c)"
  by (auto simp: keeps_pool_clean_def io_defer_def split: prod.splits)

lemma pool_clean_drop [inv_intros]: "keeps_pool_clean m \<Longrightarrow> keeps_pool_clean (io_drop m)"
  by (simp add: keeps_pool_clean_def io_drop_def)

lemma pool_clean_branches [inv_intros]:
  "(c \<Longrightarrow> keeps_pool_clean m) \<Longrightarrow> (\<not> c \<Longrightarrow> keeps_pool_clean m') \<Longrightarrow> keeps_pool_clean (if c then m else m')"
  "(\<And>e. s = Inl e \<Longrightarrow> keeps_pool_clean (f e)) \<Longrightarrow> (\<And>y. s = Inr y \<Longrightarrow> keeps_pool_clean (g y)) \<Longrightarrow>
   keeps_pool_clean (case s of Inl e \<Rightarrow> f e | Inr y \<Rightarrow> g y)"
  "(q = None \<Longrightarrow> keeps_pool_clean m) \<Longrightarrow> (\<And>z. q = Some z \<Longrightarrow> keeps_pool_clean (h z)) \<Longrightarrow>
   keeps_pool_clean (case q of None \<Rightarrow> m | Some z \<Rightarrow> h z)"
  "(\<And>a b. pr = (a, b) \<Longrightarrow> keeps_pool_clean (k a b)) \<Longrightarrow> keeps_pool_clean (case pr of (a, b) \<Rightarrow> k a b)"
  by (auto split: sum.splits option.splits prod.splits)

text \<open>A request over a pooled transport: it is taken, used, and released whatever happens.\<close>

definition with_transport :: "tls_config option \<Rightarrow> (transport \<Rightarrow> 'a io) \<Rightarrow> 'a io" where
  "with_transport tlsConfig f =
     io_bind (NewOrIdle tlsConfig) (\<lambda>t. io_defer (f t) (Release (Some t)))"

lemma with_transport_clean [inv_intros]:
  "(\<And>t. keeps_pool_clean (f t)) \<Longrightarrow> keeps_pool_clean (with_transport tc f)"
  unfolding with_transport_def by (intro inv_intros)

lemma with_transport_result: 
  "fst (with_transport tc f w) = fst (f (Transport tc) (snd (pool_Get w)))"
  by (auto simp: with_transport_def io_bind_def io_defer_def NewOrIdle_def split: prod.splits)

text \<open>The system calls do not touch the pool.\<close>

lemma pool_clean_set [simp]:
  "pool_clean (w\<lparr>nodes := fs\<rparr>) = pool_clean w" "pool_clean (w\<lparr>clock := c\<rparr>) = pool_clean w"
  by (simp_all add: pool_clean_def)

lemma pool_clean_syscall: "keeps_pool_clean f \<Longrightarrow> keeps_pool_clean (syscall wr f)"
  by (auto simp: keeps_pool_clean_def syscall_def Let_def case_prod_beta split: option.splits)

lemma pool_clean_calls [inv_intros]:
  "keeps_pool_clean (os_stat p)" "keeps_pool_clean (os_lstat p)" "keeps_pool_clean (os_open p)"
  "keeps_pool_clean (os_read p)" "keeps_pool_clean (os_close p)" "keeps_pool_clean (os_create p)"
  "keeps_pool_clean (os_Remove p)" "keeps_pool_clean (os_RemoveAll p)" "keeps_pool_clean (os_Rename p q)"
  "keeps_pool_clean (make_temp nd op p q)"
  unfolding os_stat_def os_lstat_def os_open_def os_read_def os_close_def os_create_def os_Remove_def
    os_RemoveAll_def os_Rename_def make_temp_def
  by (rule pool_clean_syscall;
      auto simp: keeps_pool_clean_def Let_def split: sum.splits option.splits node.splits)+

lemma pool_clean_write [inv_intros]: "keeps_pool_clean (os_write q b)"
  by (auto simp: keeps_pool_clean_def os_write_def append_data_def Let_def split: option.splits node.splits)

lemma pool_clean_temp [inv_intros]: "keeps_pool_clean (os_CreateTemp d p)" "keeps_pool_clean (os_MkdirTemp d p)"
  using pool_clean_calls(10) by (simp_all add: keeps_pool_clean_def os_CreateTemp_def os_MkdirTemp_def)

lemma pool_clean_ReadFile [inv_intros]: "keeps_pool_clean (os_ReadFile p)"
  unfolding os_ReadFile_def by (intro inv_intros)

end
