(* ===== verification/GoSort.thy ===== *)
theory GoSort
  imports Prelude "HOL-Library.Multiset"
begin

text \<open>
  Go's \<open>sort.SliceStable\<close>, as the library implements it: insertion sort on blocks of
  twenty, then merging of neighbouring blocks by rotations (\<open>symMerge\<close>). The algorithm is
  written out because the program passes it a comparison that is not the strict order the
  documentation asks for, so that its documented behaviour does not apply. What holds for every
  comparison: the result is a permutation. What holds for a total transitive comparison, strict
  or not: the result is sorted by it.
\<close>

section \<open>The algorithm\<close>

text \<open>
  Insertion of the next element into the sorted block before it, which is passed reversed:
  the element moves left while it is less than its left neighbour.
\<close>

fun insert_rev :: "('a \<Rightarrow> 'a \<Rightarrow> bool) \<Rightarrow> 'a \<Rightarrow> 'a list \<Rightarrow> 'a list" where
  "insert_rev lt x [] = [x]"
| "insert_rev lt x (y # ys) = (if lt x y then y # insert_rev lt x ys else x # y # ys)"

definition insertion_sort :: "('a \<Rightarrow> 'a \<Rightarrow> bool) \<Rightarrow> 'a list \<Rightarrow> 'a list" where
  "insertion_sort lt xs = rev (foldl (\<lambda>acc x. insert_rev lt x acc) [] xs)"

text \<open>Binary search for the border of a predicate between two indices.\<close>

function bsearch :: "(nat \<Rightarrow> bool) \<Rightarrow> nat \<Rightarrow> nat \<Rightarrow> nat" where
  "bsearch P lo hi =
     (if lo < hi then
        let c = (lo + hi) div 2 in
        if \<not> P c then bsearch P (c + 1) hi else bsearch P lo c
      else lo)"
  by pat_completeness auto
termination
  by (relation "measure (\<lambda>(P, lo, hi). hi - lo)") (auto simp: Let_def)

declare bsearch.simps [simp del]

text \<open>
  \<open>symMerge\<close> on the two neighbouring blocks \<open>u\<close> and \<open>v\<close>, with indices relative to the
  start of \<open>u\<close>: \<open>a = 0\<close>, \<open>m\<close> the length of \<open>u\<close>, \<open>b\<close> that of both.
\<close>

definition sym_start :: "('a \<Rightarrow> 'a \<Rightarrow> bool) \<Rightarrow> 'a list \<Rightarrow> 'a list \<Rightarrow> nat" where
  "sym_start lt u v =
     (let m = length u; b = m + length v; mid = b div 2; n = mid + m; d = u @ v in
      if m > mid then bsearch (\<lambda>c. lt (d ! (n - 1 - c)) (d ! c)) (n - b) mid
      else bsearch (\<lambda>c. lt (d ! (n - 1 - c)) (d ! c)) 0 m)"

lemma bsearch_bounds: "lo \<le> hi \<Longrightarrow> lo \<le> bsearch P lo hi \<and> bsearch P lo hi \<le> hi"
proof (induction P lo hi rule: bsearch.induct)
  case (1 P lo hi)
  show ?case
  proof (cases "lo < hi")
    case True
    with 1 show ?thesis
      by (subst (1 2) bsearch.simps) (auto simp: Let_def; fastforce)
  qed (use 1 in \<open>simp add: bsearch.simps\<close>)
qed

lemma bsearch_border:
  "lo \<le> hi \<Longrightarrow> (bsearch P lo hi < hi \<longrightarrow> P (bsearch P lo hi)) \<and>
    (lo < bsearch P lo hi \<longrightarrow> \<not> P (bsearch P lo hi - 1))"
proof (induction P lo hi rule: bsearch.induct)
  case (1 P lo hi)
  show ?case
  proof (cases "lo < hi")
    case False
    then show ?thesis using 1(3) by (simp add: bsearch.simps)
  next
    case True
    define c where "c = (lo + hi) div 2"
    have c: "lo \<le> c" "c < hi" using True by (auto simp: c_def)
    show ?thesis
    proof (cases "P c")
      case True
      then have b: "bsearch P lo hi = bsearch P lo c"
        using \<open>lo < hi\<close> by (subst bsearch.simps) (simp add: c_def Let_def)
      have "bsearch P lo c \<le> c" using bsearch_bounds c(1) by blast
      with 1(2)[OF \<open>lo < hi\<close> c_def] True c b show ?thesis
        by (metis le_neq_implies_less)
    next
      case False
      then have b: "bsearch P lo hi = bsearch P (c + 1) hi"
        using \<open>lo < hi\<close> by (subst bsearch.simps) (simp add: c_def Let_def)
      have "c + 1 \<le> bsearch P (c + 1) hi" using bsearch_bounds c(2) by (metis Suc_eq_plus1 Suc_leI)
      with 1(1)[OF \<open>lo < hi\<close> c_def] False c b show ?thesis
        by (metis Suc_eq_plus1 Suc_leI add_diff_cancel_right' le_neq_implies_less)
    qed
  qed
qed

lemma sym_start_bounds:
  assumes "v \<noteq> []"
  shows "sym_start lt u v \<le> length u"
    and "sym_start lt u v \<le> (length u + length v) div 2"
    and "(length u + length v) div 2 - sym_start lt u v \<le> length v"
proof -
  let ?m = "length u" and ?mid = "(length u + length v) div 2"
  have "sym_start lt u v \<le> ?m \<and> sym_start lt u v \<le> ?mid \<and> ?mid - sym_start lt u v \<le> length v"
  proof (cases "?m > ?mid")
    case True
    let ?s = "bsearch (\<lambda>c. lt ((u @ v) ! (?mid + ?m - 1 - c)) ((u @ v) ! c)) (?mid + ?m - (?m + length v)) ?mid"
    have "?mid + ?m - (?m + length v) \<le> ?s \<and> ?s \<le> ?mid" by (rule bsearch_bounds) linarith
    moreover have "sym_start lt u v = ?s" using True by (simp add: sym_start_def Let_def)
    ultimately show ?thesis using True by linarith
  next
    case False
    let ?s = "bsearch (\<lambda>c. lt ((u @ v) ! (?mid + ?m - 1 - c)) ((u @ v) ! c)) 0 ?m"
    have "0 \<le> ?s \<and> ?s \<le> ?m" by (rule bsearch_bounds) simp
    moreover have "sym_start lt u v = ?s" using False by (simp add: sym_start_def Let_def)
    moreover have "0 < length v" using assms by simp
    ultimately show ?thesis using False by linarith
  qed
  then show "sym_start lt u v \<le> ?m" "sym_start lt u v \<le> ?mid" "?mid - sym_start lt u v \<le> length v"
    by auto
qed

text \<open>
  After the rotation the first half of the data is \<open>u1 @ v1\<close>, the second \<open>u2 @ v2\<close>, and
  each half is merged again unless one of its blocks is empty.
\<close>

function sym_merge :: "('a \<Rightarrow> 'a \<Rightarrow> bool) \<Rightarrow> 'a list \<Rightarrow> 'a list \<Rightarrow> 'a list" where
  "sym_merge lt u v =
     (if u = [] \<or> v = [] then u @ v
      else if length u = 1 then
        (let i = bsearch (\<lambda>i. \<not> lt (v ! i) (u ! 0)) 0 (length v) in take i v @ u @ drop i v)
      else if length v = 1 then
        (let i = bsearch (\<lambda>i. lt (v ! 0) (u ! i)) 0 (length u) in take i u @ v @ drop i u)
      else
        (let s = sym_start lt u v; k = (length u + length v) div 2 - s in
         sym_merge lt (take s u) (take k v) @ sym_merge lt (drop s u) (drop k v)))"
  by pat_completeness auto
termination
proof (relation "measure (\<lambda>(lt, u, v). length u + length v)")
  fix lt :: "'a \<Rightarrow> 'a \<Rightarrow> bool" and u v s k
  assume a: "\<not> (u = [] \<or> v = [])" "length u \<noteq> 1" "length v \<noteq> 1" "s = sym_start lt u v"
    "k = (length u + length v) div 2 - s"
  then have l: "2 \<le> length u" "2 \<le> length v"
    by (metis Suc_1 Suc_leI length_greater_0_conv nat_neq_iff less_one not_less_eq_eq numeral_2_eq_2 le_neq_implies_less One_nat_def)+
  have "s \<le> length u" "s \<le> (length u + length v) div 2" "k \<le> length v"
    using sym_start_bounds[where lt = lt and u = u and v = v] a(1,4,5) by auto
  with l a(5) show "((lt, take s u, take k v), lt, u, v) \<in> measure (\<lambda>(lt, u, v). length u + length v)"
    and "((lt, drop s u, drop k v), lt, u, v) \<in> measure (\<lambda>(lt, u, v). length u + length v)"
    by auto
qed auto

declare sym_merge.simps [simp del]

fun merge_pairs :: "('a \<Rightarrow> 'a \<Rightarrow> bool) \<Rightarrow> 'a list list \<Rightarrow> 'a list list" where
  "merge_pairs lt (x # y # r) = sym_merge lt x y # merge_pairs lt r"
| "merge_pairs lt xs = xs"

lemma length_merge_pairs: "length (merge_pairs lt xs) \<le> (length xs + 1) div 2"
  by (induction lt xs rule: merge_pairs.induct) auto

function merge_all :: "('a \<Rightarrow> 'a \<Rightarrow> bool) \<Rightarrow> 'a list list \<Rightarrow> 'a list" where
  "merge_all lt xs =
     (if length xs \<le> 1 then concat xs else merge_all lt (merge_pairs lt xs))"
  by pat_completeness auto
termination
proof (relation "measure (\<lambda>(lt, xs). length xs)")
  fix lt :: "'a \<Rightarrow> 'a \<Rightarrow> bool" and xs :: "'a list list"
  assume "\<not> length xs \<le> 1"
  then show "((lt, merge_pairs lt xs), lt, xs) \<in> measure (\<lambda>(lt, xs). length xs)"
    using length_merge_pairs[of lt xs] by simp
qed simp

declare merge_all.simps [simp del]

definition block_size :: nat where
  "block_size = 20"

function blocks :: "'a list \<Rightarrow> 'a list list" where
  "blocks xs = (if length xs \<le> block_size then [xs]
     else take block_size xs # blocks (drop block_size xs))"
  by pat_completeness auto
termination
  by (relation "measure length") (auto simp: block_size_def)

declare blocks.simps [simp del]

definition slice_stable :: "('a \<Rightarrow> 'a \<Rightarrow> bool) \<Rightarrow> 'a list \<Rightarrow> 'a list" where
  "slice_stable lt xs = merge_all lt (map (insertion_sort lt) (blocks xs))"

section \<open>The result is a permutation\<close>

lemma mset_insert_rev [simp]: "mset (insert_rev lt x ys) = add_mset x (mset ys)"
  by (induction ys) auto

lemma mset_insertion_sort [simp]: "mset (insertion_sort lt xs) = mset xs"
proof -
  have "mset (foldl (\<lambda>acc x. insert_rev lt x acc) ys xs) = mset ys + mset xs" for ys
    by (induction xs arbitrary: ys) auto
  then show ?thesis by (simp add: insertion_sort_def)
qed

lemma mset_split: "mset (take i xs) + mset (drop i xs) = mset xs"
  by (metis append_take_drop_id mset_append)

lemma mset_split': "mset (drop i xs) + mset (take i xs) = mset xs"
  by (metis add.commute mset_split)

lemma mset_sym_merge [simp]: "mset (sym_merge lt u v) = mset u + mset v"
proof (induction lt u v rule: sym_merge.induct)
  case (1 lt u v)
  consider "u = [] \<or> v = []" | "u \<noteq> []" "v \<noteq> []" "length u = 1"
    | "u \<noteq> []" "v \<noteq> []" "length u \<noteq> 1" "length v = 1"
    | (split) "u \<noteq> []" "v \<noteq> []" "length u \<noteq> 1" "length v \<noteq> 1" by blast
  then show ?case
  proof cases
    case split
    define s where "s = sym_start lt u v"
    define k where "k = (length u + length v) div 2 - s"
    have "sym_merge lt u v =
        sym_merge lt (take s u) (take k v) @ sym_merge lt (drop s u) (drop k v)"
      using split by (subst sym_merge.simps) (simp add: s_def k_def Let_def)
    moreover have "mset (sym_merge lt (take s u) (take k v)) = mset (take s u) + mset (take k v)"
      "mset (sym_merge lt (drop s u) (drop k v)) = mset (drop s u) + mset (drop k v)"
      using 1 split s_def k_def by blast+
    ultimately show ?thesis using mset_split[of s u] mset_split[of k v]
      by (metis (no_types, lifting) ab_semigroup_add_class.add_ac(1) add.commute mset_append)
  next
    case 1
    then show ?thesis by (subst sym_merge.simps) auto
  next
    case 2
    then show ?thesis by (subst sym_merge.simps) (auto simp: Let_def ac_simps mset_split mset_split')
  next
    case 3
    then show ?thesis by (subst sym_merge.simps) (auto simp: Let_def ac_simps mset_split mset_split')
  qed
qed

lemma mset_merge_pairs: "mset (concat (merge_pairs lt xs)) = mset (concat xs)"
  by (induction lt xs rule: merge_pairs.induct) (auto simp: ac_simps)

lemma mset_merge_all: "mset (merge_all lt xs) = mset (concat xs)"
  by (induction lt xs rule: merge_all.induct)
    (subst merge_all.simps, auto simp: mset_merge_pairs)

lemma concat_blocks [simp]: "concat (blocks xs) = xs"
  by (induction xs rule: blocks.induct) (subst blocks.simps, auto)

lemma mset_slice_stable [simp]: "mset (slice_stable lt xs) = mset xs"
proof -
  have "mset (concat (map (insertion_sort lt) bs)) = mset (concat bs)" for bs :: "'a list list"
    by (induction bs) auto
  then show ?thesis by (simp add: slice_stable_def mset_merge_all)
qed

lemma set_slice_stable [simp]: "set (slice_stable lt xs) = set xs"
  by (metis mset_eq_setD mset_slice_stable)

lemma slice_stable_Nil_iff [simp]: "slice_stable lt xs = [] \<longleftrightarrow> xs = []"
  by (metis mset_slice_stable mset_zero_iff)

section \<open>The result is sorted by a total transitive comparison\<close>

lemma insert_rev_sorted:
  assumes tot: "\<And>x y. lt x y \<or> lt y x" and tr: "transp lt"
  shows "sorted_wrt (\<lambda>x y. lt y x) ys \<Longrightarrow> sorted_wrt (\<lambda>x y. lt y x) (insert_rev lt x ys)"
proof (induction ys)
  case (Cons y ys)
  have s: "set (insert_rev lt x ys) = insert x (set ys)"
    by (metis mset_insert_rev set_mset_add_mset_insert set_mset_mset)
  show ?case
  proof (cases "lt x y")
    case True
    with Cons s show ?thesis by auto
  next
    case False
    then have "lt y x" using tot by blast
    with False Cons.prems show ?thesis using transpD[OF tr] by fastforce
  qed
qed simp

lemma insertion_sort_sorted:
  assumes "\<And>x y. lt x y \<or> lt y x" and "transp lt"
  shows "sorted_wrt lt (insertion_sort lt xs)"
proof -
  have "sorted_wrt (\<lambda>x y. lt y x) ys \<Longrightarrow>
      sorted_wrt (\<lambda>x y. lt y x) (foldl (\<lambda>acc x. insert_rev lt x acc) ys xs)" for ys
    by (induction xs arbitrary: ys) (simp_all add: insert_rev_sorted[OF assms])
  from this[of "[]"] show ?thesis by (simp add: insertion_sort_def sorted_wrt_rev)
qed

text \<open>The two halves of a rotation: everything left relates to everything right.\<close>

lemma sorted_wrt_last_le:
  assumes "transp lt" and "\<And>x. lt x x" and "sorted_wrt lt xs" and "i < length xs" and "x \<in> set (take (Suc i) xs)"
  shows "lt x (xs ! i)"
proof -
  obtain j where j: "j < Suc i" "j < length xs" "x = xs ! j"
    using assms(5) by (auto simp: in_set_conv_nth)
  then show ?thesis
    using assms(2,3,4) by (cases "j = i") (auto simp: sorted_wrt_iff_nth_less)
qed

lemma sorted_wrt_first_le:
  assumes "\<And>x. lt x x" and "sorted_wrt lt xs" and "x \<in> set (drop i xs)"
  shows "lt (xs ! i) x"
proof -
  obtain j where j: "j < length xs - i" "x = xs ! (i + j)"
    using assms(3) by (auto simp: in_set_conv_nth)
  then show ?thesis
    using assms(1,2) by (cases "j = 0") (auto simp: sorted_wrt_iff_nth_less)
qed

lemma sym_start_split:
  assumes tot: "\<And>x y. lt x y \<or> lt y x" and tr: "transp lt"
    and u: "sorted_wrt lt u" "2 \<le> length u" and v: "sorted_wrt lt v" "2 \<le> length v"
  defines "s \<equiv> sym_start lt u v"
  defines "k \<equiv> (length u + length v) div 2 - s"
  shows "x \<in> set (take s u) \<Longrightarrow> y \<in> set (drop k v) \<Longrightarrow> lt x y"
    and "x \<in> set (take k v) \<Longrightarrow> y \<in> set (drop s u) \<Longrightarrow> lt x y"
proof -
  let ?m = "length u" and ?mid = "(length u + length v) div 2"
  define P where "P = (\<lambda>c. lt ((u @ v) ! (?mid + ?m - 1 - c)) ((u @ v) ! c))"
  define lo where "lo = (if ?m > ?mid then ?mid + ?m - (?m + length v) else 0)"
  define hi where "hi = (if ?m > ?mid then ?mid else ?m)"
  have s: "s = bsearch P lo hi"
    by (simp add: s_def sym_start_def P_def lo_def hi_def Let_def)
  have lohi: "lo \<le> hi" unfolding lo_def hi_def by auto
  note b = bsearch_bounds[OF lohi, of P, folded s] and bd = bsearch_border[OF lohi, of P, folded s]
  have sb: "s \<le> ?m" "s \<le> ?mid" "k \<le> length v"
    using sym_start_bounds[where lt = lt and u = u and v = v] v(2) unfolding s_def k_def
    by (metis list.size(3) not_numeral_le_zero)+
  have refl: "lt x x" for x using tot by blast
  have low: "lt (v ! (k - 1)) (u ! s)" if "0 < k" "s < ?m"
  proof -
    have "s < hi" using that sb by (auto simp: hi_def k_def)
    with bd have "P s" by blast
    moreover have "?mid + ?m - 1 - s = ?m + (k - 1)" using that sb by (simp add: k_def)
    then have "(u @ v) ! (?mid + ?m - 1 - s) = v ! (k - 1)" by (simp only: nth_append_length_plus)
    ultimately show ?thesis using that by (simp add: P_def nth_append)
  qed
  have high: "lt (u ! (s - 1)) (v ! k)" if "0 < s" "k < length v"
  proof -
    have "lo < s" using that sb u(2) v(2) by (auto simp: lo_def k_def split: if_splits)
    with bd have "\<not> P (s - 1)" by blast
    moreover have "?mid + ?m - 1 - (s - 1) = ?m + k" using that sb by (simp add: k_def)
    moreover have "s - 1 < ?m" using that sb by linarith
    ultimately have "\<not> lt (v ! k) (u ! (s - 1))" by (simp add: P_def nth_append)
    then show ?thesis using tot by blast
  qed
  show "lt x y" if x: "x \<in> set (take s u)" and y: "y \<in> set (drop k v)"
  proof -
    have "0 < s" using x by (cases s) auto
    moreover have "k < length v" using y by (cases "k < length v") auto
    ultimately have "0 < s" "k < length v" by auto
    then have "lt x (u ! (s - 1))" "lt (v ! k) y"
      using sorted_wrt_last_le[OF tr refl u(1), of "s - 1" x] sorted_wrt_first_le[OF refl v(1) y] x sb
      by auto
    with high[OF \<open>0 < s\<close> \<open>k < length v\<close>] show ?thesis using transpD[OF tr] by blast
  qed
  show "lt x y" if x: "x \<in> set (take k v)" and y: "y \<in> set (drop s u)"
  proof -
    have "0 < k" using x by (cases k) auto
    moreover have "s < ?m" using y by (cases "s < ?m") auto
    ultimately have "0 < k" "s < ?m" by auto
    then have "lt x (v ! (k - 1))" "lt (u ! s) y"
      using sorted_wrt_last_le[OF tr refl v(1), of "k - 1" x] sorted_wrt_first_le[OF refl u(1) y] x sb
      by auto
    with low[OF \<open>0 < k\<close> \<open>s < ?m\<close>] show ?thesis using transpD[OF tr] by blast
  qed
qed

lemma insert_at_border_sorted:
  assumes tot: "\<And>x y. lt x y \<or> lt y x" and tr: "transp lt" and xs: "sorted_wrt lt xs"
    and i: "i \<le> length xs" "0 < i \<Longrightarrow> lt (xs ! (i - 1)) x" "i < length xs \<Longrightarrow> lt x (xs ! i)"
  shows "sorted_wrt lt (take i xs @ [x] @ drop i xs)"
proof -
  have refl: "lt x x" for x using tot by blast
  have "lt y x" if "y \<in> set (take i xs)" for y
    using sorted_wrt_last_le[OF tr refl xs, of "i - 1" y] that i(1,2) transpD[OF tr]
    by (cases i) auto
  moreover have "lt x y" if "y \<in> set (drop i xs)" for y
    using sorted_wrt_first_le[OF refl xs that] that i(3) transpD[OF tr]
    by (cases "i < length xs") auto
  moreover have "sorted_wrt lt (take i xs)" "sorted_wrt lt (drop i xs)"
    and "\<forall>y \<in> set (take i xs). \<forall>z \<in> set (drop i xs). lt y z"
    using xs by (metis append_take_drop_id sorted_wrt_append)+
  ultimately show ?thesis by (auto simp: sorted_wrt_append)
qed

lemma sym_merge_sorted:
  assumes tot: "\<And>x y. lt x y \<or> lt y x" and tr: "transp lt"
  shows "sorted_wrt lt u \<Longrightarrow> sorted_wrt lt v \<Longrightarrow> sorted_wrt lt (sym_merge lt u v)"
  using assms
proof (induction lt u v rule: sym_merge.induct)
  case (1 lt u v)
  consider (none) "u = [] \<or> v = []" | (left) "u \<noteq> []" "v \<noteq> []" "length u = 1"
    | (right) "u \<noteq> []" "v \<noteq> []" "length u \<noteq> 1" "length v = 1"
    | (split) "u \<noteq> []" "v \<noteq> []" "length u \<noteq> 1" "length v \<noteq> 1" by blast
  then show ?case
  proof cases
    case none
    then show ?thesis using 1(3,4) by (subst sym_merge.simps) auto
  next
    case left
    then obtain x where x: "u = [x]" by (cases u) auto
    define P where "P = (\<lambda>i. \<not> lt (v ! i) x)"
    have "sym_merge lt u v = take (bsearch P 0 (length v)) v @ [x] @ drop (bsearch P 0 (length v)) v"
      using left x by (subst sym_merge.simps) (simp add: P_def Let_def)
    moreover have "sorted_wrt lt \<dots>"
      by (rule insert_at_border_sorted[OF 1(5,6,4)])
        (use bsearch_bounds[of 0 "length v" P] bsearch_border[of 0 "length v" P] 1(5) in
          \<open>auto simp: P_def\<close>)
    ultimately show ?thesis by simp
  next
    case right
    then obtain y where y: "v = [y]" by (cases v) auto
    define P where "P = (\<lambda>i. lt y (u ! i))"
    have "sym_merge lt u v = take (bsearch P 0 (length u)) u @ [y] @ drop (bsearch P 0 (length u)) u"
      using right y by (subst sym_merge.simps) (simp add: P_def Let_def)
    moreover have "sorted_wrt lt \<dots>"
      by (rule insert_at_border_sorted[OF 1(5,6,3)])
        (use bsearch_bounds[of 0 "length u" P] bsearch_border[of 0 "length u" P] 1(5) in
          \<open>auto simp: P_def\<close>)
    ultimately show ?thesis by simp
  next
    case split
    define s where "s = sym_start lt u v"
    define k where "k = (length u + length v) div 2 - s"
    have l: "2 \<le> length u" "2 \<le> length v" using split by (cases u; cases v; force simp: Suc_le_eq)+
    have eq: "sym_merge lt u v =
        sym_merge lt (take s u) (take k v) @ sym_merge lt (drop s u) (drop k v)"
      using split by (subst sym_merge.simps) (simp add: s_def k_def Let_def)
    have tk: "sorted_wrt lt (take i xs)" "sorted_wrt lt (drop i xs)" 
      and cr: "\<forall>y \<in> set (take i xs). \<forall>z \<in> set (drop i xs). lt y z" if "sorted_wrt lt xs" for i xs
      using that by (metis append_take_drop_id sorted_wrt_append)+
    have IH: "sorted_wrt lt (sym_merge lt (take s u) (take k v))"
      "sorted_wrt lt (sym_merge lt (drop s u) (drop k v))"
      using 1(1)[OF _ split(3,4) s_def k_def tk(1)[OF 1(3)] tk(1)[OF 1(4)] 1(5,6)]
        1(2)[OF _ split(3,4) s_def k_def tk(2)[OF 1(3)] tk(2)[OF 1(4)] 1(5,6)] split(1,2)
      by simp_all
    have st: "set (sym_merge lt a b) = set a \<union> set b" for a b
      by (metis mset_sym_merge set_mset_mset set_mset_union)
    have "lt x y" if "x \<in> set (take s u) \<union> set (take k v)" "y \<in> set (drop s u) \<union> set (drop k v)" for x y
      using that cr[OF 1(3)] cr[OF 1(4)]
        sym_start_split[OF 1(5,6,3) l(1) 1(4) l(2), folded s_def, folded k_def] by auto
    with IH eq st show ?thesis by (auto simp: sorted_wrt_append)
  qed
qed

lemma merge_pairs_sorted:
  assumes "\<And>x y. lt x y \<or> lt y x" and "transp lt" and "list_all (sorted_wrt lt) bs"
  shows "list_all (sorted_wrt lt) (merge_pairs lt bs)"
  using assms by (induction lt bs rule: merge_pairs.induct) (auto simp: sym_merge_sorted)

lemma merge_all_sorted:
  assumes "\<And>x y. lt x y \<or> lt y x" and "transp lt" and "list_all (sorted_wrt lt) bs"
  shows "sorted_wrt lt (merge_all lt bs)"
  using assms
proof (induction lt bs rule: merge_all.induct)
  case (1 lt bs)
  show ?case
  proof (cases "length bs \<le> 1")
    case True
    then obtain b where "bs = [] \<or> bs = [b]" by (cases bs) (auto simp: le_Suc_eq)
    with 1(4) show ?thesis by (subst merge_all.simps) auto
  next
    case False
    with 1(1)[OF False 1(2,3) merge_pairs_sorted[OF 1(2-4)]] show ?thesis
      by (subst merge_all.simps) simp
  qed
qed

lemma slice_stable_sorted:
  assumes "\<And>x y. lt x y \<or> lt y x" and "transp lt"
  shows "sorted_wrt lt (slice_stable lt xs)"
  unfolding slice_stable_def
  by (rule merge_all_sorted[OF assms]) (simp add: list_all_iff insertion_sort_sorted[OF assms])

end
