(* ===== verification/ChartRepository.thy ===== *)
theory ChartRepository
  imports Repository Transport GoSort
begin

text \<open>
  Helm chart repositories over HTTP (\<open>internal/helm/repository/chart_repository.go\<close>): loading
  and pruning of an index, the life of the index between memory, file and server, the choice of
  a chart version, and downloads.

  Each method is the code it runs under the lock of the repository, so methods of one
  repository are atomic here. A method that changes the repository returns it beside its own
  result, on errors too.
\<close>

section \<open>Parameters\<close>

text \<open>
  Helm's and the YAML library's functions are parameters. A client is a number; what it answers
  may depend on the time of the request. \<open>ByScheme\<close> finds the client among the configured
  providers.
\<close>

datatype getter_option =
    WithURL string
  | WithTimeout nat
  | WithPassCredentialsAll bool
  | WithBasicAuth string string
  | WithTransport transport
  | WithRegistryClient nat

record ext =
  yaml_index :: "string \<Rightarrow> go_error + raw_index"
  md_Validate :: "metadata \<Rightarrow> go_error option"
  sort_versions :: "chart_version list \<Rightarrow> chart_version list"
  ResolveReferenceURL :: "string \<Rightarrow> string \<Rightarrow> go_error + string"
  ByScheme :: "string \<Rightarrow> go_error + nat"
  getter_Get :: "nat \<Rightarrow> nat \<Rightarrow> string \<Rightarrow> getter_option list \<Rightarrow> go_error + string"
  digest_FromReader :: "string \<Rightarrow> string \<Rightarrow> go_error + string"

definition ErrEmptyIndexYaml :: go_error where
  "ErrEmptyIndexYaml = Sentinel ''empty index.yaml file''"

definition ErrNoAPIVersion :: go_error where
  "ErrNoAPIVersion = Sentinel ''no API version specified''"

definition ErrNoChartName :: go_error where
  "ErrNoChartName = Sentinel ''no chart name found''"

definition ErrNoChartVersion :: go_error where
  "ErrNoChartVersion = Sentinel ''no chart version found''"

definition ErrNoChartIndex :: go_error where
  "ErrNoChartIndex = Sentinel ''no chart index''"

definition APIVersionV1 :: string where
  "APIVersionV1 = ''v1''"

definition MaxIndexSize :: nat where
  "MaxIndexSize = 52428800"

section \<open>Loading an index\<close>

text \<open>
  The loop over the entries of one chart, from the last to the first, with removal by slices;
  \<open>i\<close> is the number of entries still to visit.
\<close>

definition with_defaults :: "string \<Rightarrow> metadata \<Rightarrow> metadata" where
  "with_defaults key m =
     (let m1 = (if md_Name m = '''' then m\<lparr>md_Name := key\<rparr> else m) in
      if md_APIVersion m1 = '''' then m1\<lparr>md_APIVersion := APIVersionV1\<rparr> else m1)"

fun prune_loop ::
    "(metadata \<Rightarrow> go_error option) \<Rightarrow> string \<Rightarrow> nat \<Rightarrow> raw_chart_version option list \<Rightarrow>
     raw_chart_version option list" where
  "prune_loop validate key 0 cvs = cvs"
| "prune_loop validate key (Suc i) cvs =
     (case cvs ! i of
        None \<Rightarrow> prune_loop validate key i (take i cvs @ drop (Suc i) cvs)
      | Some cv \<Rightarrow>
          (case rcv_Metadata cv of
             None \<Rightarrow> prune_loop validate key i (take i cvs @ drop (Suc i) cvs)
           | Some m \<Rightarrow>
               (let m' = with_defaults key m; cvs' = cvs[i := Some (cv\<lparr>rcv_Metadata := Some m'\<rparr>)] in
                if validate m' \<noteq> None
                then prune_loop validate key i (take i cvs' @ drop (Suc i) cvs')
                else prune_loop validate key i cvs')))"

definition prune_entries ::
    "(metadata \<Rightarrow> go_error option) \<Rightarrow> string \<Rightarrow> raw_chart_version option list \<Rightarrow>
     raw_chart_version option list" where
  "prune_entries validate key cvs = prune_loop validate key (length cvs) cvs"

text \<open>After the loop no entry and no metadata is nil any more.\<close>

definition cooked :: "raw_chart_version option \<Rightarrow> chart_version option" where
  "cooked r = Option.bind r (\<lambda>cv. map_option (\<lambda>m.
     \<lparr>cv_Metadata = m, cv_URLs = rcv_URLs cv, cv_Created = rcv_Created cv\<rparr>) (rcv_Metadata cv))"

definition IndexFromBytes :: "ext \<Rightarrow> string \<Rightarrow> go_error + index_file" where
  "IndexFromBytes x b =
     (if b = '''' then Inl ErrEmptyIndexYaml
      else
        bindE (yaml_index x b) (\<lambda>i.
        if raw_APIVersion i = '''' then Inl ErrNoAPIVersion
        else Inr \<lparr>idx_APIVersion = raw_APIVersion i,
                  Entries = map (\<lambda>(key, cvs).
                    (key, sort_versions x (List.map_filter cooked (prune_entries (md_Validate x) key cvs))))
                    (raw_Entries i)\<rparr>))"

definition IndexFromFile :: "ext \<Rightarrow> string \<Rightarrow> index_file io" where
  "IndexFromFile x path =
     io_bind (os_lstat path) (\<lambda>st.
     if \<not> node_is_regular st then io_fail (ErrorString (path @ '' is not a regular file''))
     else if node_size st > MaxIndexSize
       then io_fail (ErrorString (path @ '' exceeds the maximum index file size of '' @
              dec_of_nat MaxIndexSize @ '' bytes''))
     else io_bind (os_ReadFile path) (\<lambda>b. io_lift (IndexFromBytes x b)))"

section \<open>The repository\<close>

record chart_repository =
  cr_URL :: string
  cr_Path :: string
  cr_Index :: "index_file option"
  cr_Client :: nat
  cr_Options :: "getter_option list"
  cr_tlsConfig :: "tls_config option"
  cached :: bool
  digests :: "string \<rightharpoonup> string"

definition newChartRepository :: chart_repository where
  "newChartRepository =
     \<lparr>cr_URL = '''', cr_Path = '''', cr_Index = None, cr_Client = 0, cr_Options = [],
      cr_tlsConfig = None, cached = False, digests = Map.empty\<rparr>"

definition NewChartRepository ::
    "ext \<Rightarrow> string \<Rightarrow> string \<Rightarrow> tls_config option \<Rightarrow> getter_option list \<Rightarrow> go_error + chart_repository" where
  "NewChartRepository x URL path tlsConfig getterOpts =
     bindE (url_Parse URL) (\<lambda>u.
     bindE (ByScheme x (Scheme u)) (\<lambda>c.
     Inr (newChartRepository\<lparr>cr_URL := URL, cr_Path := path, cr_Client := c,
            cr_Options := getterOpts, cr_tlsConfig := tlsConfig\<rparr>)))"

definition invalidate :: "chart_repository \<Rightarrow> chart_repository" where
  "invalidate r = r\<lparr>digests := Map.empty\<rparr>"

definition Invalidate :: "chart_repository \<Rightarrow> chart_repository" where
  "Invalidate r = invalidate r"

definition HasIndex :: "chart_repository \<Rightarrow> bool" where
  "HasIndex r = (cr_Index r \<noteq> None)"

definition HasFile :: "chart_repository \<Rightarrow> bool io" where
  "HasFile r =
     (if cr_Path r \<noteq> '''' then
        io_try (os_lstat (cr_Path r)) (\<lambda>s. case s of
          Inr st \<Rightarrow> io_return (node_is_regular st) | Inl _ \<Rightarrow> io_return False)
      else io_return False)"

text \<open>A request through the client: one tick of the clock, no other effect.\<close>

definition client_Get :: "ext \<Rightarrow> nat \<Rightarrow> string \<Rightarrow> getter_option list \<Rightarrow> string io" where
  "client_Get x c url opts w =
     (getter_Get x c (clock w) url opts, w\<lparr>clock := Suc (clock w)\<rparr>)"

definition index_url :: "url \<Rightarrow> url" where
  "index_url u = u\<lparr>RawPath := path_join [RawPath u, ''index.yaml''],
                   u_Path := path_join [u_Path u, ''index.yaml'']\<rparr>"

definition DownloadIndex :: "ext \<Rightarrow> chart_repository \<Rightarrow> string \<Rightarrow> unit io" where
  "DownloadIndex x r out =
     io_bind (io_lift (url_Parse (cr_URL r))) (\<lambda>u.
     with_transport (cr_tlsConfig r) (\<lambda>t.
       io_bind (client_Get x (cr_Client r) (url_String (index_url u)) (cr_Options r @ [WithTransport t]))
         (\<lambda>res. os_write out res)))"

definition cache_index_to :: "ext \<Rightarrow> chart_repository \<Rightarrow> string \<Rightarrow> (go_error option \<times> chart_repository) io" where
  "cache_index_to x r f =
     io_try (DownloadIndex x r f) (\<lambda>d. case d of
       Inl e \<Rightarrow>
         io_bind (io_drop (os_close f)) (\<lambda>_.
         io_bind (io_drop (os_Remove f)) (\<lambda>_.
         io_return (Some (wrap ''failed to cache index to temporary file'' e), r)))
     | Inr _ \<Rightarrow>
         io_try (os_close f) (\<lambda>c. case c of
           Inl e \<Rightarrow>
             io_bind (io_drop (os_Remove f)) (\<lambda>_.
             io_return (Some (wrap (''failed to close cached index file '' @ [CHR 0x27] @ f @ [CHR 0x27]) e), r))
         | Inr _ \<Rightarrow>
             io_return (None, invalidate (r\<lparr>cr_Path := f, cr_Index := None, cached := True\<rparr>))))"

definition CacheIndex :: "ext \<Rightarrow> chart_repository \<Rightarrow> (go_error option \<times> chart_repository) io" where
  "CacheIndex x r =
     io_try (os_CreateTemp '''' ''chart-index-*.yaml'') (\<lambda>c. case c of
       Inl e \<Rightarrow> io_return (Some (wrap ''failed to create temp file to cache index to'' e), r)
     | Inr f \<Rightarrow> cache_index_to x r f)"

definition LoadFromPath :: "ext \<Rightarrow> chart_repository \<Rightarrow> (go_error option \<times> chart_repository) io" where
  "LoadFromPath x r =
     (if cr_Path r = '''' then io_return (Some (ErrorString ''no cache path''), r)
      else
        io_try (IndexFromFile x (cr_Path r)) (\<lambda>i. case i of
          Inl e \<Rightarrow> io_return (Some (wrap ''failed to load index'' e), r)
        | Inr idx \<Rightarrow> io_return (None, r\<lparr>cr_Index := Some idx\<rparr>)))"

definition load_index :: "ext \<Rightarrow> chart_repository \<Rightarrow> (go_error option \<times> chart_repository) io" where
  "load_index x r =
     io_bind (LoadFromPath x r) (\<lambda>(err, r').
     io_return (map_option (wrap ''failed to load index'') err, r'))"

definition StrategicallyLoadIndex :: "ext \<Rightarrow> chart_repository \<Rightarrow> (go_error option \<times> chart_repository) io" where
  "StrategicallyLoadIndex x r =
     (if HasIndex r then io_return (None, r)
      else
        io_bind (HasFile r) (\<lambda>hf.
        if \<not> hf then
          io_bind (CacheIndex x r) (\<lambda>(err, r1).
          case err of
            Some e \<Rightarrow> io_return (Some (wrap ''failed to cache index'' e), r1)
          | None \<Rightarrow> load_index x r1)
        else load_index x r))"

text \<open>Age of two candidates: by version, and by creation time between equal versions.\<close>

definition older :: "('v, 'c) semver \<Rightarrow> 'v \<times> chart_version \<Rightarrow> 'v \<times> chart_version \<Rightarrow> bool" where
  "older sv left right =
     (if \<not> sv_Equal sv (fst left) (fst right) then sv_LessThan sv (fst left) (fst right)
      else cv_Created (snd left) < cv_Created (snd right))"

definition candidates ::
    "('v, 'c) semver \<Rightarrow> 'c \<Rightarrow> chart_version list \<Rightarrow> ('v \<times> chart_version) list" where
  "candidates sv con cvs =
     List.map_filter (\<lambda>cv.
       case ParseVersion sv (md_Version (cv_Metadata cv)) of
         Inl _ \<Rightarrow> None
       | Inr v \<Rightarrow> if \<not> sv_Check sv con v then None else Some (v, cv)) cvs"

text \<open>The constraint of a version request: any version for none or a star.\<close>

definition version_constraint :: "('v, 'c) semver \<Rightarrow> string \<Rightarrow> go_error + 'c" where
  "version_constraint sv ver =
     bindE (NewConstraint sv ''*'') (\<lambda>star.
     if ver = '''' \<or> ver = ''*'' then Inr star else NewConstraint sv ver)"

definition getChartVersion ::
    "('v, 'c) semver \<Rightarrow> chart_repository \<Rightarrow> string \<Rightarrow> string \<Rightarrow> go_error + chart_version" where
  "getChartVersion sv r name ver =
     (case cr_Index r of
        None \<Rightarrow> Inl ErrNoChartIndex
      | Some idx \<Rightarrow>
          (case map_of (Entries idx) name of
             None \<Rightarrow> Inl ErrNoChartName
           | Some cvs \<Rightarrow>
               if cvs = [] then Inl ErrNoChartVersion
               else
                 (case (if ver \<noteq> '''' then find (\<lambda>cv. ver = md_Version (cv_Metadata cv)) cvs else None) of
                    Some cv \<Rightarrow> Inr cv
                  | None \<Rightarrow>
                      bindE (version_constraint sv ver) (\<lambda>con.
                      let matched = candidates sv con cvs in
                      if matched = [] then
                        Inl (ErrorString (''no '' @ [CHR 0x27] @ name @ [CHR 0x27] @
                          '' chart with version matching '' @ [CHR 0x27] @ ver @ [CHR 0x27] @ '' found''))
                      else Inr (snd (hd (slice_stable (\<lambda>a b. \<not> older sv a b) matched)))))))"

definition GetChartVersion ::
    "ext \<Rightarrow> ('v, 'c) semver \<Rightarrow> chart_repository \<Rightarrow> string \<Rightarrow> string \<Rightarrow>
     ((go_error + chart_version) \<times> chart_repository) io" where
  "GetChartVersion x sv r name ver =
     io_bind (StrategicallyLoadIndex x r) (\<lambda>(err, r').
     case err of
       Some e \<Rightarrow> io_return (Inl (ErrExternal e), r')
     | None \<Rightarrow> io_return (mapErr ErrReference (getChartVersion sv r' name ver), r'))"

definition no_urls_error :: "chart_version \<Rightarrow> go_error" where
  "no_urls_error cv =
     ErrorString (''chart '' @ [CHR 0x27] @ md_Name (cv_Metadata cv) @ [CHR 0x27] @ '' has no downloadable URLs'')"

definition DownloadChart :: "ext \<Rightarrow> chart_repository \<Rightarrow> chart_version \<Rightarrow> string io" where
  "DownloadChart x r cv =
     (if cv_URLs cv = [] then
        io_fail (no_urls_error cv)
      else
        io_bind (io_lift (ResolveReferenceURL x (cr_URL r) (hd (cv_URLs cv)))) (\<lambda>resolved.
        with_transport (cr_tlsConfig r) (\<lambda>t.
          client_Get x (cr_Client r) resolved (cr_Options r @ [WithTransport t]))))"

text \<open>A missing digest reads as the empty string.\<close>

definition Digest :: "ext \<Rightarrow> chart_repository \<Rightarrow> string \<Rightarrow> (string \<times> chart_repository) io" where
  "Digest x r algorithm =
     io_bind (HasFile r) (\<lambda>hf.
     if \<not> hf then io_return ('''', r)
     else if digests r algorithm \<noteq> None
       then io_return (the (digests r algorithm), r)
     else
       io_try (io_bind (os_open (cr_Path r)) (\<lambda>f.
               io_defer (io_bind (os_read f) (\<lambda>b.
                 io_lift (digest_FromReader x algorithm (take MaxIndexSize b)))) (os_close f))) (\<lambda>d.
         case d of
           Inl _ \<Rightarrow> io_return ('''', r)
         | Inr dg \<Rightarrow> io_return (dg, r\<lparr>digests := (digests r)(algorithm \<mapsto> dg)\<rparr>)))"

definition Clear_repo :: "chart_repository \<Rightarrow> (go_error option \<times> chart_repository) io" where
  "Clear_repo r0 =
     (let r = r0\<lparr>cr_Index := None\<rparr> in
      if cached r then
        io_try (os_Remove (cr_Path r)) (\<lambda>d. case d of
          Inl e \<Rightarrow> io_return (Some (wrap ''failed to remove cached index'' e), r)
        | Inr _ \<Rightarrow> io_return (None, invalidate (r\<lparr>cr_Path := '''', cached := False\<rparr>)))
      else io_return (None, invalidate r))"

definition VerifyChart_http :: "chart_repository \<Rightarrow> chart_version \<Rightarrow> go_error option" where
  "VerifyChart_http r cv = Some (ErrorString ''not implemented'')"

section \<open>Pruning is filtering\<close>

text \<open>What the loop makes of one entry, as a function of that entry.\<close>

definition accept_entry ::
    "(metadata \<Rightarrow> go_error option) \<Rightarrow> string \<Rightarrow> raw_chart_version option \<Rightarrow> chart_version option" where
  "accept_entry validate key r =
     (case cooked r of
        None \<Rightarrow> None
      | Some cv \<Rightarrow>
          let m = with_defaults key (cv_Metadata cv) in
          if validate m = None then Some (cv\<lparr>cv_Metadata := m\<rparr>) else None)"

definition prune_one ::
    "(metadata \<Rightarrow> go_error option) \<Rightarrow> string \<Rightarrow> raw_chart_version option \<Rightarrow> raw_chart_version option list" where
  "prune_one validate key r =
     (case r of None \<Rightarrow> []
      | Some cv \<Rightarrow> (case rcv_Metadata cv of None \<Rightarrow> []
          | Some m \<Rightarrow> if validate (with_defaults key m) \<noteq> None then []
              else [Some (cv\<lparr>rcv_Metadata := Some (with_defaults key m)\<rparr>)]))"

lemma prune_loop_eq:
  "i \<le> length cvs \<Longrightarrow>
   prune_loop validate key i cvs = concat (map (prune_one validate key) (take i cvs)) @ drop i cvs"
proof (induction i arbitrary: cvs)
  case (Suc i)
  then have i: "i < length cvs" by simp
  have tk: "take (Suc i) cvs = take i cvs @ [cvs ! i]" using i by (simp add: take_Suc_conv_app_nth)
  have dr: "drop i (cvs[i := a]) = a # drop (Suc i) cvs" for a
    using i by (simp add: drop_update_swap Cons_nth_drop_Suc[symmetric])
  show ?case
    using Suc i tk by (auto simp: prune_one_def Let_def dr split: option.splits)
qed simp

lemma map_filter_concat:
  "List.map_filter f (concat xs) = concat (map (List.map_filter f) xs)"
  by (induction xs) (auto simp: map_filter_def)

text \<open>
  C18. The loop that walks backwards over the entries of a chart, removing as it goes, is a
  filter: of the entries in their order it keeps those that are not nil, have metadata, and
  are valid once the missing name and API version are filled in; no entry is skipped and none
  is visited twice.
\<close>

theorem index_pruning_is_a_filter:
  "List.map_filter cooked (prune_entries validate key cvs) =
   List.map_filter (accept_entry validate key) cvs"
proof -
  have one: "List.map_filter cooked (prune_one validate key r) =
      (case accept_entry validate key r of None \<Rightarrow> [] | Some c \<Rightarrow> [c])" for r
    by (auto simp: prune_one_def accept_entry_def cooked_def map_filter_def Let_def
        split: option.splits)
  have "List.map_filter cooked (prune_entries validate key cvs) =
      concat (map (\<lambda>r. List.map_filter cooked (prune_one validate key r)) cvs)"
    by (simp add: prune_entries_def prune_loop_eq map_filter_concat o_def)
  also have "\<dots> = List.map_filter (accept_entry validate key) cvs"
    unfolding one by (induction cvs) (auto simp: map_filter_def split: option.splits)
  finally show ?thesis .
qed

section \<open>The version that is chosen\<close>

lemma older_order:
  assumes "semver_order sv"
  shows "\<not> older sv a b \<or> \<not> older sv b a" and "transp (\<lambda>a b. \<not> older sv a b)"
proof -
  note o = assms[unfolded semver_order_def]
  have eq: "sv_Equal sv x y \<longleftrightarrow> \<not> sv_LessThan sv x y \<and> \<not> sv_LessThan sv y x"
    and tr: "sv_LessThan sv x y \<Longrightarrow> sv_LessThan sv y z \<Longrightarrow> sv_LessThan sv x z"
    and as: "sv_LessThan sv x y \<Longrightarrow> \<not> sv_LessThan sv y x"
    and eqt: "sv_Equal sv x y \<Longrightarrow> sv_Equal sv y z \<Longrightarrow> sv_Equal sv x z" for x y z
    using o by blast+
  show "\<not> older sv a b \<or> \<not> older sv b a"
    using as[of "fst a" "fst b"] eq[of "fst a" "fst b"] eq[of "fst b" "fst a"]
    unfolding older_def by (cases "sv_Equal sv (fst a) (fst b)") auto
  have neg: "\<not> sv_LessThan sv x y \<Longrightarrow> \<not> sv_LessThan sv y z \<Longrightarrow> \<not> sv_LessThan sv x z" for x y z
  proof
    assume n: "\<not> sv_LessThan sv x y" "\<not> sv_LessThan sv y z" and l: "sv_LessThan sv x z"
    have "\<not> sv_LessThan sv y x" using tr l n(2) by blast
    with n(1) have 1: "sv_Equal sv x y" using eq by blast
    have "\<not> sv_LessThan sv z y" using tr l n(1) by blast
    with n(2) have 2: "sv_Equal sv y z" using eq by blast
    from eqt[OF 1 2] l show False using eq by blast
  qed
  show "transp (\<lambda>a b. \<not> older sv a b)"
  proof (rule transpI)
    fix a b c
    assume ab: "\<not> older sv a b" and bc: "\<not> older sv b c"
    then have "\<not> sv_LessThan sv (fst a) (fst b)" "\<not> sv_LessThan sv (fst b) (fst c)"
      using eq[of "fst a" "fst b"] eq[of "fst b" "fst c"] unfolding older_def by presburger+
    then have ac: "\<not> sv_LessThan sv (fst a) (fst c)" by (rule neg)
    show "\<not> older sv a c"
    proof (cases "sv_Equal sv (fst a) (fst c)")
      case False
      with ac show ?thesis by (simp add: older_def)
    next
      case True
      then have "sv_Equal sv (fst a) (fst b)" "sv_Equal sv (fst b) (fst c)"
        using eq neg \<open>\<not> sv_LessThan sv (fst a) (fst b)\<close> \<open>\<not> sv_LessThan sv (fst b) (fst c)\<close>
        by meson+
      with ab bc True show ?thesis by (simp add: older_def)
    qed
  qed
qed

lemma newest_first:
  assumes "semver_order sv" and "p \<in> set ps"
  shows "\<not> older sv (hd (slice_stable (\<lambda>a b. \<not> older sv a b) ps)) p"
proof -
  let ?lt = "\<lambda>a b. \<not> older sv a b" and ?xs = "slice_stable (\<lambda>a b. \<not> older sv a b) ps"
  have tot: "?lt x y \<or> ?lt y x" for x y by (rule older_order(1)[OF assms(1)])
  have s: "sorted_wrt ?lt ?xs"
    by (rule slice_stable_sorted[OF tot older_order(2)[OF assms(1)]])
  have p: "p \<in> set ?xs" using assms(2) by simp
  then obtain y ys where y: "?xs = y # ys" by (cases ?xs) auto
  show ?thesis
  proof (cases "p = y")
    case True
    with y tot[of y y] show ?thesis by simp
  next
    case False
    with y s p show ?thesis by simp
  qed
qed

lemma candidates_iff:
  "(v, cv) \<in> set (candidates sv con cvs) \<longleftrightarrow>
   cv \<in> set cvs \<and> ParseVersion sv (md_Version (cv_Metadata cv)) = Inr v \<and> sv_Check sv con v"
  by (induction cvs) (auto simp: candidates_def map_filter_def split: sum.splits if_splits)

text \<open>
  The specification of the choice, written out over the entries of the index and independent of
  the routine. An entry satisfies a request if its version parses and passes the check of the
  constraint that the request parses to, an empty request being a star. \<open>chosen\<close>: the first
  entry with exactly the version asked for; if there is none, an entry that satisfies the
  request, such that no entry that satisfies it has a higher version, or an equal one and a
  later time of creation. \<open>none_matches\<close>: the chart is missing, or it has no entry with exactly
  the version asked for and none that satisfies the request (or the library cannot parse a star).
\<close>

abbreviation entry_version :: "chart_version \<Rightarrow> string" where
  "entry_version cv \<equiv> md_Version (cv_Metadata cv)"

definition satisfies :: "('v, 'c) semver \<Rightarrow> string \<Rightarrow> chart_version \<Rightarrow> 'v \<Rightarrow> bool" where
  "satisfies sv ver cv v \<longleftrightarrow>
     (\<exists>con. NewConstraint sv (if ver = '''' then ''*'' else ver) = Inr con \<and>
        ParseVersion sv (entry_version cv) = Inr v \<and> sv_Check sv con v)"

definition chosen :: "('v, 'c) semver \<Rightarrow> index_file \<Rightarrow> string \<Rightarrow> string \<Rightarrow> chart_version \<Rightarrow> bool" where
  "chosen sv idx name ver cv \<longleftrightarrow>
     (\<exists>cvs. map_of (Entries idx) name = Some cvs \<and> cv \<in> set cvs \<and>
        (if ver \<noteq> '''' \<and> ver \<in> entry_version ` set cvs then
           \<exists>pre post. cvs = pre @ cv # post \<and> entry_version cv = ver \<and> ver \<notin> entry_version ` set pre
         else
           \<exists>v. satisfies sv ver cv v \<and>
             (\<forall>c \<in> set cvs. \<forall>u. satisfies sv ver c u \<longrightarrow>
                \<not> sv_LessThan sv v u \<and> \<not> (sv_Equal sv v u \<and> cv_Created cv < cv_Created c))))"

definition none_matches :: "('v, 'c) semver \<Rightarrow> index_file \<Rightarrow> string \<Rightarrow> string \<Rightarrow> bool" where
  "none_matches sv idx name ver \<longleftrightarrow>
     (\<forall>cvs. map_of (Entries idx) name = Some cvs \<longrightarrow>
        (ver = '''' \<or> ver \<notin> entry_version ` set cvs) \<and>
        ((\<exists>e. NewConstraint sv ''*'' = Inl e) \<or> (\<forall>c \<in> set cvs. \<forall>u. \<not> satisfies sv ver c u)))"

definition exact_entry :: "string \<Rightarrow> chart_version list \<Rightarrow> chart_version option" where
  "exact_entry ver cvs =
     (if ver \<noteq> '''' then find (\<lambda>cv. ver = entry_version cv) cvs else None)"

lemma exact_entry_None: "exact_entry ver cvs = None \<longleftrightarrow> ver = '''' \<or> ver \<notin> entry_version ` set cvs"
  by (auto simp: exact_entry_def find_None_iff)

lemma exact_entry_Some:
  assumes "exact_entry ver cvs = Some cv"
  shows "cv \<in> set cvs" and "ver \<noteq> ''''" and "ver \<in> entry_version ` set cvs"
    and "\<exists>pre post. cvs = pre @ cv # post \<and> entry_version cv = ver \<and> ver \<notin> entry_version ` set pre"
proof -
  show ne: "ver \<noteq> ''''" using assms by (auto simp: exact_entry_def)
  with assms obtain i where i: "i < length cvs" "entry_version (cvs ! i) = ver" "cv = cvs ! i"
    and first: "\<forall>j < i. ver \<noteq> entry_version (cvs ! j)"
    by (auto simp: exact_entry_def find_Some_iff)
  then show "cv \<in> set cvs" "ver \<in> entry_version ` set cvs" by auto
  have "ver \<notin> entry_version ` set (take i cvs)" using i(1) first
    by (fastforce simp: in_set_conv_nth)
  with i show "\<exists>pre post. cvs = pre @ cv # post \<and> entry_version cv = ver \<and> ver \<notin> entry_version ` set pre"
    by (metis id_take_nth_drop)
qed

lemma satisfies_iff:
  "version_constraint sv ver = Inr con \<Longrightarrow> satisfies sv ver cv v \<longleftrightarrow>
     ParseVersion sv (entry_version cv) = Inr v \<and> sv_Check sv con v"
  by (auto simp: satisfies_def version_constraint_def bindE_Inr_iff split: if_splits)

lemma satisfies_Inl:
  "version_constraint sv ver = Inl e \<Longrightarrow> (\<exists>e. NewConstraint sv ''*'' = Inl e) \<or> \<not> satisfies sv ver cv v"
  by (auto simp: satisfies_def version_constraint_def bindE_Inl_iff split: if_splits)

lemma newest_candidate:
  assumes "semver_order sv" and "candidates sv con cvs \<noteq> []"
  obtains v cv where "hd (slice_stable (\<lambda>a b. \<not> older sv a b) (candidates sv con cvs)) = (v, cv)"
    and "(v, cv) \<in> set (candidates sv con cvs)" and "\<forall>p \<in> set (candidates sv con cvs). \<not> older sv (v, cv) p"
proof -
  let ?m = "candidates sv con cvs"
  define h where "h = hd (slice_stable (\<lambda>a b. \<not> older sv a b) ?m)"
  have "h \<in> set ?m" using assms(2) by (metis h_def hd_in_set set_slice_stable slice_stable_Nil_iff)
  moreover obtain v cv where "h = (v, cv)" by (rule prod.exhaust)
  ultimately show ?thesis using that newest_first[OF assms(1)] by (metis h_def)
qed

lemma newest_is_chosen:
  assumes "semver_order sv" and "\<forall>p \<in> set (candidates sv con cvs). \<not> older sv (v, cv) p"
    and "c \<in> set cvs" and "ParseVersion sv (entry_version c) = Inr u" and "sv_Check sv con u"
  shows "\<not> sv_LessThan sv v u" and "\<not> (sv_Equal sv v u \<and> cv_Created cv < cv_Created c)"
proof -
  have "(u, c) \<in> set (candidates sv con cvs)" using assms(3-5) by (simp add: candidates_iff)
  with assms(2) have "\<not> older sv (v, cv) (u, c)" by blast
  moreover have "sv_Equal sv v u \<Longrightarrow> \<not> sv_LessThan sv v u"
    using assms(1) unfolding semver_order_def by blast
  ultimately show "\<not> sv_LessThan sv v u" "\<not> (sv_Equal sv v u \<and> cv_Created cv < cv_Created c)"
    by (auto simp: older_def split: if_splits)
qed

lemma no_candidate:
  assumes "map_of (Entries idx) name = Some cvs" and "exact_entry ver cvs = None"
    and "version_constraint sv ver = Inr con" and "candidates sv con cvs = []"
  shows "none_matches sv idx name ver"
proof -
  have "\<not> satisfies sv ver c u" if "c \<in> set cvs" for c u
    using that assms(4) candidates_iff[of u c sv con cvs] by (auto simp: satisfies_iff[OF assms(3)])
  then show ?thesis using assms(1,2) unfolding none_matches_def exact_entry_None by auto
qed

lemma first_candidate:
  assumes "semver_order sv" and "map_of (Entries idx) name = Some cvs" and "exact_entry ver cvs = None"
    and "version_constraint sv ver = Inr con" and "candidates sv con cvs \<noteq> []"
  shows "chosen sv idx name ver (snd (hd (slice_stable (\<lambda>a b. \<not> older sv a b) (candidates sv con cvs))))"
proof -
  let ?m = "candidates sv con cvs"
  note sat = satisfies_iff[OF assms(4)]
  obtain v cv where h: "hd (slice_stable (\<lambda>a b. \<not> older sv a b) ?m) = (v, cv)" "(v, cv) \<in> set ?m"
    and first: "\<forall>p \<in> set ?m. \<not> older sv (v, cv) p" using newest_candidate[OF assms(1,5)] .
  have v: "cv \<in> set cvs" "satisfies sv ver cv v" using h(2) by (simp_all add: sat candidates_iff)
  have "\<not> sv_LessThan sv v u \<and> \<not> (sv_Equal sv v u \<and> cv_Created cv < cv_Created c)"
    if "c \<in> set cvs" "satisfies sv ver c u" for c u
    using that newest_is_chosen[OF assms(1) first that(1)] unfolding sat by blast
  with v h(1) assms(2,3) show ?thesis unfolding chosen_def exact_entry_None by auto
qed

text \<open>
  C17. With the index loaded, the repository answers a version request with the entry the
  specification chooses, or with an error, and with an error only when nothing matches. The
  order of versions is a strict one, as \<open>Masterminds/semver\<close> documents; the comparison handed
  to the sort is its negation, which is no strict order, yet the newest candidate still comes
  first.
\<close>

theorem newest_matching_version:
  assumes "semver_order sv" and "cr_Index r = Some idx"
  shows "case getChartVersion sv r name ver of
     Inr cv \<Rightarrow> chosen sv idx name ver cv
   | Inl e \<Rightarrow> none_matches sv idx name ver"
proof (cases "map_of (Entries idx) name")
  case None
  with assms(2) show ?thesis by (simp add: getChartVersion_def none_matches_def)
next
  case cvs: (Some cvs)
  note get = getChartVersion_def[of sv r name ver, folded exact_entry_def, unfolded assms(2) option.case cvs]
  consider "cvs = []" | cv where "cvs \<noteq> []" "exact_entry ver cvs = Some cv"
    | e where "cvs \<noteq> []" "exact_entry ver cvs = None" "version_constraint sv ver = Inl e"
    | con where "cvs \<noteq> []" "exact_entry ver cvs = None" "version_constraint sv ver = Inr con"
    by (cases "exact_entry ver cvs"; cases "version_constraint sv ver") blast+
  then show ?thesis
  proof cases
    case 1
    with cvs assms(2) show ?thesis by (auto simp: getChartVersion_def none_matches_def)
  next
    case (2 cv)
    from exact_entry_Some[OF 2(2)] 2 cvs show ?thesis by (simp add: get chosen_def)
  next
    case (3 e)
    then have "none_matches sv idx name ver"
      using cvs satisfies_Inl[OF 3(3)] unfolding none_matches_def exact_entry_None by auto
    with 3 show ?thesis by (simp add: get)
  next
    case (4 con)
    show ?thesis
    proof (cases "candidates sv con cvs = []")
      case True
      with 4 no_candidate[OF cvs 4(2,3)] show ?thesis by (simp add: get)
    next
      case False
      with 4 first_candidate[OF assms(1) cvs 4(2,3)] show ?thesis by (simp add: get)
    qed
  qed
qed

definition sample_entry :: "string \<Rightarrow> int \<Rightarrow> chart_version" where
  "sample_entry ver created =
     \<lparr>cv_Metadata = \<lparr>md_Name = ''app'', md_Version = ver, md_APIVersion = ''v1'', md_Dependencies = []\<rparr>,
      cv_URLs = [''app-'' @ ver @ ''.tgz''], cv_Created = created\<rparr>"

definition sample_index :: index_file where
  "sample_index =
     \<lparr>idx_APIVersion = ''v1'',
      Entries = [(''app'', [sample_entry ''7'' 1, sample_entry ''12'' 2, sample_entry ''x'' 3])]\<rparr>"

theorem newest_matching_version_witness:
  "getChartVersion num_semver (newChartRepository\<lparr>cr_Index := Some sample_index\<rparr>) ''app'' '''' =
     Inr (sample_entry ''12'' 2) \<and>
   (case getChartVersion num_semver (newChartRepository\<lparr>cr_Index := Some sample_index\<rparr>) ''app'' '''' of
     Inr cv \<Rightarrow> chosen num_semver sample_index ''app'' '''' cv
   | Inl e \<Rightarrow> none_matches num_semver sample_index ''app'' '''')"
proof
  show "getChartVersion num_semver (newChartRepository\<lparr>cr_Index := Some sample_index\<rparr>) ''app'' '''' =
     Inr (sample_entry ''12'' 2)"
    by code_simp
  show "case getChartVersion num_semver (newChartRepository\<lparr>cr_Index := Some sample_index\<rparr>) ''app'' '''' of
     Inr cv \<Rightarrow> chosen num_semver sample_index ''app'' '''' cv
   | Inl e \<Rightarrow> none_matches num_semver sample_index ''app'' ''''"
    by (rule newest_matching_version) simp_all
qed

text \<open>
  The comparison handed to the sort holds of two equal elements in both directions, so the
  stable sort swaps them: of two entries with equal versions and times the later one wins.
\<close>

lemma equal_candidates_are_swapped:
  "\<not> older sv a b \<Longrightarrow> \<not> older sv b a \<Longrightarrow> slice_stable (\<lambda>a b. \<not> older sv a b) [a, b] = [b, a]"
  by (simp add: slice_stable_def insertion_sort_def blocks.simps merge_all.simps block_size_def)

section \<open>The life of the index\<close>

text \<open>\<open>wrote f w w'\<close>: the file \<open>f\<close>, and nothing else, has been written.\<close>

definition wrote :: "string \<Rightarrow> world \<Rightarrow> world \<Rightarrow> bool" where
  "wrote f w w' \<longleftrightarrow> (\<exists>b. nodes w' = (nodes w)(f := Some (File b)))"

lemma client_Get_keeps [inv_intros]:
  "reads (client_Get x c url opts)" "keeps_env (client_Get x c url opts)"
  by (simp_all add: reads_def keeps_env_def client_Get_def)

lemma NewOrIdle_keeps [inv_intros]:
  "reads (NewOrIdle tc)" "keeps_env (NewOrIdle tc)" "reads (Release t)" "keeps_env (Release t)"
  by (auto simp: reads_def keeps_env_def NewOrIdle_def Release_def pool_Get_def Let_def same_env_def
      split: option.splits)

lemma keeps_env_transport [inv_intros]:
  "(\<And>t. keeps_env (f t)) \<Longrightarrow> keeps_env (with_transport tc f)"
  unfolding with_transport_def by (intro inv_intros)

lemma reads_transport [inv_intros]: "(\<And>t. reads (f t)) \<Longrightarrow> reads (with_transport tc f)"
  unfolding with_transport_def by (intro inv_intros)

lemma keeps_env_DownloadIndex [inv_intros]: "keeps_env (DownloadIndex x r f)"
  unfolding DownloadIndex_def by (intro inv_intros)

lemma write_wrote: "nodes w f = Some (File b) \<Longrightarrow> os_write f d w = (res, w') \<Longrightarrow> wrote f w w'"
  by (auto simp: wrote_def os_write_def append_data_def Let_def split: option.splits)

lemma wrote_trans: "nodes w1 = nodes w \<Longrightarrow> wrote f w1 w' \<Longrightarrow> nodes w'' = nodes w' \<Longrightarrow> wrote f w w''"
  by (simp add: wrote_def)

lemma wrote_same: "nodes w f = Some (File b) \<Longrightarrow> nodes w' = nodes w \<Longrightarrow> wrote f w w'"
  by (auto simp: wrote_def fun_upd_idem intro!: exI[of _ b])

lemma get_write_wrote:
  assumes "nodes w f = Some (File b)" and "reads m" and "io_bind m (os_write f) w = (res, w')"
  shows "wrote f w w'"
  using assms(3)
proof (cases rule: io_bind_cases)
  case (fail e)
  with wrote_same[OF assms(1) readsD[OF assms(2) fail(1)]] show ?thesis by simp
next
  case (ok d w1)
  have w1: "nodes w1 = nodes w" using readsD[OF assms(2) ok(1)] .
  with write_wrote[OF _ ok(2)] assms(1) show ?thesis by (simp add: wrote_def)
qed

lemma DownloadIndex_wrote:
  assumes "nodes w f = Some (File b)" and "DownloadIndex x r f w = (res, w')"
  shows "wrote f w w'"
proof (cases "url_Parse (cr_URL r)")
  case (Inl e)
  with assms show ?thesis by (auto simp: DownloadIndex_def io_defs intro: wrote_same)
next
  case (Inr u)
  let ?g = "\<lambda>t. client_Get x (cr_Client r) (url_String (index_url u)) (cr_Options r @ [WithTransport t])"
  have "io_bind (NewOrIdle (cr_tlsConfig r))
      (\<lambda>t. io_defer (io_bind (?g t) (os_write f)) (Release (Some t))) w = (res, w')"
    using assms(2) Inr by (simp add: DownloadIndex_def with_transport_def io_bind_def io_lift_def)
  then show ?thesis
  proof (cases rule: io_bind_cases)
    case (fail e)
    then show ?thesis by (auto simp: NewOrIdle_def split: prod.splits)
  next
    case (ok t w1)
    have w1: "nodes w1 = nodes w" using ok(1) by (rule readsD[rotated]) (intro inv_intros)
    obtain res2 w2 where g: "io_bind (?g t) (os_write f) w1 = (res2, w2)" by fastforce
    have "wrote f w1 w2"
      using get_write_wrote[OF _ client_Get_keeps(1) g] w1 assms(1) by simp
    moreover have "nodes w' = nodes w2"
      using ok(2) g NewOrIdle_keeps(3)[of "Some t"] by (auto simp: io_defer_def reads_def)
    ultimately show ?thesis using w1 by (auto intro: wrote_trans)
  qed
qed

lemma temp_stem_index: "temp_stem ''chart-index-*.yaml''"
  by (simp add: temp_stem_def temp_pattern_def)

text \<open>
  Downloading an index, when no call fails: either nothing is left on disk and the repository is
  as it was, or there is one new file, which the repository knows as its own.
\<close>

lemma CacheIndex_cases:
  assumes "no_faults w" and "CacheIndex x r w = (res, w')"
  obtains (fail) e where "res = Inr (Some e, r)" and "nodes w' = nodes w"
  | (ok) f b where "res = Inr (None, r\<lparr>cr_Path := f, cr_Index := None, cached := True, digests := Map.empty\<rparr>)"
      and "nodes w f = None" and "path_clean f = f" and "nodes w' = (nodes w)(f := Some (File b))"
  using assms(2)[unfolded CacheIndex_def]
proof (cases rule: io_try_cases)
  case (fail e w1)
  then have "nodes w1 = nodes w"
    by (auto elim: os_CreateTemp_cases[OF _ temp_stem_index])
  with fail that(1) show ?thesis by (auto simp: io_return_def)
next
  case (ok f w1)
  from ok(1) have f: "nodes w f = None" "path_clean f = f" "nodes w1 = (nodes w)(f := Some (File []))"
    by (auto elim: os_CreateTemp_cases[OF _ temp_stem_index])
  have n1: "no_faults w1" using no_faults_step[OF keeps_env_temp(1) ok(1) assms(1)] .
  from ok(2) have "cache_index_to x r f w1 = (res, w')" by simp
  from this[unfolded cache_index_to_def] show ?thesis
  proof (cases rule: io_try_cases)
    case (fail e w2)
    have "wrote f w1 w2" using DownloadIndex_wrote[OF _ fail(1)] f(3) by simp
    then obtain b where w2: "nodes w2 = (nodes w)(f := Some (File b))" using f(3) by (auto simp: wrote_def)
    have n2: "no_faults w2" using no_faults_step[OF keeps_env_DownloadIndex fail(1) n1] .
    let ?w3 = "w2\<lparr>clock := Suc (clock w2)\<rparr>"
    obtain r4 w4 where r4: "os_Remove f ?w3 = (r4, w4)" by fastforce
    have "nodes w4 = nodes w"
      using os_Remove_file[OF _ _ r4] w2 f n2 by (auto simp: no_faults_def)
    then show ?thesis
      using fail(2) r4 that(1) os_close_ok[OF n2, of f] by (auto simp: io_bind_def io_drop_def io_return_def)
  next
    case (ok u w2)
    have "wrote f w1 w2" using DownloadIndex_wrote[OF _ ok(1)] f(3) by simp
    then obtain b where w2: "nodes w2 = (nodes w)(f := Some (File b))" using f(3) by (auto simp: wrote_def)
    have n2: "no_faults w2" using no_faults_step[OF keeps_env_DownloadIndex ok(1) n1] .
    show ?thesis
      using ok(2) w2 f that(2) os_close_ok[OF n2, of f]
      by (auto simp: io_try_def io_return_def invalidate_def)
  qed
qed

lemma reads_IndexFromFile [inv_intros]: "reads (IndexFromFile x p)"
  unfolding IndexFromFile_def by (intro inv_intros)

lemma load_index_cases:
  assumes "load_index x r w = (res, w')"
  shows "nodes w' = nodes w \<and> (\<exists>err i. res = Inr (err, r\<lparr>cr_Index := i\<rparr>))"
proof (cases "cr_Path r = ''''")
  case True
  with assms show ?thesis
    by (auto simp: load_index_def LoadFromPath_def io_bind_def io_return_def intro!: exI[of _ "cr_Index r"])
next
  case False
  obtain ri wi where ri: "IndexFromFile x (cr_Path r) w = (ri, wi)" by fastforce
  have "nodes wi = nodes w" using readsD[OF reads_IndexFromFile ri] .
  moreover have "res = Inr (case ri of Inl e \<Rightarrow> (Some (wrap ''failed to load index'' (wrap ''failed to load index'' e)), r)
      | Inr i \<Rightarrow> (None, r\<lparr>cr_Index := Some i\<rparr>)) \<and> w' = wi"
    using assms False ri
    by (auto simp: load_index_def LoadFromPath_def io_bind_def io_return_def io_try_def split: sum.splits)
  moreover have "\<exists>err i. (case ri of Inl e \<Rightarrow> (Some (wrap ''failed to load index'' (wrap ''failed to load index'' e)), r)
      | Inr i \<Rightarrow> (None, r\<lparr>cr_Index := Some i\<rparr>)) = (err, r\<lparr>cr_Index := i\<rparr>)"
  proof (cases ri)
    case (Inl e)
    then show ?thesis by (intro exI[of _ "Some (wrap ''failed to load index'' (wrap ''failed to load index'' e))"]
          exI[of _ "cr_Index r"]) simp
  qed auto
  ultimately show ?thesis by auto
qed

lemma keeps_env_load [inv_intros]: "keeps_env (IndexFromFile x p)" "keeps_env (LoadFromPath x r)" "keeps_env (load_index x r)"
  unfolding load_index_def LoadFromPath_def IndexFromFile_def by (intro inv_intros)+

lemma keeps_env_CacheIndex [inv_intros]: "keeps_env (CacheIndex x r)"
  unfolding CacheIndex_def cache_index_to_def by (intro inv_intros)

lemma HasFile_quiet [inv_intros]: "reads (HasFile r)" "keeps_env (HasFile r)"
  unfolding HasFile_def by (intro inv_intros)+


lemma HasFile_result:
  "no_faults w \<Longrightarrow> fst (HasFile r w) = Inr (cr_Path r \<noteq> '''' \<and> (\<exists>nd. lstat_node w (cr_Path r) = Inr nd \<and> node_is_regular nd))"
  by (auto simp: HasFile_def io_try_def io_return_def os_lstat_def syscall_def no_faults_def Let_def
      lstat_node_def split: option.splits)

lemma Clear_repo_uncached:
  assumes "Clear_repo r w = (Inr (err, r'), w')" and "\<not> cached r"
  shows "err = None \<and> nodes w' = nodes w \<and> cr_Index r' = None \<and> \<not> cached r'"
  using assms by (auto simp: Clear_repo_def Let_def io_return_def invalidate_def)

lemma Clear_repo_cached:
  assumes "Clear_repo r w = (Inr (err, r'), w')" and "cached r" and "no_faults w"
    and "nodes w = fs(f \<mapsto> File b)" and "fs f = None" and "path_clean f = f" and "cr_Path r = f"
  shows "err = None \<and> nodes w' = fs \<and> cr_Index r' = None \<and> \<not> cached r'"
proof -
  obtain r4 w4 where r4: "os_Remove f w = (r4, w4)" by fastforce
  have "r4 = Inr () \<and> nodes w4 = fs" using os_Remove_file[OF _ assms(3) r4] assms(4-6) by auto
  with assms r4 show ?thesis by (auto simp: Clear_repo_def Let_def io_return_def io_try_def invalidate_def)
qed

text \<open>
  C19. A repository without an index file of its own (the builder passes the directory for
  temporary files as its path) is asked for a version and then cleared. When no system call
  fails, whatever the server answers, the file system ends as it began: the index file is
  removed again, after a failed download as after a good one, and the repository has neither
  index nor file.
\<close>

theorem index_file_is_removed:
  assumes "no_faults w" and "cr_Index r = None" and "\<not> cached r"
    and "\<not> (\<exists>b. nodes w (path_clean (cr_Path r)) = Some (File b))"
    and "GetChartVersion x sv r name ver w = (Inr (res, r1), w1)"
    and "Clear_repo r1 w1 = (Inr (err, r2), w2)"
  shows "err = None \<and> nodes w2 = nodes w \<and> cr_Index r2 = None \<and> \<not> cached r2"
proof -
  obtain hb wh where hf: "HasFile r w = (hb, wh)" by fastforce
  have hb: "hb = Inr False"
    using HasFile_result[OF assms(1), of r] hf assms(4)
    by (auto simp: lstat_node_def node_is_regular_iff split: option.splits)
  have wh: "nodes wh = nodes w" "no_faults wh"
    using readsD[OF HasFile_quiet(1) hf] no_faults_step[OF HasFile_quiet(2) hf assms(1)] .
  obtain rc wc where c: "CacheIndex x r wh = (rc, wc)" by fastforce
  have G: "GetChartVersion x sv r name ver w =
      (case io_bind (CacheIndex x r) (\<lambda>(err, r1). case err of
            Some e \<Rightarrow> io_return (Some (wrap ''failed to cache index'' e), r1)
          | None \<Rightarrow> load_index x r1) wh of
        (Inl e, w') \<Rightarrow> (Inl e, w')
      | (Inr (err, r'), w') \<Rightarrow>
          (case err of Some e \<Rightarrow> (Inr (Inl (ErrExternal e), r'), w')
           | None \<Rightarrow> (Inr (mapErr ErrReference (getChartVersion sv r' name ver), r'), w')))"
    using assms(2) hf hb
    by (auto simp: GetChartVersion_def StrategicallyLoadIndex_def HasIndex_def io_bind_def io_return_def
        split: prod.splits sum.splits option.splits)
  show ?thesis
    using wh(2) c
  proof (cases rule: CacheIndex_cases)
    case (fail e)
    with G assms(5) c have "r1 = r" "w1 = wc" by (auto simp: io_bind_def io_return_def)
    with Clear_repo_uncached[OF assms(6)] fail wh assms(3) show ?thesis by simp
  next
    case (ok f b)
    let ?r = "r\<lparr>cr_Path := f, cr_Index := None, cached := True, digests := Map.empty\<rparr>"
    obtain rl wl where l: "load_index x ?r wc = (rl, wl)" by fastforce
    obtain er i where rl: "rl = Inr (er, ?r\<lparr>cr_Index := i\<rparr>)" and wl: "nodes wl = nodes wc"
      using load_index_cases[OF l] by blast
    have r1: "r1 = ?r\<lparr>cr_Index := i\<rparr>" "w1 = wl"
      using G assms(5) c ok(1) l rl by (auto simp: io_bind_def io_return_def split: option.splits)
    have "no_faults wc" using no_faults_step[OF keeps_env_CacheIndex c wh(2)] .
    then have "no_faults wl" using no_faults_step[OF keeps_env_load(3) l] by blast
    with Clear_repo_cached[OF assms(6), of "nodes w" f b] ok wl wh r1 show ?thesis by simp
  qed
qed

text \<open>Methods that return their error beside the repository never fail as a step.\<close>

definition never_fails :: "'a io \<Rightarrow> bool" where
  "never_fails m \<longleftrightarrow> (\<forall>w. \<exists>y w'. m w = (Inr y, w'))"

lemma never_fails_try [inv_intros]: "(\<And>r. never_fails (k r)) \<Longrightarrow> never_fails (io_try m k)"
  by (auto simp: never_fails_def io_try_def split: prod.splits)

lemma never_fails_bind [inv_intros]:
  "never_fails m \<Longrightarrow> (\<And>y. never_fails (k y)) \<Longrightarrow> never_fails (io_bind m k)"
  unfolding never_fails_def io_bind_def by (metis (no_types, lifting) old.prod.case sum.case(2))

lemma never_fails_basic [inv_intros]: "never_fails (io_return y)" "never_fails (io_drop m)"
  by (simp_all add: never_fails_def io_defs)

lemma never_fails_branches [inv_intros]:
  "(c \<Longrightarrow> never_fails m) \<Longrightarrow> (\<not> c \<Longrightarrow> never_fails m') \<Longrightarrow> never_fails (if c then m else m')"
  "(\<And>e. s = Inl e \<Longrightarrow> never_fails (f e)) \<Longrightarrow> (\<And>y. s = Inr y \<Longrightarrow> never_fails (g y)) \<Longrightarrow>
   never_fails (case s of Inl e \<Rightarrow> f e | Inr y \<Rightarrow> g y)"
  "(q = None \<Longrightarrow> never_fails m) \<Longrightarrow> (\<And>z. q = Some z \<Longrightarrow> never_fails (h z)) \<Longrightarrow>
   never_fails (case q of None \<Rightarrow> m | Some z \<Rightarrow> h z)"
  "(\<And>a b. pr = (a, b) \<Longrightarrow> never_fails (k a b)) \<Longrightarrow> never_fails (case pr of (a, b) \<Rightarrow> k a b)"
  by (auto split: sum.splits option.splits prod.splits)

lemma never_fails_methods [inv_intros]:
  "never_fails (HasFile r)" "never_fails (CacheIndex x r)" "never_fails (LoadFromPath x r)"
  "never_fails (load_index x r)" "never_fails (StrategicallyLoadIndex x r)"
  "never_fails (GetChartVersion x sv r name ver)" "never_fails (Clear_repo r)"
proof -
  show 1: "never_fails (HasFile r)" for r
    unfolding HasFile_def by (intro inv_intros)
  show 2: "never_fails (CacheIndex x r)"
    unfolding CacheIndex_def cache_index_to_def by (intro inv_intros)
  show 3: "never_fails (LoadFromPath x r)" for r
    unfolding LoadFromPath_def by (intro inv_intros)
  show 4: "never_fails (load_index x r)" for r
    unfolding load_index_def by (intro inv_intros 3)
  show 5: "never_fails (StrategicallyLoadIndex x r)"
    unfolding StrategicallyLoadIndex_def by (intro inv_intros 1 2 4)
  show "never_fails (GetChartVersion x sv r name ver)"
    unfolding GetChartVersion_def by (intro inv_intros 5)
  show "never_fails (Clear_repo r)"
    unfolding Clear_repo_def Let_def by (intro inv_intros)
qed

definition sample_ext :: ext where
  "sample_ext =
     \<lparr>yaml_index = (\<lambda>b. Inr \<lparr>raw_APIVersion = ''v1'', raw_Entries = []\<rparr>), md_Validate = (\<lambda>m. None),
      sort_versions = id, ResolveReferenceURL = (\<lambda>base ref. Inr (base @ ref)), ByScheme = (\<lambda>sch. Inr 0),
      getter_Get = (\<lambda>c t url opts. Inr url), digest_FromReader = (\<lambda>alg b. Inr b)\<rparr>"

definition sample_repo :: chart_repository where
  "sample_repo = newChartRepository\<lparr>cr_URL := ''https://charts.example.org/'', cr_Path := ''/t''\<rparr>"

theorem index_file_is_removed_witness:
  "\<exists>res r1 w1 err r2 w2.
     GetChartVersion sample_ext num_semver sample_repo ''app'' ''1'' small_world = (Inr (res, r1), w1) \<and>
     Clear_repo r1 w1 = (Inr (err, r2), w2) \<and>
     err = None \<and> nodes w2 = nodes small_world \<and> cr_Index r2 = None \<and> \<not> cached r2"
proof -
  obtain res r1 w1 where g: "GetChartVersion sample_ext num_semver sample_repo ''app'' ''1'' small_world = (Inr (res, r1), w1)"
    using never_fails_methods(6)[of sample_ext num_semver sample_repo "''app''" "''1''",
        unfolded never_fails_def, rule_format, of small_world] by auto
  obtain err r2 w2 where c: "Clear_repo r1 w1 = (Inr (err, r2), w2)"
    using never_fails_methods(7)[of r1, unfolded never_fails_def, rule_format, of w1] by auto
  have "no_faults small_world" by (simp add: no_faults_def small_world_def)
  moreover have "cr_Index sample_repo = None" "\<not> cached sample_repo"
    by (simp_all add: sample_repo_def newChartRepository_def)
  moreover have "nodes small_world (path_clean (cr_Path sample_repo)) = Some Directory" by code_simp
  then have "\<not> (\<exists>b. nodes small_world (path_clean (cr_Path sample_repo)) = Some (File b))" by simp
  ultimately have "err = None \<and> nodes w2 = nodes small_world \<and> cr_Index r2 = None \<and> \<not> cached r2"
    using g c by (rule index_file_is_removed)
  with g c show ?thesis by blast
qed

section \<open>The transports of a repository's requests\<close>

lemma pool_clean_client [inv_intros]: "keeps_pool_clean (client_Get x c url opts)"
  by (simp add: keeps_pool_clean_def client_Get_def)

lemma pool_clean_methods [inv_intros]:
  "keeps_pool_clean (HasFile r)" "keeps_pool_clean (CacheIndex x r)" "keeps_pool_clean (load_index x r)"
  "keeps_pool_clean (DownloadIndex x r f)" "keeps_pool_clean (DownloadChart x r cv)"
  "keeps_pool_clean (GetChartVersion x sv r name ver)"
proof -
  show 1: "keeps_pool_clean (HasFile r)" for r
    unfolding HasFile_def by (intro inv_intros)
  show 2: "keeps_pool_clean (DownloadIndex x r f)" for f
    unfolding DownloadIndex_def by (intro inv_intros)
  show 3: "keeps_pool_clean (CacheIndex x r)"
    unfolding CacheIndex_def cache_index_to_def by (intro inv_intros 2)
  show 4: "keeps_pool_clean (load_index x r)" for r
    unfolding load_index_def LoadFromPath_def IndexFromFile_def by (intro inv_intros)
  show "keeps_pool_clean (DownloadChart x r cv)"
    unfolding DownloadChart_def by (intro inv_intros)
  show "keeps_pool_clean (GetChartVersion x sv r name ver)"
    unfolding GetChartVersion_def StrategicallyLoadIndex_def by (intro inv_intros 1 3 4)
qed

text \<open>
  C20. A chart is downloaded over a transport with exactly the TLS settings of the repository,
  whichever transport the pool hands out and whatever was done with it before; and no use of a
  repository, successful or not, leaves TLS settings in the pool.
\<close>

theorem downloads_over_clean_transports:
  assumes "pool_clean w"
  shows "fst (DownloadChart x r cv w) =
      (if cv_URLs cv = [] then Inl (no_urls_error cv)
       else bindE (ResolveReferenceURL x (cr_URL r) (hd (cv_URLs cv))) (\<lambda>url.
         getter_Get x (cr_Client r) (Suc (clock w)) url
           (cr_Options r @ [WithTransport (Transport (cr_tlsConfig r))]))) \<and>
    pool_clean (snd (DownloadChart x r cv w)) \<and>
    pool_clean (snd (GetChartVersion x sv r name ver w))"
proof (intro conjI)
  show "pool_clean (snd (DownloadChart x r cv w))" "pool_clean (snd (GetChartVersion x sv r name ver w))"
    using assms pool_clean_methods(5)[of x r cv] pool_clean_methods(6)[of x sv r name ver]
    by (simp_all add: keeps_pool_clean_def)
  have "clock (snd (pool_Get w)) = Suc (clock w)"
    by (simp add: pool_Get_def Let_def)
  then show "fst (DownloadChart x r cv w) =
      (if cv_URLs cv = [] then Inl (no_urls_error cv)
       else bindE (ResolveReferenceURL x (cr_URL r) (hd (cv_URLs cv))) (\<lambda>url.
         getter_Get x (cr_Client r) (Suc (clock w)) url
           (cr_Options r @ [WithTransport (Transport (cr_tlsConfig r))])))"
    by (cases "ResolveReferenceURL x (cr_URL r) (hd (cv_URLs cv))")
      (auto simp: DownloadChart_def io_bind_def io_lift_def io_fail_def with_transport_result client_Get_def)
qed

theorem downloads_over_clean_transports_witness:
  "fst (DownloadChart sample_ext sample_repo (sample_entry ''1'' 0) (small_world\<lparr>idle := [Transport None]\<rparr>)) =
      (if cv_URLs (sample_entry ''1'' 0) = []
       then Inl (no_urls_error (sample_entry ''1'' 0))
       else bindE (ResolveReferenceURL sample_ext (cr_URL sample_repo) (hd (cv_URLs (sample_entry ''1'' 0)))) (\<lambda>url.
         getter_Get sample_ext (cr_Client sample_repo) (Suc (clock (small_world\<lparr>idle := [Transport None]\<rparr>))) url
           (cr_Options sample_repo @ [WithTransport (Transport (cr_tlsConfig sample_repo))]))) \<and>
    pool_clean (snd (DownloadChart sample_ext sample_repo (sample_entry ''1'' 0) (small_world\<lparr>idle := [Transport None]\<rparr>))) \<and>
    pool_clean (snd (GetChartVersion sample_ext num_semver sample_repo ''a'' '''' (small_world\<lparr>idle := [Transport None]\<rparr>)))"
  by (rule downloads_over_clean_transports) (simp add: pool_clean_def)

end
