(* ===== verification/OCIRepository.thy ===== *)
theory OCIRepository
  imports ChartRepository
begin

text \<open>
  Helm chart repositories in OCI registries
  (\<open>internal/helm/repository/oci_chart_repository.go\<close>): options, the choice of a tag, downloads,
  and the verification of charts. The registry client and the verifiers are external and
  parameters; a tag list or an answer may depend on the time it is asked for.
\<close>

datatype login_option = LoginOptBasicAuth string string

record 'v oci_ext =
  rc_Login :: "nat \<Rightarrow> nat \<Rightarrow> string \<Rightarrow> login_option list \<Rightarrow> go_error option"
  rc_Logout :: "nat \<Rightarrow> nat \<Rightarrow> string \<Rightarrow> go_error option"
  rc_Tags :: "nat \<Rightarrow> nat \<Rightarrow> string \<Rightarrow> go_error + string list"
  ParseReference :: "string \<Rightarrow> go_error + string"
  vf_Verify :: "nat \<Rightarrow> nat \<Rightarrow> string \<Rightarrow> go_error + bool"
  sort_Sort :: "('v \<Rightarrow> 'v \<Rightarrow> bool) \<Rightarrow> 'v list \<Rightarrow> 'v list"

text \<open>
  \<open>sort.Sort\<close> promises, for a strict weak order, a permutation that is in ascending order; it
  promises nothing for the order of equal elements, so it is a parameter with this law.
\<close>

definition sorts :: "(('v \<Rightarrow> 'v \<Rightarrow> bool) \<Rightarrow> 'v list \<Rightarrow> 'v list) \<Rightarrow> bool" where
  "sorts f \<longleftrightarrow>
     (\<forall>lt xs. (\<forall>a b. lt a b \<longrightarrow> \<not> lt b a) \<longrightarrow> transp (\<lambda>a b. \<not> lt b a) \<longrightarrow>
        mset (f lt xs) = mset xs \<and> sorted_wrt (\<lambda>a b. \<not> lt b a) (f lt xs))"

record oci_repository =
  oci_URL :: url
  oci_Client :: nat
  oci_Options :: "getter_option list"
  oci_tlsConfig :: "tls_config option"
  oci_RegistryClient :: nat
  credentialsFile :: string
  verifiers :: "nat list"

datatype oci_option =
    WithVerifiers "nat list"
  | WithOCIRegistryClient nat
  | WithOCIGetter "string \<Rightarrow> go_error + nat"
  | WithOCIGetterOptions "getter_option list"
  | WithCredentialsFile string

definition apply_option :: "oci_option \<Rightarrow> oci_repository \<Rightarrow> go_error + oci_repository" where
  "apply_option opt r =
     (case opt of
        WithVerifiers vs \<Rightarrow> Inr (r\<lparr>verifiers := vs\<rparr>)
      | WithOCIRegistryClient c \<Rightarrow> Inr (r\<lparr>oci_RegistryClient := c\<rparr>)
      | WithOCIGetter by_scheme \<Rightarrow>
          bindE (by_scheme (Scheme (oci_URL r))) (\<lambda>c. Inr (r\<lparr>oci_Client := c\<rparr>))
      | WithOCIGetterOptions opts \<Rightarrow> Inr (r\<lparr>oci_Options := opts\<rparr>)
      | WithCredentialsFile f \<Rightarrow> Inr (r\<lparr>credentialsFile := f\<rparr>))"

fun apply_options :: "oci_option list \<Rightarrow> oci_repository \<Rightarrow> go_error + oci_repository" where
  "apply_options [] r = Inr r"
| "apply_options (opt # opts) r = bindE (apply_option opt r) (apply_options opts)"

definition NewOCIChartRepository :: "string \<Rightarrow> oci_option list \<Rightarrow> go_error + oci_repository" where
  "NewOCIChartRepository repositoryURL chartRepoOpts =
     bindE (url_Parse repositoryURL) (\<lambda>u.
     apply_options chartRepoOpts
       \<lparr>oci_URL = u, oci_Client = 0, oci_Options = [], oci_tlsConfig = None,
        oci_RegistryClient = 0, credentialsFile = '''', verifiers = []\<rparr>)"

section \<open>Choosing a tag\<close>

definition matching_versions :: "('v, 'c) semver \<Rightarrow> 'c \<Rightarrow> string list \<Rightarrow> 'v list" where
  "matching_versions sv con cvs =
     List.map_filter (\<lambda>cv.
       case ParseVersion sv cv of
         Inl _ \<Rightarrow> None
       | Inr v \<Rightarrow> if \<not> sv_Check sv con v then None else Some v) cvs"

definition getLastMatchingVersionOrConstraint ::
    "'v oci_ext \<Rightarrow> ('v, 'c) semver \<Rightarrow> string list \<Rightarrow> string \<Rightarrow> go_error + string" where
  "getLastMatchingVersionOrConstraint o_ext sv cvs ver =
     (case (if ver \<noteq> '''' then find (\<lambda>cv. ver = cv) cvs else None) of
        Some cv \<Rightarrow> Inr cv
      | None \<Rightarrow>
          bindE (version_constraint sv ver) (\<lambda>con.
          let matching = matching_versions sv con cvs in
          if matching = [] then
            Inl (ErrorString (''could not locate a version matching provided version string '' @ ver))
          else Inr (Original sv (hd (sort_Sort o_ext (\<lambda>a b. sv_LessThan sv b a) matching)))))"

definition oci_prefix :: string where
  "oci_prefix = OCIScheme @ ''://''"

definition go_quote :: "string \<Rightarrow> string" where
  "go_quote s = [CHR 0x22] @ s @ [CHR 0x22]"

definition getTags :: "'v oci_ext \<Rightarrow> oci_repository \<Rightarrow> string \<Rightarrow> string list io" where
  "getTags o_ext r ref w =
     (let w' = w\<lparr>clock := Suc (clock w)\<rparr> in
      case rc_Tags o_ext (oci_RegistryClient r) (clock w) (trim_prefix ref oci_prefix) of
        Inl e \<Rightarrow> (Inl (ErrorString (''could not fetch tags for '' @ go_quote ref @ '': '' @ error_string e)), w')
      | Inr tags \<Rightarrow>
          if tags = [] then
            (Inl (ErrorString (''unable to locate any tags in provided repository: '' @ ref)), w')
          else (Inr tags, w'))"

definition chart_url :: "oci_repository \<Rightarrow> string \<Rightarrow> string" where
  "chart_url r name =
     url_String ((oci_URL r)\<lparr>u_Path := path_join [u_Path (oci_URL r), name]\<rparr>)"

definition oci_chart_version :: "oci_repository \<Rightarrow> string \<Rightarrow> string \<Rightarrow> chart_version" where
  "oci_chart_version r name tag =
     \<lparr>cv_Metadata = \<lparr>md_Name = name, md_Version = tag, md_APIVersion = '''', md_Dependencies = []\<rparr>,
      cv_URLs = [chart_url r name @ '':'' @ tag], cv_Created = 0\<rparr>"

definition oci_getChartVersion ::
    "'v oci_ext \<Rightarrow> ('v, 'c) semver \<Rightarrow> oci_repository \<Rightarrow> string \<Rightarrow> string \<Rightarrow> chart_version io" where
  "oci_getChartVersion o_ext sv r name ver =
     (case ParseVersion sv ver of
        Inr _ \<Rightarrow> io_return (oci_chart_version r name ver)
      | Inl _ \<Rightarrow>
          io_bind (io_err (\<lambda>e. ErrorString (''could not get tags for '' @ go_quote name @ '': '' @ error_string e))
                    (getTags o_ext r (chart_url r name))) (\<lambda>cvs.
          if cvs = [] then
            io_fail (ErrorString (''unable to locate any tags in provided repository: '' @ name))
          else
            io_bind (io_lift (getLastMatchingVersionOrConstraint o_ext sv cvs ver)) (\<lambda>tag.
            io_return (oci_chart_version r name tag))))"

definition oci_GetChartVersion ::
    "'v oci_ext \<Rightarrow> ('v, 'c) semver \<Rightarrow> oci_repository \<Rightarrow> string \<Rightarrow> string \<Rightarrow> chart_version io" where
  "oci_GetChartVersion o_ext sv r name ver = io_err ErrExternal (oci_getChartVersion o_ext sv r name ver)"

section \<open>Downloads, login, verification\<close>

definition oci_DownloadChart :: "ext \<Rightarrow> oci_repository \<Rightarrow> chart_version \<Rightarrow> string io" where
  "oci_DownloadChart x r cv =
     (if cv_URLs cv = [] then io_fail (no_urls_error cv)
      else
        let ref = hd (cv_URLs cv) in
        io_bind (io_err (wrap (''invalid chart URL format '' @ [CHR 0x27] @ ref @ [CHR 0x27]))
                  (io_lift (url_Parse ref))) (\<lambda>u.
        with_transport (oci_tlsConfig r) (\<lambda>t.
          io_err (wrap (''failed to get '' @ [CHR 0x27] @ ref @ [CHR 0x27]))
            (client_Get x (oci_Client r) (trim_prefix (url_String u) oci_prefix)
              (oci_Options r @ [WithTransport t])))))"

definition Login :: "'v oci_ext \<Rightarrow> oci_repository \<Rightarrow> login_option list \<Rightarrow> unit io" where
  "Login o_ext r opts w =
     (case rc_Login o_ext (oci_RegistryClient r) (clock w) (Host (oci_URL r)) opts of
        Some e \<Rightarrow> (Inl e, w\<lparr>clock := Suc (clock w)\<rparr>)
      | None \<Rightarrow> (Inr (), w\<lparr>clock := Suc (clock w)\<rparr>))"

definition Logout :: "'v oci_ext \<Rightarrow> oci_repository \<Rightarrow> unit io" where
  "Logout o_ext r w =
     (case rc_Logout o_ext (oci_RegistryClient r) (clock w) (Host (oci_URL r)) of
        Some e \<Rightarrow> (Inl e, w\<lparr>clock := Suc (clock w)\<rparr>)
      | None \<Rightarrow> (Inr (), w\<lparr>clock := Suc (clock w)\<rparr>))"

definition HasCredentials :: "oci_repository \<Rightarrow> bool" where
  "HasCredentials r = (credentialsFile r \<noteq> '''')"

definition oci_Clear :: "oci_repository \<Rightarrow> (go_error option \<times> oci_repository) io" where
  "oci_Clear r =
     (if credentialsFile r \<noteq> '''' then
        io_try (os_Remove (credentialsFile r)) (\<lambda>d. case d of
          Inl e \<Rightarrow> io_return (Some e, r)
        | Inr _ \<Rightarrow> io_return (None, r\<lparr>credentialsFile := ''''\<rparr>))
      else io_return (None, r\<lparr>credentialsFile := ''''\<rparr>))"

text \<open>The verifiers are asked in turn; the first error or success ends it.\<close>

fun verify_loop :: "'v oci_ext \<Rightarrow> string \<Rightarrow> string \<Rightarrow> nat list \<Rightarrow> unit io" where
  "verify_loop o_ext url ref [] w =
     (Inl (ErrorString (''no matching signatures were found for '' @ [CHR 0x27] @ ref @ [CHR 0x27])), w)"
| "verify_loop o_ext url ref (v # vs) w =
     (let w' = w\<lparr>clock := Suc (clock w)\<rparr> in
      case vf_Verify o_ext v (clock w) ref of
        Inl e \<Rightarrow> (Inl (wrap (''failed to verify '' @ url) e), w')
      | Inr verified \<Rightarrow> if verified then (Inr (), w') else verify_loop o_ext url ref vs w')"

definition VerifyChart :: "'v oci_ext \<Rightarrow> oci_repository \<Rightarrow> chart_version \<Rightarrow> unit io" where
  "VerifyChart o_ext r cv =
     (if verifiers r = [] then io_fail (ErrorString ''no verifiers available'')
      else if cv_URLs cv = [] then io_fail (no_urls_error cv)
      else
        io_bind (io_err (\<lambda>e. ErrorString (''invalid chart reference: '' @ error_string e))
                  (io_lift (ParseReference o_ext (trim_prefix (hd (cv_URLs cv)) oci_prefix)))) (\<lambda>ref.
        verify_loop o_ext (hd (cv_URLs cv)) ref (verifiers r)))"

section \<open>The tag that is chosen\<close>

lemma matching_versions_iff:
  "v \<in> set (matching_versions sv con cvs) \<longleftrightarrow>
   (\<exists>cv \<in> set cvs. ParseVersion sv cv = Inr v \<and> sv_Check sv con v)"
  by (induction cvs) (auto simp: matching_versions_def map_filter_def split: sum.splits if_splits)

lemma descending_first:
  assumes "semver_order sv" and "sorts f" and "v \<in> set vs"
  shows "hd (f (\<lambda>a b. sv_LessThan sv b a) vs) \<in> set vs"
    and "\<not> sv_LessThan sv (hd (f (\<lambda>a b. sv_LessThan sv b a) vs)) v"
proof -
  let ?lt = "\<lambda>a b. sv_LessThan sv b a"
  let ?xs = "f ?lt vs"
  note o = assms(1)[unfolded semver_order_def]
  have eq: "sv_Equal sv x y \<longleftrightarrow> \<not> sv_LessThan sv x y \<and> \<not> sv_LessThan sv y x"
    and as1: "sv_LessThan sv x y \<Longrightarrow> \<not> sv_LessThan sv y x" for x y
    using o by blast+
  have as: "\<forall>a b. ?lt a b \<longrightarrow> \<not> ?lt b a" using as1 by blast
  have ol: "older sv (x, sample_entry '''' 0) (y, sample_entry '''' 0) \<longleftrightarrow> sv_LessThan sv x y" for x y
    using eq[of x y] as1[of x y] unfolding older_def by (simp add: sample_entry_def)
  have tr: "transp (\<lambda>a b. \<not> ?lt b a)"
  proof (rule transpI)
    fix x y z
    assume "\<not> sv_LessThan sv x y" "\<not> sv_LessThan sv y z"
    then show "\<not> sv_LessThan sv x z"
      using transpD[OF older_order(2)[OF assms(1)], of "(x, sample_entry '''' 0)"
          "(y, sample_entry '''' 0)" "(z, sample_entry '''' 0)"]
      by (simp only: ol not_False_eq_True)
  qed
  have ms: "mset ?xs = mset vs" and so: "sorted_wrt (\<lambda>a b. \<not> ?lt b a) ?xs"
    using assms(2)[unfolded sorts_def, rule_format, OF as[rule_format] tr] by simp_all
  have st: "set ?xs = set vs" by (rule mset_eq_setD[OF ms])
  then obtain y ys where y: "?xs = y # ys" using assms(3) by (cases ?xs) auto
  show "hd ?xs \<in> set vs" using st y by auto
  show "\<not> sv_LessThan sv (hd ?xs) v"
  proof (cases "v = y")
    case True
    then show ?thesis using y as1[of y y] by auto
  next
    case False
    then have "v \<in> set ys" using st y assms(3) by auto
    then show ?thesis using so y by simp
  qed
qed

definition tag_chosen :: "('v, 'c) semver \<Rightarrow> string list \<Rightarrow> string \<Rightarrow> string \<Rightarrow> bool" where
  "tag_chosen sv cvs ver tag \<longleftrightarrow>
     (ver \<noteq> '''' \<and> ver \<in> set cvs \<and> tag = ver) \<or>
     (\<not> (ver \<noteq> '''' \<and> ver \<in> set cvs) \<and>
      (\<exists>con v cv. version_constraint sv ver = Inr con \<and> cv \<in> set cvs \<and> ParseVersion sv cv = Inr v \<and>
         sv_Check sv con v \<and> tag = Original sv v \<and>
         (\<forall>v' \<in> set (matching_versions sv con cvs). \<not> sv_LessThan sv v v')))"

definition no_tag :: "('v, 'c) semver \<Rightarrow> string list \<Rightarrow> string \<Rightarrow> bool" where
  "no_tag sv cvs ver \<longleftrightarrow>
     \<not> (ver \<noteq> '''' \<and> ver \<in> set cvs) \<and>
     (case version_constraint sv ver of
        Inl _ \<Rightarrow> True | Inr con \<Rightarrow> matching_versions sv con cvs = [])"


text \<open>An instance for examples: tags that are numbers, and insertion sort.\<close>

definition sort_by :: "('v \<Rightarrow> 'v \<Rightarrow> bool) \<Rightarrow> 'v list \<Rightarrow> 'v list" where
  "sort_by lt xs = insertion_sort (\<lambda>a b. \<not> lt b a) xs"

lemma sorts_sort_by: "sorts sort_by"
  unfolding sorts_def sort_by_def
  by (intro allI impI conjI mset_insertion_sort insertion_sort_sorted) blast+

definition sample_oci :: "nat oci_ext" where
  "sample_oci =
     \<lparr>rc_Login = (\<lambda>c t h opts. None), rc_Logout = (\<lambda>c t h. None),
      rc_Tags = (\<lambda>c t ref. Inr [''7'', ''12'', ''latest'']), ParseReference = Inr,
      vf_Verify = (\<lambda>v t ref. Inr (v = 1)), sort_Sort = sort_by\<rparr>"


section \<open>What verification means\<close>

lemma verify_loop_ok:
  "fst (verify_loop o_ext url ref vs w) = Inr () \<longleftrightarrow>
   (\<exists>i < length vs. vf_Verify o_ext (vs ! i) (clock w + i) ref = Inr True \<and>
      (\<forall>j < i. vf_Verify o_ext (vs ! j) (clock w + j) ref = Inr False))"
proof (induction vs arbitrary: w)
  case (Cons v vs)
  show ?case
  proof (cases "vf_Verify o_ext v (clock w) ref")
    case (Inl e)
    then show ?thesis
      by (auto simp: Let_def less_Suc_eq_0_disj nth_Cons split: nat.splits)
  next
    case (Inr b)
    then show ?thesis
      using Cons[of "w\<lparr>clock := Suc (clock w)\<rparr>"]
      by (cases b) (auto simp: Let_def Ex_less_Suc2 All_less_Suc2)
  qed
qed simp

text \<open>
  A chart counts as verified exactly when its reference parses and one of the verifiers, asked in
  their order, confirms it while all verifiers before that one found no signature and none of them
  failed. In particular nothing is verified when there are no verifiers or the chart has no URL.
\<close>

theorem verified_iff_confirmed:
  "fst (VerifyChart o_ext r cv w) = Inr () \<longleftrightarrow>
   cv_URLs cv \<noteq> [] \<and>
   (\<exists>ref. ParseReference o_ext (trim_prefix (hd (cv_URLs cv)) oci_prefix) = Inr ref \<and>
      (\<exists>i < length (verifiers r). vf_Verify o_ext (verifiers r ! i) (clock w + i) ref = Inr True \<and>
         list_all (\<lambda>j. vf_Verify o_ext (verifiers r ! j) (clock w + j) ref = Inr False) [0..<i]))"
proof (cases "ParseReference o_ext (trim_prefix (hd (cv_URLs cv)) oci_prefix)")
  case (Inl e)
  then show ?thesis
    by (auto simp: VerifyChart_def io_fail_def io_bind_def io_err_def io_lift_def)
next
  case (Inr ref)
  then have "VerifyChart o_ext r cv w =
      (if verifiers r = [] then (Inl (ErrorString ''no verifiers available''), w)
       else if cv_URLs cv = [] then (Inl (no_urls_error cv), w)
       else verify_loop o_ext (hd (cv_URLs cv)) ref (verifiers r) w)"
    by (simp add: VerifyChart_def io_fail_def io_bind_def io_err_def io_lift_def)
  then show ?thesis
    using Inr verify_loop_ok[of o_ext "hd (cv_URLs cv)" ref "verifiers r" w]
    by (auto simp: list_all_iff atLeastLessThan_iff)
qed

end
