(* ===== verification/Credentials.thy ===== *)
theory Credentials
  imports ChartRef OCIRepository
begin

text \<open>
  From a Kubernetes secret to HTTP options, TLS settings and registry logins
  (\<open>internal/helm/getter/getter.go\<close>, \<open>internal/helm/registry/auth.go\<close> and \<open>client.go\<close>,
  \<open>internal/oci/auth.go\<close>). Cryptography, the Docker configuration format, the keychains of
  \<open>go-containerregistry\<close> and Helm's registry client are parameters. An authenticator is what
  its method \<open>Authorization\<close> returns.
\<close>

record secret =
  sec_Name :: string
  sec_Namespace :: string
  sec_Type :: string
  sec_Data :: "string \<rightharpoonup> string"
  sec_StringData :: "string \<rightharpoonup> string"

record auth_config =
  Username :: string
  Password :: string

type_synonym authenticator = "go_error + auth_config"

record registry_helper =
  h_registry :: string
  h_username :: string
  h_password :: string
  h_err :: "go_error option"

datatype keychain = Anonymous | FromHelper registry_helper

record docker_config =
  dc_GetAuthConfig :: "string \<Rightarrow> go_error + (auth_config \<times> string)"

record auth_ext =
  X509KeyPair :: "string \<Rightarrow> string \<Rightarrow> go_error + string"
  SystemCertPool :: "go_error + string"
  AppendCertsFromPEM :: "string \<Rightarrow> string \<Rightarrow> string option"
  LoadFromReader :: "string \<Rightarrow> go_error + docker_config"
  ConvertToHostname :: "string \<Rightarrow> string"
  AnonymousAuth :: authenticator
  ResolveHelper :: "(string \<Rightarrow> go_error + (string \<times> string)) \<Rightarrow> string \<Rightarrow> go_error + authenticator"
  NewRegistryClient :: "nat \<Rightarrow> string option \<Rightarrow> go_error + nat"
  NewAggregate :: "go_error list \<Rightarrow> go_error"

text \<open>An absent key of a secret reads as the empty string.\<close>

definition secret_data :: "secret \<Rightarrow> string \<Rightarrow> string" where
  "secret_data s k = (case sec_Data s k of None \<Rightarrow> '''' | Some v \<Rightarrow> v)"

section \<open>HTTP options and TLS settings\<close>

definition both_required :: "string \<Rightarrow> go_error" where
  "both_required name =
     ErrorString (''invalid '' @ quoted name @ '' secret data: required fields '' @
       quoted ''username'' @ '' and '' @ quoted ''password'')"

definition BasicAuthFromSecret :: "secret \<Rightarrow> go_error + getter_option option" where
  "BasicAuthFromSecret s =
     (let username = secret_data s ''username''; password = secret_data s ''password'' in
      if username = '''' \<and> password = '''' then Inr None
      else if username = '''' \<or> password = '''' then Inl (both_required (sec_Name s))
      else Inr (Some (WithBasicAuth username password)))"

definition ClientOptionsFromSecret :: "secret \<Rightarrow> go_error + getter_option list" where
  "ClientOptionsFromSecret s =
     bindE (BasicAuthFromSecret s) (\<lambda>basicAuth.
     Inr (case basicAuth of None \<Rightarrow> [] | Some b \<Rightarrow> [b]))"

definition certificates_of :: "auth_ext \<Rightarrow> string \<Rightarrow> string \<Rightarrow> go_error + string list" where
  "certificates_of a certBytes keyBytes =
     (if certBytes \<noteq> '''' \<and> keyBytes \<noteq> '''' then
        bindE (X509KeyPair a certBytes keyBytes) (\<lambda>cert. Inr [cert])
      else Inr [])"

definition root_cas_of :: "auth_ext \<Rightarrow> string \<Rightarrow> go_error + string option" where
  "root_cas_of a caBytes =
     (if caBytes \<noteq> '''' then
        bindE (mapErr (wrap ''cannot retrieve system certificate pool'') (SystemCertPool a)) (\<lambda>cp.
        case AppendCertsFromPEM a cp caBytes of
          None \<Rightarrow> Inl (ErrorString ''cannot append certificate into certificate pool: invalid caFile'')
        | Some cp' \<Rightarrow> Inr (Some cp'))
      else Inr None)"

definition TLSClientConfigFromSecret :: "auth_ext \<Rightarrow> secret \<Rightarrow> string \<Rightarrow> go_error + tls_config option" where
  "TLSClientConfigFromSecret a s repositoryUrl =
     (let certBytes = secret_data s ''certFile''; keyBytes = secret_data s ''keyFile'';
          caBytes = secret_data s ''caFile'' in
      if length certBytes + length keyBytes + length caBytes = 0 then Inr None
      else if certBytes \<noteq> '''' \<and> keyBytes = '''' \<or> keyBytes \<noteq> '''' \<and> certBytes = '''' then
        Inl (ErrorString (''invalid '' @ quoted (sec_Name s) @ '' secret data: fields '' @ quoted ''certFile'' @
          '' and '' @ quoted ''keyFile'' @ '' require each other's presence''))
      else
        bindE (certificates_of a certBytes keyBytes) (\<lambda>certs.
        bindE (root_cas_of a caBytes) (\<lambda>cas.
        bindE (mapErr (wrap ''cannot parse repository URL'') (url_Parse repositoryUrl)) (\<lambda>u.
        Inr (Some \<lparr>Certificates = certs, RootCAs = cas, ServerName = Hostname u\<rparr>)))))"

section \<open>Registry logins\<close>

definition helper_Get :: "registry_helper \<Rightarrow> string \<Rightarrow> go_error + (string \<times> string)" where
  "helper_Get h serverURL =
     (if serverURL \<noteq> h_registry h then Inl (ErrorString (''unexpected serverURL: '' @ serverURL))
      else case h_err h of
             Some e \<Rightarrow> Inl e
           | None \<Rightarrow> Inr (h_username h, h_password h))"

definition docker_credentials :: "auth_ext \<Rightarrow> secret \<Rightarrow> string \<Rightarrow> go_error + (string \<times> string)" where
  "docker_credentials a s host =
     bindE (mapErr (wrap (''unable to load Docker config from Secret '' @ quoted (sec_Name s)))
              (LoadFromReader a (secret_data s ''.dockerconfigjson''))) (\<lambda>cfg.
     bindE (mapErr (wrap (''unable to get authentication data from Secret '' @ quoted (sec_Name s)))
              (dc_GetAuthConfig cfg host)) (\<lambda>(authConfig, serverAddress).
     if ConvertToHostname a serverAddress \<noteq> host then
       Inl (ErrorString (''no auth config for '' @ quoted host @ '' in the docker-registry Secret '' @ quoted (sec_Name s)))
     else Inr (Username authConfig, Password authConfig)))"

definition string_or_data :: "secret \<Rightarrow> string \<Rightarrow> string" where
  "string_or_data s k = (case sec_StringData s k of Some v \<Rightarrow> v | None \<Rightarrow> secret_data s k)"

definition LoginOptionFromSecret :: "auth_ext \<Rightarrow> string \<Rightarrow> secret \<Rightarrow> go_error + keychain" where
  "LoginOptionFromSecret a registryURL s =
     bindE (mapErr (wrap (''unable to parse registry URL '' @ quoted registryURL @
                           '' while reconciling Secret '' @ quoted (sec_Name s)))
              (url_Parse registryURL)) (\<lambda>parsedURL.
     bindE (if sec_Type s = ''kubernetes.io/dockerconfigjson'' then docker_credentials a s (Host parsedURL)
            else Inr (string_or_data s ''username'', string_or_data s ''password'')) (\<lambda>(username, password).
     if username = '''' \<and> password = '''' then Inr Anonymous
     else if username = '''' \<or> password = '''' then Inl (both_required (sec_Name s))
     else Inr (FromHelper \<lparr>h_registry = Host parsedURL, h_username = username, h_password = password, h_err = None\<rparr>)))"

text \<open>The resource that is resolved is a wrapped string; all of its methods return it.\<close>

definition keychain_Resolve :: "auth_ext \<Rightarrow> keychain \<Rightarrow> string \<Rightarrow> go_error + authenticator" where
  "keychain_Resolve a k r =
     (case k of
        Anonymous \<Rightarrow> Inr (AnonymousAuth a)
      | FromHelper h \<Rightarrow> ResolveHelper a (helper_Get h) r)"

definition AuthAdaptHelper :: "authenticator \<Rightarrow> go_error + login_option option" where
  "AuthAdaptHelper auth =
     bindE (mapErr (wrap ''unable to get authentication data from OIDC'') auth) (\<lambda>authConfig.
     let username = Username authConfig; password = Password authConfig in
     if username = '''' \<and> password = '''' then Inr None
     else if username = '''' \<or> password = '''' then
       Inl (ErrorString (''invalid auth data: required fields '' @ quoted ''username'' @ '' and '' @ quoted ''password''))
     else Inr (Some (LoginOptBasicAuth username password)))"

definition KeychainAdaptHelper :: "auth_ext \<Rightarrow> keychain \<Rightarrow> string \<Rightarrow> go_error + login_option option" where
  "KeychainAdaptHelper a keyChain registryURL =
     bindE (mapErr (\<lambda>e. ErrorString (''unable to parse registry URL '' @ quoted registryURL))
              (url_Parse registryURL)) (\<lambda>parsedURL.
     bindE (mapErr (wrap (''unable to resolve credentials for registry '' @ quoted registryURL))
              (keychain_Resolve a keyChain (Host parsedURL))) AuthAdaptHelper)"

text \<open>\<open>makeLoginOption\<close> of \<open>internal/build/helm.go\<close>.\<close>

definition makeLoginOption ::
    "auth_ext \<Rightarrow> authenticator option \<Rightarrow> keychain option \<Rightarrow> string \<Rightarrow> go_error + login_option option" where
  "makeLoginOption a auth keychain registryURL =
     (case auth of
        Some au \<Rightarrow> AuthAdaptHelper au
      | None \<Rightarrow>
          (case keychain of
             Some k \<Rightarrow> KeychainAdaptHelper a k registryURL
           | None \<Rightarrow> Inr None))"

text \<open>
  The client is made for one use; with a login it gets a temporary file for the credentials.
  The errors of a failed construction are aggregated.
\<close>

definition new_client :: "auth_ext \<Rightarrow> string option \<Rightarrow> nat io" where
  "new_client a file w = (NewRegistryClient a (clock w) file, w\<lparr>clock := Suc (clock w)\<rparr>)"

definition ClientGenerator :: "auth_ext \<Rightarrow> bool \<Rightarrow> (nat \<times> string) io" where
  "ClientGenerator a isLogin =
     (if isLogin then
        io_bind (os_CreateTemp '''' ''credentials'') (\<lambda>f.
        io_try (new_client a (Some f)) (\<lambda>c. case c of
          Inr rClient \<Rightarrow> io_return (rClient, f)
        | Inl e \<Rightarrow>
            io_try (os_Remove f) (\<lambda>r. case r of
              Inl e' \<Rightarrow> io_fail (NewAggregate a [e, e'])
            | Inr _ \<Rightarrow> io_fail (NewAggregate a [e]))))
      else io_bind (new_client a None) (\<lambda>rClient. io_return (rClient, '''')))"

section \<open>From a secret to a login\<close>

text \<open>
  What the code relies on of \<open>authn\<close>: the anonymous authenticator has empty credentials, and a
  keychain made from a helper resolves to the credentials the helper has for the registry. (A
  user name \<open><token>\<close> marks an identity token, which is another kind of credential.)
\<close>

definition keychain_laws :: "auth_ext \<Rightarrow> bool" where
  "keychain_laws a \<longleftrightarrow>
     AnonymousAuth a = Inr \<lparr>Username = '''', Password = ''''\<rparr> \<and>
     (\<forall>get r u p. get r = Inr (u, p) \<longrightarrow> u \<noteq> ''<token>'' \<longrightarrow>
        ResolveHelper a get r = Inr (Inr \<lparr>Username = u, Password = p\<rparr>))"

definition login_credentials :: "string \<Rightarrow> string \<Rightarrow> string \<Rightarrow> go_error + login_option option" where
  "login_credentials name u p =
     (if u = '''' \<and> p = '''' then Inr None
      else if u = '''' \<or> p = '''' then Inl (both_required name)
      else Inr (Some (LoginOptBasicAuth u p)))"

text \<open>
  C31. The credentials of a secret arrive unchanged at the registry they are for: packed into a
  keychain and resolved again for the same URL they become a login with exactly this user and
  password; a secret without both logs nobody in, and one with only one of them is refused.
\<close>

theorem secret_credentials_reach_the_login:
  assumes "keychain_laws a" and "sec_Type s \<noteq> ''kubernetes.io/dockerconfigjson''"
    and "url_Parse registryURL = Inr u" and "string_or_data s ''username'' \<noteq> ''<token>''"
  shows "bindE (LoginOptionFromSecret a registryURL s) (\<lambda>k. makeLoginOption a None (Some k) registryURL) =
    login_credentials (sec_Name s) (string_or_data s ''username'') (string_or_data s ''password'')"
proof -
  let ?u = "string_or_data s ''username''" and ?p = "string_or_data s ''password''"
  have anon: "AnonymousAuth a = Inr \<lparr>Username = '''', Password = ''''\<rparr>"
    using assms(1) by (simp add: keychain_laws_def)
  have res: "ResolveHelper a (helper_Get h) (Host u) = Inr (Inr \<lparr>Username = ?u, Password = ?p\<rparr>)"
    if "h = \<lparr>h_registry = Host u, h_username = ?u, h_password = ?p, h_err = None\<rparr>" for h
    using assms(1,4) that by (simp add: keychain_laws_def helper_Get_def)
  show ?thesis
    using assms(2,3)
    by (auto simp: LoginOptionFromSecret_def makeLoginOption_def KeychainAdaptHelper_def keychain_Resolve_def
        AuthAdaptHelper_def login_credentials_def anon res Let_def)
qed

definition sample_auth :: auth_ext where
  "sample_auth =
     \<lparr>X509KeyPair = (\<lambda>c k. Inr c), SystemCertPool = Inr '''', AppendCertsFromPEM = (\<lambda>p b. Some (p @ b)),
      LoadFromReader = (\<lambda>b. Inl EOF), ConvertToHostname = id,
      AnonymousAuth = Inr \<lparr>Username = '''', Password = ''''\<rparr>,
      ResolveHelper = (\<lambda>get r. case get r of
         Inl e \<Rightarrow> Inr (Inr \<lparr>Username = '''', Password = ''''\<rparr>)
       | Inr (u, p) \<Rightarrow> Inr (Inr \<lparr>Username = u, Password = p\<rparr>)),
      NewRegistryClient = (\<lambda>t f. Inr t), NewAggregate = JoinError\<rparr>"

definition sample_secret :: secret where
  "sample_secret =
     \<lparr>sec_Name = ''s'', sec_Namespace = ''n'', sec_Type = ''Opaque'',
      sec_Data = [''username'' \<mapsto> ''u'', ''password'' \<mapsto> ''p''], sec_StringData = Map.empty\<rparr>"

theorem secret_credentials_reach_the_login_witness:
  "bindE (LoginOptionFromSecret sample_auth ''oci://r.io/c'' sample_secret)
     (\<lambda>k. makeLoginOption sample_auth None (Some k) ''oci://r.io/c'') = Inr (Some (LoginOptBasicAuth ''u'' ''p''))"
proof -
  have laws: "keychain_laws sample_auth" by (simp add: keychain_laws_def sample_auth_def)
  have ty: "sec_Type sample_secret \<noteq> ''kubernetes.io/dockerconfigjson''" by (simp add: sample_secret_def)
  have "\<not> isl (url_Parse ''oci://r.io/c'')" by code_simp
  then obtain u where u: "url_Parse ''oci://r.io/c'' = Inr u" by (cases "url_Parse ''oci://r.io/c''") auto
  have un: "string_or_data sample_secret ''username'' = ''u''" "string_or_data sample_secret ''password'' = ''p''"
    by (simp_all add: string_or_data_def secret_data_def sample_secret_def)
  show ?thesis
    using secret_credentials_reach_the_login[OF laws ty u] un by (simp add: login_credentials_def)
qed

end
