(* ===== verification/Values.thy ===== *)
theory Values
  imports Repository
begin

text \<open>
  Decoded YAML and charts. A value of type \<open>interface{}\<close> is one of the shapes the YAML decoder
  produces; a \<open>map[string]interface{}\<close> is the list of its entries (its order has no meaning in
  Go, and nothing here depends on it). A chart (\<open>chart.Chart\<close> of Helm) has its metadata, the
  raw files it was loaded from, the files that are neither templates nor metadata, its default
  values, the charts it depends on, and the dependencies of its lock file, if there is one. The data of a file may be the nil slice.
\<close>

datatype "value" =
    VNull
  | VBool bool
  | VNumber string
  | VString string
  | VList "value list"
  | VMap "(string \<times> value) list"

type_synonym "values" = "(string \<times> value) list"

record chart_file =
  f_Name :: string
  f_Data :: "string option"

datatype chart =
  Chart (ch_Metadata: metadata) (ch_Raw: "chart_file list") (ch_Files: "chart_file list")
    (ch_Values: "values") (ch_dependencies: "chart list") (ch_Lock: "dependency list option")

definition file_named :: "string \<Rightarrow> chart_file list \<Rightarrow> chart_file option" where
  "file_named n fs = find (\<lambda>f. f_Name f = n) fs"

lemma file_named_SomeD: "file_named n fs = Some f \<Longrightarrow> f \<in> set fs \<and> f_Name f = n"
  by (auto simp: file_named_def find_Some_iff in_set_conv_nth)

lemma file_named_None_iff: "file_named n fs = None \<longleftrightarrow> n \<notin> f_Name ` set fs"
  by (auto simp: file_named_def find_None_iff)

end
