(* ===== verification/Resources.thy ===== *)
theory Resources
  imports Credentials Values
begin

text \<open>
  Resources and the index of resources (\<open>internal/build/index.go\<close>), and the objects that the
  HelmRelease builder decodes from them. A resource of kustomize is opaque: what the code asks
  of it, and the decoder, are parameters. Of a decoded object the model has the fields the code
  reads; a field whose name begins with \<open>Get\<close> holds what that method of the object returns.
\<close>

record group_kind =
  Group :: string
  Kind :: string

record gvk = group_kind +
  gvk_Version :: string

record obj_ref = group_kind +
  oref_Name :: string
  oref_Namespace :: string

definition obj_reference :: "string \<Rightarrow> string \<Rightarrow> string \<Rightarrow> string \<Rightarrow> obj_ref" where
  "obj_reference g k n ns = \<lparr>Group = g, Kind = k, oref_Name = n, oref_Namespace = ns\<rparr>"

text \<open>
  A reference embeds its group and kind and so has their \<open>String\<close> method: printing one shows
  neither name nor namespace.
\<close>

definition ref_String :: "obj_ref \<Rightarrow> string" where
  "ref_String r = (if Group r = '''' then Kind r else Kind r @ ''.'' @ Group r)"

record res_meta =
  rm_APIVersion :: string
  rm_Kind :: string
  rm_Name :: string
  rm_Namespace :: string

section \<open>Decoded objects\<close>

record source_ref =
  sr_APIVersion :: string
  sr_Kind :: string
  sr_Name :: string
  sr_Namespace :: string

record chart_template =
  ct_Chart :: string
  ct_Version :: string
  ct_SourceRef :: source_ref
  ct_ValuesFiles :: "string list"

record values_reference =
  vr_Kind :: string
  vr_Name :: string
  GetValuesKey :: string
  vr_TargetPath :: string
  vr_Optional :: bool

record install =
  SkipCRDs :: bool
  CRDs :: string
  DisableHooks :: bool
  DisableOpenAPIValidation :: bool
  DisableSchemaValidation :: bool
  GetTimeout :: nat

text \<open>A patch and an image of the kustomize post renderer; a selector has seven fields.\<close>

record selector =
  sel_Group :: string
  sel_Version :: string
  sel_Kind :: string
  sel_Namespace :: string
  sel_Name :: string
  sel_AnnotationSelector :: string
  sel_LabelSelector :: string

record patch =
  pt_Patch :: string
  pt_Target :: "selector option"

record image =
  img_Name :: string
  img_NewName :: string
  img_NewTag :: string
  img_Digest :: string

record kustomize_spec =
  ks_Images :: "image list"
  ks_Patches :: "patch list"

record helm_release =
  hr_Name :: string
  hr_Namespace :: string
  hr_Chart :: "chart_template option"
  hr_ChartRef :: bool
  hr_ValuesFrom :: "values_reference list"
  hr_PostRenderers :: "kustomize_spec option list"
  GetValues :: "values"
  GetReleaseName :: string
  GetReleaseNamespace :: string
  GetInstall :: install

record helm_repository =
  hrp_Name :: string
  hrp_Namespace :: string
  hrp_URL :: string
  hrp_SecretRef :: "string option"
  hrp_PassCredentials :: bool
  hrp_Type :: string
  hrp_Provider :: string

record config_map =
  cm_Data :: "string \<rightharpoonup> string"

datatype kube_object =
    HelmReleaseObj helm_release
  | HelmRepositoryObj helm_repository
  | ConfigMapObj config_map
  | SecretObj secret
  | OtherObj string

record 'r kube_ext =
  GetMeta :: "'r \<Rightarrow> go_error + res_meta"
  SetGvk :: "'r \<Rightarrow> gvk \<Rightarrow> 'r"
  AsYAML :: "'r \<Rightarrow> go_error + string"
  FromAPIVersionAndKind :: "string \<Rightarrow> string \<Rightarrow> gvk"
  EvalEnv :: "string \<Rightarrow> go_error + string"
  Decode :: "string \<Rightarrow> go_error + kube_object"

section \<open>The index\<close>

type_synonym 'r resource_index = "obj_ref \<rightharpoonup> 'r"

definition index_key :: "'r kube_ext \<Rightarrow> 'r \<Rightarrow> go_error + obj_ref" where
  "index_key k res =
     bindE (GetMeta k res) (\<lambda>resMeta.
     let g = FromAPIVersionAndKind k (rm_APIVersion resMeta) (rm_Kind resMeta) in
     Inr (obj_reference (Group g) (Kind g) (rm_Name resMeta) (rm_Namespace resMeta)))"

text \<open>On an error the resources before it are in the index.\<close>

fun Push :: "'r kube_ext \<Rightarrow> 'r list \<Rightarrow> 'r resource_index \<Rightarrow> go_error option \<times> 'r resource_index" where
  "Push k [] idx = (None, idx)"
| "Push k (res # rs) idx =
     (case index_key k res of
        Inl e \<Rightarrow> (Some e, idx)
      | Inr r \<Rightarrow> Push k rs (idx(r \<mapsto> res)))"

lemma find_append:
  "find P (xs @ ys) = (case find P xs of Some x \<Rightarrow> Some x | None \<Rightarrow> find P ys)"
  by (induction xs) simp_all

lemma Push_append:
  "Push k (xs @ ys) idx = (case Push k xs idx of (None, idx') \<Rightarrow> Push k ys idx' | r \<Rightarrow> r)"
  by (induction xs arbitrary: idx) (auto split: sum.splits)

lemma Push_ok_iff: "fst (Push k rs idx) = None \<longleftrightarrow> list_all (\<lambda>r. \<not> isl (index_key k r)) rs"
  by (induction rs arbitrary: idx) (auto split: sum.splits)

text \<open>The entry of a reference after a push: the last resource pushed under it.\<close>

lemma Push_lookup:
  "fst (Push k rs idx) = None \<Longrightarrow>
   snd (Push k rs idx) r =
     (case find (\<lambda>res. index_key k res = Inr r) (rev rs) of Some res \<Rightarrow> Some res | None \<Rightarrow> idx r)"
proof (induction rs arbitrary: idx)
  case (Cons res rs)
  then obtain q where q: "index_key k res = Inr q" by (cases "index_key k res") auto
  define idx' where "idx' = idx(q \<mapsto> res)"
  have push: "Push k (res # rs) idx = Push k rs idx'" using q by (simp add: idx'_def)
  have "idx' r = (if index_key k res = Inr r then Some res else idx r)" using q by (auto simp: idx'_def)
  with Cons.IH[of idx'] Cons.prems show ?case
    unfolding push by (simp add: find_append split: option.split)
qed simp

end
