(* ===== verification/HelmValues.thy ===== *)
theory HelmValues
  imports Resources
begin

text \<open>
  The values of a HelmRelease (\<open>composeValues\<close> in \<open>internal/build/helm.go\<close>): the config maps and
  secrets it refers to, merged in the order they are listed, its own values last. Reading YAML,
  merging maps and Helm's \<open>--set\<close> parser are parameters. The code sets the group and version of
  every resource it reads, in the index that all builds share, so the index is part of the
  result.
\<close>

record values_ext =
  ReadValues :: "string \<Rightarrow> go_error + values"
  vx_MergeMaps :: "values \<Rightarrow> values \<Rightarrow> values"
  ParseInto :: "string \<Rightarrow> values \<Rightarrow> go_error + values"
  ParseIntoString :: "string \<Rightarrow> values \<Rightarrow> go_error + values"

definition single_quote :: string where
  "single_quote = [CHR 0x27]"

definition double_quote :: string where
  "double_quote = [CHR 0x22]"

definition sq :: "string \<Rightarrow> string" where
  "sq s = single_quote @ s @ single_quote"

definition bq :: "string \<Rightarrow> string" where
  "bq s = [CHR 0x60] @ s @ [CHR 0x60]"

definition namespaced_name :: "string \<Rightarrow> string \<Rightarrow> string" where
  "namespaced_name ns n = ns @ ''/'' @ n"

section \<open>One reference\<close>

definition values_gvk :: "values_reference \<Rightarrow> gvk" where
  "values_gvk v = \<lparr>Group = '''', Kind = vr_Kind v, gvk_Version = ''v1''\<rparr>"

definition missing_key :: "values_reference \<Rightarrow> string \<Rightarrow> go_error" where
  "missing_key v ns =
     ErrorString (''missing key '' @ sq (GetValuesKey v) @ '' in '' @ vr_Kind v @ '' '' @
       sq (namespaced_name ns (vr_Name v)))"

text \<open>The data of a secret come before its string data.\<close>

definition values_data :: "values_reference \<Rightarrow> string \<Rightarrow> kube_object \<Rightarrow> go_error + string" where
  "values_data v ns obj =
     (case obj of
        ConfigMapObj c \<Rightarrow>
          (case cm_Data c (GetValuesKey v) of Some d \<Rightarrow> Inr d | None \<Rightarrow> Inl (missing_key v ns))
      | SecretObj s \<Rightarrow>
          (case sec_Data s (GetValuesKey v) of
             Some d \<Rightarrow> Inr d
           | None \<Rightarrow>
               (case sec_StringData s (GetValuesKey v) of Some d \<Rightarrow> Inr d | None \<Rightarrow> Inl (missing_key v ns)))
      | _ \<Rightarrow> Inl (ErrorString (''unsupported ValuesReference kind '' @ sq (vr_Kind v))))"

definition is_quoted :: "string \<Rightarrow> bool" where
  "is_quoted s \<longleftrightarrow>
     has_prefix s single_quote \<and> has_suffix s single_quote \<or>
     has_prefix s double_quote \<and> has_suffix s double_quote"

definition set_target :: "values_ext \<Rightarrow> string \<Rightarrow> string \<Rightarrow> values \<Rightarrow> go_error + values" where
  "set_target x path data result =
     (if is_quoted data
      then ParseIntoString x (path @ ''='' @ trim_cutset data (single_quote @ double_quote)) result
      else ParseInto x (path @ ''='' @ data) result)"

definition merge_value ::
    "values_ext \<Rightarrow> values_reference \<Rightarrow> string \<Rightarrow> string \<Rightarrow> values \<Rightarrow> go_error + values" where
  "merge_value x v ns data result =
     (let place = '' from key '' @ sq (GetValuesKey v) @ '' in '' @ vr_Kind v @ '' '' @
            sq (namespaced_name ns (vr_Name v)) in
      if vr_TargetPath v = '''' then
        bindE (mapErr (wrap (''unable to read values'' @ place)) (ReadValues x data)) (\<lambda>values.
        Inr (vx_MergeMaps x result values))
      else
        mapErr (wrap (''unable to merge value'' @ place @ '' into target path '' @ sq (vr_TargetPath v)))
          (set_target x (vr_TargetPath v) data result))"

definition values_ref :: "values_reference \<Rightarrow> string \<Rightarrow> obj_ref" where
  "values_ref v ns = obj_reference '''' (vr_Kind v) (vr_Name v) ns"

definition missing_values :: "values_reference \<Rightarrow> helm_release \<Rightarrow> go_error" where
  "missing_values v hr =
     ErrorString (''could not find values '' @
       bq (vr_Kind v @ ''.'' @ hr_Namespace hr @ ''/'' @ vr_Name v) @ '' for helmrelease '' @
       bq (namespaced_name (hr_Namespace hr) (hr_Name hr)))"

text \<open>The data behind a reference, of a resource that has its group and version set.\<close>

definition read_reference ::
    "'r kube_ext \<Rightarrow> values_reference \<Rightarrow> string \<Rightarrow> 'r \<Rightarrow> go_error + string" where
  "read_reference k v ns res =
     bindE (mapErr (wrap ''failed to marshal as yaml'') (AsYAML k res)) (\<lambda>raw.
     bindE (mapErr (wrap (''failed decode values as '' @ bq (''v1.'' @ vr_Kind v))) (Decode k raw)) (\<lambda>obj.
     values_data v ns obj))"

section \<open>All references\<close>

fun compose_loop ::
    "'r kube_ext \<Rightarrow> values_ext \<Rightarrow> helm_release \<Rightarrow> values_reference list \<Rightarrow> values \<Rightarrow> 'r resource_index \<Rightarrow>
     (go_error + values) \<times> 'r resource_index" where
  "compose_loop k x hr [] result db = (Inr result, db)"
| "compose_loop k x hr (v # vs) result db =
     (case db (values_ref v (hr_Namespace hr)) of
        None \<Rightarrow>
          if \<not> vr_Optional v then (Inl (missing_values v hr), db)
          else compose_loop k x hr vs result db
      | Some res \<Rightarrow>
          let res' = SetGvk k res (values_gvk v);
              db' = db(values_ref v (hr_Namespace hr) \<mapsto> res') in
          (case bindE (read_reference k v (hr_Namespace hr) res')
                  (\<lambda>data. merge_value x v (hr_Namespace hr) data result) of
             Inl e \<Rightarrow> (Inl e, db')
           | Inr result' \<Rightarrow> compose_loop k x hr vs result' db'))"

definition composeValues ::
    "'r kube_ext \<Rightarrow> values_ext \<Rightarrow> helm_release \<Rightarrow> 'r resource_index \<Rightarrow>
     (go_error + values) \<times> 'r resource_index" where
  "composeValues k x hr db =
     (case compose_loop k x hr (hr_ValuesFrom hr) [] db of
        (Inl e, db') \<Rightarrow> (Inl e, db')
      | (Inr result, db') \<Rightarrow> (Inr (vx_MergeMaps x result (GetValues hr)), db'))"

section \<open>The values as a fold over the references\<close>

text \<open>
  The specification: every reference is a step that changes the values made so far, read from
  the index as it was before.
\<close>

definition reference_step ::
    "'r kube_ext \<Rightarrow> values_ext \<Rightarrow> helm_release \<Rightarrow> 'r resource_index \<Rightarrow> values_reference \<Rightarrow> values \<Rightarrow>
     go_error + values" where
  "reference_step k x hr db v result =
     (case db (values_ref v (hr_Namespace hr)) of
        None \<Rightarrow> if vr_Optional v then Inr result else Inl (missing_values v hr)
      | Some res \<Rightarrow>
          bindE (read_reference k v (hr_Namespace hr) (SetGvk k res (values_gvk v)))
            (\<lambda>data. merge_value x v (hr_Namespace hr) data result))"

definition values_spec ::
    "'r kube_ext \<Rightarrow> values_ext \<Rightarrow> helm_release \<Rightarrow> 'r resource_index \<Rightarrow> go_error + values" where
  "values_spec k x hr db =
     bindE (foldl (\<lambda>acc v. bindE acc (reference_step k x hr db v)) (Inr []) (hr_ValuesFrom hr))
       (\<lambda>result. Inr (vx_MergeMaps x result (GetValues hr)))"

text \<open>Setting the same group and version twice is setting it once.\<close>

definition gvk_idem :: "'r kube_ext \<Rightarrow> bool" where
  "gvk_idem k \<longleftrightarrow> (\<forall>res g. SetGvk k (SetGvk k res g) g = SetGvk k res g)"

text \<open>An index in which some of the resources a release refers to have their version set.\<close>

definition retyped :: "'r kube_ext \<Rightarrow> string \<Rightarrow> 'r resource_index \<Rightarrow> 'r resource_index \<Rightarrow> bool" where
  "retyped k ns db db' \<longleftrightarrow>
     (\<forall>r. db' r = db r \<or>
        (\<exists>v res. r = values_ref v ns \<and> db r = Some res \<and> db' r = Some (SetGvk k res (values_gvk v))))"

lemma values_gvk_ref: "values_ref v ns = values_ref v' ns \<Longrightarrow> values_gvk v = values_gvk v'"
  by (simp add: values_ref_def obj_reference_def values_gvk_def)

lemma retyped_refl [simp]: "retyped k ns db db"
  by (simp add: retyped_def)

lemma retyped_lookup:
  assumes "retyped k ns db db'" and "gvk_idem k"
  shows "(db' (values_ref v ns) = None) = (db (values_ref v ns) = None)"
    and "db' (values_ref v ns) = Some res' \<Longrightarrow>
      \<exists>res. db (values_ref v ns) = Some res \<and> SetGvk k res' (values_gvk v) = SetGvk k res (values_gvk v)"
  using assms values_gvk_ref[of v ns] unfolding retyped_def gvk_idem_def
  by (metis option.distinct(1), metis option.inject)

lemma retyped_step:
  assumes "retyped k ns db db'" and "gvk_idem k" and "db' (values_ref v ns) = Some res'"
  shows "retyped k ns db (db'(values_ref v ns \<mapsto> SetGvk k res' (values_gvk v)))"
proof -
  obtain res where "db (values_ref v ns) = Some res" "SetGvk k res' (values_gvk v) = SetGvk k res (values_gvk v)"
    using retyped_lookup(2)[OF assms] by blast
  with assms(1) show ?thesis unfolding retyped_def by auto
qed

lemma foldl_bindE_Inl: "foldl (\<lambda>acc v. bindE acc (f v)) (Inl e) vs = Inl e"
  by (induction vs) simp_all

lemma compose_loop_spec:
  assumes "gvk_idem k" and "retyped k (hr_Namespace hr) db0 db"
  shows "fst (compose_loop k x hr vs result db) =
      foldl (\<lambda>acc v. bindE acc (reference_step k x hr db0 v)) (Inr result) vs"
    and "retyped k (hr_Namespace hr) db0 (snd (compose_loop k x hr vs result db))"
  using assms(2)
proof (induction vs arbitrary: result db)
  case (Cons v vs)
  let ?r = "values_ref v (hr_Namespace hr)"
  { case 1
    show ?case
    proof (cases "db ?r")
      case None
      then show ?thesis
        using Cons.IH(1)[OF 1] retyped_lookup(1)[OF 1 assms(1), of v]
        by (auto simp: reference_step_def foldl_bindE_Inl)
    next
      case (Some res')
      define db' where "db' = db(?r \<mapsto> SetGvk k res' (values_gvk v))"
      have "retyped k (hr_Namespace hr) db0 db'"
        using retyped_step[OF 1 assms(1) Some] by (simp add: db'_def)
      note ih = Cons.IH(1)[OF this]
      have "compose_loop k x hr (v # vs) result db =
          (case reference_step k x hr db0 v result of
             Inl e \<Rightarrow> (Inl e, db') | Inr result' \<Rightarrow> compose_loop k x hr vs result' db')"
        using retyped_lookup(2)[OF 1 assms(1) Some] Some
        unfolding db'_def by (auto simp: reference_step_def Let_def simp del: fun_upd_apply)
      then show ?thesis
        using ih by (simp add: foldl_bindE_Inl split: sum.split)
    qed
  next
    case 2
    show ?case
    proof (cases "db ?r")
      case None
      then show ?thesis using Cons.IH(2)[OF 2] 2 by auto
    next
      case (Some res')
      then show ?thesis
        using Cons.IH(2)[OF retyped_step[OF 2 assms(1) Some]] retyped_step[OF 2 assms(1) Some]
        by (auto simp: Let_def simp del: fun_upd_apply split: sum.split)
    qed
  }
qed simp_all


definition sample_kube :: "(string \<times> string) kube_ext" where
  "sample_kube =
     \<lparr>GetMeta = (\<lambda>r. Inr \<lparr>rm_APIVersion = ''v1'', rm_Kind = fst r, rm_Name = snd r, rm_Namespace = ''ns''\<rparr>),
      SetGvk = (\<lambda>r g. (Kind g, snd r)), AsYAML = (\<lambda>r. Inr (snd r)),
      FromAPIVersionAndKind = (\<lambda>v kd. \<lparr>Group = '''', Kind = kd, gvk_Version = v\<rparr>), EvalEnv = Inr,
      Decode = (\<lambda>s. Inr (ConfigMapObj \<lparr>cm_Data = [''values.yaml'' \<mapsto> s]\<rparr>))\<rparr>"

definition sample_values :: values_ext where
  "sample_values =
     \<lparr>ReadValues = (\<lambda>s. Inr [(s, VNull)]), vx_MergeMaps = (@),
      ParseInto = (\<lambda>s vs. Inr (vs @ [(s, VBool False)])),
      ParseIntoString = (\<lambda>s vs. Inr (vs @ [(s, VString s)]))\<rparr>"

definition sample_reference :: "string \<Rightarrow> string \<Rightarrow> values_reference" where
  "sample_reference n target =
     \<lparr>vr_Kind = ''ConfigMap'', vr_Name = n, GetValuesKey = ''values.yaml'', vr_TargetPath = target,
      vr_Optional = True\<rparr>"

definition sample_release :: helm_release where
  "sample_release =
     \<lparr>hr_Name = ''app'', hr_Namespace = ''ns'', hr_Chart = None, hr_ChartRef = False,
      hr_ValuesFrom = [sample_reference ''a'' '''', sample_reference ''gone'' '''', sample_reference ''b'' ''x.y''],
      hr_PostRenderers = [], GetValues = [(''own'', VNull)], GetReleaseName = ''app'',
      GetReleaseNamespace = '''',
      GetInstall = \<lparr>SkipCRDs = False, CRDs = '''', DisableHooks = False, DisableOpenAPIValidation = False,
        DisableSchemaValidation = False, GetTimeout = 5\<rparr>\<rparr>"

definition sample_index :: "(string \<times> string) resource_index" where
  "sample_index = [obj_reference '''' ''ConfigMap'' ''a'' ''ns'' \<mapsto> (''ConfigMap'', ''a''),
     obj_reference '''' ''ConfigMap'' ''b'' ''ns'' \<mapsto> (''ConfigMap'', ''b'')]"


end
