(* ===== verification/ChartCache.thy ===== *)
theory ChartCache
  imports ChartRef Memcache GoOS "HOL-Library.Word"
begin

unbundle bit_operations_syntax

text \<open>
  The chart caches of \<open>internal/helm/chart/cache\<close>: none, in memory and on disk. Each answers
  a repository URL and a chart reference with the path of the chart's archive and a key to
  unlock it. The contract the builder relies on is the locale \<open>chart_cache_contract\<close>; each of
  the three caches, and the value behind Go's interface, is an interpretation of it.

  The library for file locks is not part of the repository; what is used of it is that a lock
  of a held lock file blocks and that unlocking releases it.
\<close>

section \<open>Cache types\<close>

datatype cache_type = CacheTypeNone | CacheTypeInmemory | CacheTypeFS

fun cache_type_int :: "cache_type \<Rightarrow> nat" where
  "cache_type_int CacheTypeNone = 0"
| "cache_type_int CacheTypeInmemory = 1"
| "cache_type_int CacheTypeFS = 2"

instantiation cache_type :: linorder
begin

definition less_eq_cache_type :: "cache_type \<Rightarrow> cache_type \<Rightarrow> bool" where
  "s \<le> t \<longleftrightarrow> cache_type_int s \<le> cache_type_int t"

definition less_cache_type :: "cache_type \<Rightarrow> cache_type \<Rightarrow> bool" where
  "s < t \<longleftrightarrow> cache_type_int s < cache_type_int t"

instance
proof
  fix s t :: cache_type
  show "s \<le> t \<Longrightarrow> t \<le> s \<Longrightarrow> s = t"
    by (cases s; cases t) (simp_all add: less_eq_cache_type_def)
qed (auto simp: less_eq_cache_type_def less_cache_type_def)

end

definition cacheTypeConvertion :: "string \<rightharpoonup> cache_type" where
  "cacheTypeConvertion =
     map_of [(''none'', CacheTypeNone), (''inmemory'', CacheTypeInmemory), (''fs'', CacheTypeFS)]"

definition StringToCacheType :: "string \<Rightarrow> go_error + cache_type" where
  "StringToCacheType s =
     (case cacheTypeConvertion s of
        None \<Rightarrow> Inl (ErrorString (''CacheType '' @ [CHR 0x22] @ s @ [CHR 0x22] @ '' isn'' @ [CHR 0x27] @ ''t supported''))
      | Some ct \<Rightarrow> Inr ct)"

section \<open>File names\<close>

text \<open>The 32 bit FNV-1a hash of the bytes of a string.\<close>

definition fnv32a :: "string \<Rightarrow> 32 word" where
  "fnv32a s = foldl (\<lambda>h c. (h XOR of_nat (of_char c)) * 16777619) 2166136261 s"

definition cache_basename :: "string \<Rightarrow> remote_reference \<Rightarrow> string" where
  "cache_basename repo ref =
     hex_of_nat (unat (fnv32a repo)) @ ''%'' @ RemoteReference_String ref"

text \<open>A name with sixteen random bytes, which are the first argument.\<close>

definition random_filepath :: "string \<Rightarrow> string \<Rightarrow> string \<Rightarrow> string" where
  "random_filepath rnd dir base = path_join [dir, base @ ''-'' @ hex_encode rnd @ ''.tgz'']"

section \<open>The three caches\<close>

datatype cache_key = CacheKey (key_ref: remote_reference) (key_Repo: string)

text \<open>
  The key to unlock, of type \<open>any\<close> in Go. A lookup gives a path and such a key, or it has to
  wait for the holder of a lock.
\<close>

datatype handle = NoHandle | KeyHandle cache_key | LockHandle string

datatype lookup = Ready string handle | Wait

record null_cache =
  null_dir :: string

record inmemory_cache =
  mem_dir :: string
  mem_cache :: "(cache_key, string) Memcache.cache"

record fs_cache =
  fs_dir :: string
  fs_held :: "string set"

definition Null_GetOrLock ::
    "string \<Rightarrow> string \<Rightarrow> remote_reference \<Rightarrow> null_cache \<Rightarrow> lookup \<times> null_cache" where
  "Null_GetOrLock rnd repo ref c =
     (let fn = cache_basename repo ref in (Ready (random_filepath rnd (null_dir c) fn) NoHandle, c))"

definition Null_SetUnlock :: "string \<Rightarrow> handle \<Rightarrow> null_cache \<Rightarrow> (go_error option \<times> null_cache) option" where
  "Null_SetUnlock rnd a c = Some (None, c)"

definition InMemory_GetOrLock ::
    "string \<Rightarrow> string \<Rightarrow> remote_reference \<Rightarrow> inmemory_cache \<Rightarrow> lookup \<times> inmemory_cache" where
  "InMemory_GetOrLock rnd repo ref c =
     (let fn = cache_basename repo ref; key = CacheKey ref repo in
      case GetOrLock key (mem_cache c) of
        (Found p, m) \<Rightarrow> (Ready p NoHandle, c\<lparr>mem_cache := m\<rparr>)
      | (Locked, m) \<Rightarrow> (Ready (random_filepath rnd (mem_dir c) fn) (KeyHandle key), c\<lparr>mem_cache := m\<rparr>)
      | (Blocked l, m) \<Rightarrow> (Wait, c\<lparr>mem_cache := m\<rparr>))"

text \<open>The rest of a lookup that had to wait.\<close>

definition InMemory_resume ::
    "string \<Rightarrow> string \<Rightarrow> remote_reference \<Rightarrow> inmemory_cache \<Rightarrow> lookup" where
  "InMemory_resume rnd repo ref c =
     (let fn = cache_basename repo ref; key = CacheKey ref repo in
      case GetOrLock_resume key (mem_cache c) of
        Some p \<Rightarrow> Ready p NoHandle
      | None \<Rightarrow> Ready (random_filepath rnd (mem_dir c) fn) (KeyHandle key))"

text \<open>
  Unlocking: \<^term>\<open>None\<close> is a panic (a channel closed twice), else an error or none, and the new
  state. The error text prints the value it was given; \<open>unlock_error\<close> leaves that out.
\<close>

definition unlock_error :: "string \<Rightarrow> go_error" where
  "unlock_error t = ErrorString (''unlock failed, can'' @ [CHR 0x27] @ ''t convert to '' @ t)"

definition InMemory_SetUnlock ::
    "string \<Rightarrow> handle \<Rightarrow> inmemory_cache \<Rightarrow> (go_error option \<times> inmemory_cache) option" where
  "InMemory_SetUnlock rnd a c =
     (case a of
        NoHandle \<Rightarrow> Some (None, c)
      | KeyHandle key \<Rightarrow>
          (case SetUnlock key (random_filepath rnd (mem_dir c) (cache_basename (key_Repo key) (key_ref key)))
                  (mem_cache c) of
             None \<Rightarrow> None
           | Some m \<Rightarrow> Some (None, c\<lparr>mem_cache := m\<rparr>))
      | LockHandle p \<Rightarrow> Some (Some (unlock_error ''InMemoryKey''), c))"

definition lockSuffix :: string where
  "lockSuffix = ''.lock''"

definition fs_path :: "string \<Rightarrow> string \<Rightarrow> remote_reference \<Rightarrow> string" where
  "fs_path dir repo ref = path_join [dir, cache_basename repo ref @ ''.tgz'']"

text \<open>The file lock may fail with an error of the system, the first argument.\<close>

definition FS_GetOrLock ::
    "go_error option \<Rightarrow> string \<Rightarrow> remote_reference \<Rightarrow> fs_cache \<Rightarrow> go_error + lookup \<times> fs_cache" where
  "FS_GetOrLock flk repo ref c =
     (let fileName = fs_path (fs_dir c) repo ref; lockFileName = fileName @ lockSuffix in
      case flk of
        Some e \<Rightarrow> Inl e
      | None \<Rightarrow>
          if lockFileName \<in> fs_held c then Inr (Wait, c)
          else Inr (Ready fileName (LockHandle lockFileName),
                    c\<lparr>fs_held := insert lockFileName (fs_held c)\<rparr>))"

definition FS_SetUnlock :: "handle \<Rightarrow> fs_cache \<Rightarrow> (go_error option \<times> fs_cache) option" where
  "FS_SetUnlock a c =
     (case a of
        LockHandle p \<Rightarrow> Some (None, c\<lparr>fs_held := fs_held c - {p}\<rparr>)
      | _ \<Rightarrow> Some (Some (unlock_error ''*flock.Flock''), c))"

text \<open>The interface value, and its two methods.\<close>

datatype chart_cache = NullCache null_cache | InMemoryCache inmemory_cache | FSCache fs_cache

definition Cache_GetOrLock ::
    "go_error option \<Rightarrow> string \<Rightarrow> string \<Rightarrow> remote_reference \<Rightarrow> chart_cache \<Rightarrow>
     go_error + lookup \<times> chart_cache" where
  "Cache_GetOrLock flk rnd repo ref c =
     (case c of
        NullCache n \<Rightarrow> Inr (map_prod id NullCache (Null_GetOrLock rnd repo ref n))
      | InMemoryCache m \<Rightarrow> Inr (map_prod id InMemoryCache (InMemory_GetOrLock rnd repo ref m))
      | FSCache f \<Rightarrow> map_sum id (map_prod id FSCache) (FS_GetOrLock flk repo ref f))"

definition Cache_SetUnlock ::
    "string \<Rightarrow> handle \<Rightarrow> chart_cache \<Rightarrow> (go_error option \<times> chart_cache) option" where
  "Cache_SetUnlock rnd a c =
     (case c of
        NullCache n \<Rightarrow> map_option (map_prod id NullCache) (Null_SetUnlock rnd a n)
      | InMemoryCache m \<Rightarrow> map_option (map_prod id InMemoryCache) (InMemory_SetUnlock rnd a m)
      | FSCache f \<Rightarrow> map_option (map_prod id FSCache) (FS_SetUnlock a f))"

definition NewCache :: "string \<Rightarrow> string \<Rightarrow> chart_cache io" where
  "NewCache cacheType cacheDir =
     io_bind (io_lift (StringToCacheType cacheType)) (\<lambda>ct.
     case ct of
       CacheTypeInmemory \<Rightarrow>
         io_bind (os_MkdirTemp '''' ''helmcharts'') (\<lambda>dir.
         io_return (InMemoryCache \<lparr>mem_dir = dir, mem_cache = New\<rparr>))
     | CacheTypeFS \<Rightarrow>
         io_bind (os_MkdirAll cacheDir) (\<lambda>_. io_return (FSCache \<lparr>fs_dir = cacheDir, fs_held = {}\<rparr>))
     | CacheTypeNone \<Rightarrow>
         io_bind (os_MkdirTemp '''' ''helmcharts'') (\<lambda>dir. io_return (NullCache \<lparr>null_dir = dir\<rparr>)))"

section \<open>Where the files lie\<close>

text \<open>A reference without a slash in name or version; \<open>WithEscapedName\<close> sees to the name.\<close>

definition plain_ref :: "remote_reference \<Rightarrow> bool" where
  "plain_ref r \<longleftrightarrow> slash \<notin> set (ref_Name r) \<and> slash \<notin> set (ref_Version r)"

lemma plain_ref_escaped: "plain_ref (WithEscapedName r) \<longleftrightarrow> slash \<notin> set (ref_Version r)"
  by (simp add: plain_ref_def path_escape_no_slash)

lemma percent_elem: "CHR ''%'' \<in> set x \<Longrightarrow> slash \<notin> set x \<Longrightarrow> plain_elem x"
  by (auto simp: plain_elem_def)

lemma no_slash_hex: "slash \<notin> set (hex_of_nat n)" "slash \<notin> set (hex_encode bs)"
  using set_hex_of_nat[of n] set_hex_encode[of bs] by (auto simp: slash_def)

lemma basename_elem:
  assumes "plain_ref r" and "slash \<notin> set suf"
  shows "plain_elem (cache_basename repo r @ suf)"
  by (rule percent_elem)
    (use assms no_slash_hex in \<open>auto simp: cache_basename_def RemoteReference_String_def plain_ref_def slash_def\<close>)

lemma random_filepath_in: "plain_ref r \<Longrightarrow> directly_in d (random_filepath rnd d (cache_basename repo r))"
  unfolding random_filepath_def
  by (intro directly_in_join basename_elem) (use no_slash_hex in \<open>auto simp: slash_def\<close>)

lemma fs_path_in: "plain_ref r \<Longrightarrow> directly_in d (fs_path d repo r)"
  unfolding fs_path_def by (intro directly_in_join basename_elem) (auto simp: slash_def)

section \<open>The contract of a chart cache\<close>

text \<open>
  What a caller that unlocks what it locked relies on: the path of a plain reference lies in
  the cache's directory, a cache in which nothing is locked does not block, and unlocking
  releases the lock and never panics.
\<close>

locale chart_cache_contract =
  fixes getlock :: "string \<Rightarrow> string \<Rightarrow> remote_reference \<Rightarrow> 'c \<Rightarrow> go_error + lookup \<times> 'c"
    and unlock :: "string \<Rightarrow> handle \<Rightarrow> 'c \<Rightarrow> (go_error option \<times> 'c) option"
    and dir_of :: "'c \<Rightarrow> string"
    and held :: "'c \<Rightarrow> handle set"
    and wf :: "'c \<Rightarrow> bool"
  assumes get_ready: "wf c \<Longrightarrow> getlock rnd repo r c = Inr (Ready p h, c') \<Longrightarrow>
      (plain_ref r \<longrightarrow> directly_in (dir_of c) p) \<and> wf c' \<and> dir_of c' = dir_of c \<and>
      held c' = held c \<union> ({h} - {NoHandle})"
    and get_free: "wf c \<Longrightarrow> held c = {} \<Longrightarrow> getlock rnd repo r c = Inr (lk, c') \<Longrightarrow> lk \<noteq> Wait"
    and unlock_ok: "wf c \<Longrightarrow> h = NoHandle \<or> h \<in> held c \<Longrightarrow>
      \<exists>e c'. unlock rnd h c = Some (e, c') \<and> wf c' \<and> dir_of c' = dir_of c \<and> held c' = held c - {h}"
begin

lemma session:
  assumes "wf c" and "held c = {}" and "getlock rnd repo r c = Inr (lk, c1)"
  obtains p h e c2 where "lk = Ready p h" and "plain_ref r \<longrightarrow> directly_in (dir_of c) p"
    and "unlock rnd' h c1 = Some (e, c2)" and "wf c2" and "held c2 = {}" and "dir_of c2 = dir_of c"
proof (cases lk)
  case Wait
  with get_free assms show ?thesis by blast
next
  case (Ready p h)
  with get_ready assms have 1: "plain_ref r \<longrightarrow> directly_in (dir_of c) p" "wf c1" "dir_of c1 = dir_of c"
    "held c1 = {h} - {NoHandle}" by auto
  then obtain e c2 where "unlock rnd' h c1 = Some (e, c2)" "wf c2" "dir_of c2 = dir_of c1"
    "held c2 = held c1 - {h}"
    using unlock_ok[of c1 h rnd'] by auto
  with 1 Ready that show ?thesis by auto
qed

end

definition null_wf :: "null_cache \<Rightarrow> bool" where
  "null_wf c = True"

definition null_held :: "null_cache \<Rightarrow> handle set" where
  "null_held c = {}"

interpretation null: chart_cache_contract
    "\<lambda>rnd repo r c. Inr (Null_GetOrLock rnd repo r c)" Null_SetUnlock null_dir null_held null_wf
  by unfold_locales
    (auto simp: Null_GetOrLock_def Null_SetUnlock_def null_wf_def null_held_def random_filepath_in)

definition mem_wf :: "inmemory_cache \<Rightarrow> bool" where
  "mem_wf c \<longleftrightarrow>
     cache_wf (mem_cache c) \<and>
     (\<forall>k p. cache_values (mem_cache c) k = Some p \<longrightarrow> plain_ref (key_ref k) \<longrightarrow> directly_in (mem_dir c) p)"

definition mem_held :: "inmemory_cache \<Rightarrow> handle set" where
  "mem_held c = KeyHandle ` cache_locks (mem_cache c)"

lemma mem_get_ready:
  assumes "mem_wf c" and "InMemory_GetOrLock rnd repo r c = (Ready p h, c')"
  shows "(plain_ref r \<longrightarrow> directly_in (mem_dir c) p) \<and> mem_wf c' \<and> mem_dir c' = mem_dir c \<and>
    mem_held c' = mem_held c \<union> ({h} - {NoHandle})"
proof -
  let ?k = "CacheKey r repo"
  have wf: "cache_wf (mem_cache c)" using assms(1) by (simp add: mem_wf_def)
  consider (found) v where "cache_values (mem_cache c) ?k = Some v"
    | (blocked) "?k \<in> cache_locks (mem_cache c)"
    | (locked) "cache_values (mem_cache c) ?k = None" "?k \<notin> cache_locks (mem_cache c)"
    by (cases "cache_values (mem_cache c) ?k") auto
  then show ?thesis
  proof cases
    case found
    with mc.get_found[OF wf found] assms show ?thesis
      by (auto simp: InMemory_GetOrLock_def Let_def mem_wf_def mem_held_def)
  next
    case blocked
    then obtain l where "GetOrLock ?k (mem_cache c) = (Blocked l, mem_cache c)"
      using mc.get_blocked[OF wf] by blast
    with assms(2) show ?thesis by (simp add: InMemory_GetOrLock_def Let_def)
  next
    case locked
    then obtain m where "GetOrLock ?k (mem_cache c) = (Locked, m)" "cache_wf m"
      "cache_values m = cache_values (mem_cache c)" "cache_locks m = insert ?k (cache_locks (mem_cache c))"
      using mc.get_locked[OF wf] by blast
    with assms show ?thesis
      by (auto simp: InMemory_GetOrLock_def Let_def mem_wf_def mem_held_def random_filepath_in)
  qed
qed

lemma mem_get_free:
  assumes "mem_wf c" and "mem_held c = {}" and "InMemory_GetOrLock rnd repo r c = (lk, c')"
  shows "lk \<noteq> Wait"
proof -
  have "cache_wf (mem_cache c)" "cache_locks (mem_cache c) = {}"
    using assms by (auto simp: mem_wf_def mem_held_def)
  then show ?thesis
    by (rule mc.get_unlocked[of _ "CacheKey r repo"])
      (use assms(3) in \<open>auto simp: InMemory_GetOrLock_def Let_def\<close>)
qed

lemma mem_unlock_ok:
  assumes "mem_wf c" and "h = NoHandle \<or> h \<in> mem_held c"
  shows "\<exists>e c'. InMemory_SetUnlock rnd h c = Some (e, c') \<and> mem_wf c' \<and> mem_dir c' = mem_dir c \<and>
    mem_held c' = mem_held c - {h}"
proof (cases h)
  case (KeyHandle k)
  with assms have k: "k \<in> cache_locks (mem_cache c)" "cache_wf (mem_cache c)"
    by (auto simp: mem_wf_def mem_held_def)
  let ?p = "random_filepath rnd (mem_dir c) (cache_basename (key_Repo k) (key_ref k))"
  obtain m where m: "SetUnlock k ?p (mem_cache c) = Some m" "cache_wf m"
    "cache_values m = (cache_values (mem_cache c))(k \<mapsto> ?p)"
    "cache_locks m = cache_locks (mem_cache c) - {k}"
    using mc.put_ok[OF k(2)] by blast
  with KeyHandle assms(1) k show ?thesis
    by (auto simp: InMemory_SetUnlock_def mem_wf_def mem_held_def random_filepath_in)
next
  case NoHandle
  with assms show ?thesis by (auto simp: InMemory_SetUnlock_def mem_held_def)
next
  case (LockHandle p)
  with assms show ?thesis by (auto simp: mem_held_def)
qed

interpretation mem: chart_cache_contract
    "\<lambda>rnd repo r c. Inr (InMemory_GetOrLock rnd repo r c)" InMemory_SetUnlock mem_dir mem_held mem_wf
  by unfold_locales (simp_all add: mem_get_ready mem_get_free mem_unlock_ok)

definition fs_wf :: "fs_cache \<Rightarrow> bool" where
  "fs_wf c = True"

definition fs_locks :: "fs_cache \<Rightarrow> handle set" where
  "fs_locks c = LockHandle ` fs_held c"

lemma fs_get_ready:
  assumes "FS_GetOrLock flk repo r c = Inr (Ready p h, c')"
  shows "(plain_ref r \<longrightarrow> directly_in (fs_dir c) p) \<and> fs_wf c' \<and> fs_dir c' = fs_dir c \<and>
    fs_locks c' = fs_locks c \<union> ({h} - {NoHandle})"
  using assms
  by (auto simp: FS_GetOrLock_def Let_def fs_wf_def fs_locks_def fs_path_in split: option.splits if_splits)

lemma fs_get_free:
  assumes "fs_locks c = {}" and "FS_GetOrLock flk repo r c = Inr (lk, c')"
  shows "lk \<noteq> Wait"
  using assms by (auto simp: FS_GetOrLock_def Let_def fs_locks_def split: option.splits if_splits)

lemma fs_unlock_ok:
  assumes "h = NoHandle \<or> h \<in> fs_locks c"
  shows "\<exists>e c'. FS_SetUnlock h c = Some (e, c') \<and> fs_wf c' \<and> fs_dir c' = fs_dir c \<and>
    fs_locks c' = fs_locks c - {h}"
  using assms by (cases h) (auto simp: FS_SetUnlock_def fs_wf_def fs_locks_def)

interpretation fs: chart_cache_contract
    "\<lambda>rnd repo r c. FS_GetOrLock None repo r c" "\<lambda>rnd. FS_SetUnlock" fs_dir fs_locks fs_wf
  by unfold_locales (blast dest: fs_get_ready, blast dest: fs_get_free, rule fs_unlock_ok)

section \<open>The interface value\<close>

definition cc_dir :: "chart_cache \<Rightarrow> string" where
  "cc_dir c = (case c of NullCache n \<Rightarrow> null_dir n | InMemoryCache m \<Rightarrow> mem_dir m | FSCache f \<Rightarrow> fs_dir f)"

definition cc_held :: "chart_cache \<Rightarrow> handle set" where
  "cc_held c = (case c of NullCache n \<Rightarrow> null_held n | InMemoryCache m \<Rightarrow> mem_held m | FSCache f \<Rightarrow> fs_locks f)"

definition cc_wf :: "chart_cache \<Rightarrow> bool" where
  "cc_wf c = (case c of NullCache n \<Rightarrow> null_wf n | InMemoryCache m \<Rightarrow> mem_wf m | FSCache f \<Rightarrow> fs_wf f)"

lemmas cc_defs = cc_dir_def cc_held_def cc_wf_def Cache_GetOrLock_def Cache_SetUnlock_def

lemma Cache_GetOrLock_cases:
  assumes "Cache_GetOrLock flk rnd repo r c = Inr (lk, c')"
  obtains n n' where "c = NullCache n" "c' = NullCache n'" "Null_GetOrLock rnd repo r n = (lk, n')"
    | m m' where "c = InMemoryCache m" "c' = InMemoryCache m'" "InMemory_GetOrLock rnd repo r m = (lk, m')"
    | f f' where "c = FSCache f" "c' = FSCache f'" "FS_GetOrLock flk repo r f = Inr (lk, f')"
  using assms unfolding Cache_GetOrLock_def
  by (cases c) (auto simp: map_prod_def map_sum_def split: prod.splits sum.splits)

lemma cc_get_ready:
  assumes "cc_wf c" and "Cache_GetOrLock flk rnd repo r c = Inr (Ready p h, c')"
  shows "(plain_ref r \<longrightarrow> directly_in (cc_dir c) p) \<and> cc_wf c' \<and> cc_dir c' = cc_dir c \<and>
    cc_held c' = cc_held c \<union> ({h} - {NoHandle})"
  using assms(2)
proof (cases rule: Cache_GetOrLock_cases)
  case (1 n n')
  with null.get_ready[of n rnd repo r p h n'] assms(1) show ?thesis by (simp add: cc_defs)
next
  case (2 m m')
  with mem_get_ready[of m rnd repo r p h m'] assms(1) show ?thesis by (simp add: cc_defs)
next
  case (3 f f')
  with fs_get_ready[of flk repo r f p h f'] assms(1) show ?thesis by (simp add: cc_defs)
qed

lemma cc_get_free:
  assumes "cc_wf c" and "cc_held c = {}" and "Cache_GetOrLock flk rnd repo r c = Inr (lk, c')"
  shows "lk \<noteq> Wait"
  using assms(3)
proof (cases rule: Cache_GetOrLock_cases)
  case (1 n n')
  with null.get_free[of n rnd repo r lk n'] assms(1,2) show ?thesis by (simp add: cc_defs)
next
  case (2 m m')
  with mem_get_free[of m rnd repo r lk m'] assms(1,2) show ?thesis by (simp add: cc_defs)
next
  case (3 f f')
  with fs_get_free[of f flk repo r lk f'] assms(1,2) show ?thesis by (simp add: cc_defs)
qed

lemma cc_unlock_ok:
  assumes "cc_wf c" and "h = NoHandle \<or> h \<in> cc_held c"
  shows "\<exists>e c'. Cache_SetUnlock rnd h c = Some (e, c') \<and> cc_wf c' \<and> cc_dir c' = cc_dir c \<and>
    cc_held c' = cc_held c - {h}"
proof (cases c)
  case (NullCache n)
  with assms null.unlock_ok[of n h rnd] show ?thesis by (auto simp: cc_defs)
next
  case (InMemoryCache m)
  with assms mem.unlock_ok[of m h rnd] show ?thesis by (auto simp: cc_defs)
next
  case (FSCache f)
  with assms fs_unlock_ok[of h f] show ?thesis by (auto simp: cc_defs)
qed

interpretation cc: chart_cache_contract "Cache_GetOrLock flk" Cache_SetUnlock cc_dir cc_held cc_wf
  for flk
  by unfold_locales (blast dest: cc_get_ready, blast dest: cc_get_free, rule cc_unlock_ok)

lemma NewCache_ok:
  assumes "NewCache t d w = (Inr c, w')"
  shows "cc_wf c \<and> cc_held c = {}"
  using assms
  by (auto simp: NewCache_def cc_defs null_wf_def null_held_def mem_wf_def mem_held_def fs_wf_def
      fs_locks_def New_def cache_wf_def cache_values_def cache_locks_def io_return_def io_lift_def
      elim!: io_bind_InrE split: cache_type.splits)

text \<open>
  The builder's use of the cache for one chart (\<open>buildFromHelmRepository\<close> in
  \<open>internal/build/helm.go\<close>): the lookup under the escaped name, and the deferred unlocking
  whose error is dropped. \<^term>\<open>None\<close> is a call that never returns or that panics.
\<close>

definition chart_cache_run ::
    "go_error option \<Rightarrow> string \<Rightarrow> string \<Rightarrow> string \<Rightarrow> remote_reference \<Rightarrow> chart_cache \<Rightarrow>
     ((go_error + string) \<times> chart_cache) option" where
  "chart_cache_run flk rnd rnd' repo ref c =
     (case Cache_GetOrLock flk rnd repo (WithEscapedName ref) c of
        Inl e \<Rightarrow> Some (Inl e, c)
      | Inr (Wait, c1) \<Rightarrow> None
      | Inr (Ready p h, c1) \<Rightarrow>
          (case Cache_SetUnlock rnd' h c1 of
             None \<Rightarrow> None
           | Some (err, c2) \<Rightarrow> Some (Inr p, c2)))"

fun chart_cache_runs ::
    "(go_error option \<times> string \<times> string \<times> string \<times> remote_reference) list \<Rightarrow> chart_cache \<Rightarrow>
     ((go_error + string) list \<times> chart_cache) option" where
  "chart_cache_runs [] c = Some ([], c)"
| "chart_cache_runs ((flk, rnd, rnd', repo, ref) # reqs) c =
     (case chart_cache_run flk rnd rnd' repo ref c of
        None \<Rightarrow> None
      | Some (r, c') \<Rightarrow> map_option (map_prod (\<lambda>rs. r # rs) id) (chart_cache_runs reqs c'))"

definition plain_version :: "remote_reference \<Rightarrow> bool" where
  "plain_version r \<longleftrightarrow> slash \<notin> set (ref_Version r)"

definition path_in_dir :: "string \<Rightarrow> go_error + string \<Rightarrow> bool" where
  "path_in_dir d r = (case r of Inl _ \<Rightarrow> True | Inr p \<Rightarrow> directly_in d p)"

lemma chart_cache_run_ok:
  assumes "cc_wf c" and "cc_held c = {}"
  shows "\<exists>x c'. chart_cache_run flk rnd rnd' repo r c = Some (x, c') \<and>
    (plain_version r \<longrightarrow> path_in_dir (cc_dir c) x) \<and>
    cc_wf c' \<and> cc_held c' = {} \<and> cc_dir c' = cc_dir c"
proof (cases "Cache_GetOrLock flk rnd repo (WithEscapedName r) c")
  case (Inl e)
  with assms show ?thesis by (simp add: chart_cache_run_def path_in_dir_def)
next
  case (Inr y)
  obtain lk c1 where y: "y = (lk, c1)" by fastforce
  from cc.session[OF assms(1,2) Inr[unfolded y], of rnd'] obtain p h e c2 where
    "lk = Ready p h" "plain_ref (WithEscapedName r) \<longrightarrow> directly_in (cc_dir c) p"
    "Cache_SetUnlock rnd' h c1 = Some (e, c2)" "cc_wf c2" "cc_held c2 = {}" "cc_dir c2 = cc_dir c"
    by metis
  with Inr y show ?thesis
    by (simp add: chart_cache_run_def path_in_dir_def plain_ref_escaped plain_version_def)
qed

lemma chart_cache_runs_ok:
  assumes "cc_wf c" and "cc_held c = {}"
    and "list_all (\<lambda>(flk, rnd, rnd', repo, r). plain_version r) reqs"
  shows "\<exists>rs c'. chart_cache_runs reqs c = Some (rs, c') \<and> length rs = length reqs \<and>
    list_all (path_in_dir (cc_dir c)) rs \<and> cc_held c' = {}"
  using assms
proof (induction reqs arbitrary: c)
  case (Cons q reqs)
  obtain flk rnd rnd' repo r where q: "q = (flk, rnd, rnd', repo, r)" by (cases q) auto
  with Cons.prems chart_cache_run_ok[of c flk rnd rnd' repo r] obtain x c' where
    1: "chart_cache_run flk rnd rnd' repo r c = Some (x, c')" "path_in_dir (cc_dir c) x"
      "cc_wf c'" "cc_held c' = {}" "cc_dir c' = cc_dir c" by auto
  from Cons.IH[OF 1(3,4)] Cons.prems(3) obtain rs c2 where
    "chart_cache_runs reqs c' = Some (rs, c2)" "length rs = length reqs"
    "list_all (path_in_dir (cc_dir c')) rs" "cc_held c2 = {}" by auto
  with 1 q show ?case by auto
qed simp

text \<open>
  A cache made by \<open>New\<close>, of whatever type, serves any sequence of builds one after the
  other: no lookup blocks, no unlocking panics, every path handed out lies directly in the
  cache's directory, and at the end nothing is locked. The versions asked for must hold no
  slash; the names may be anything.
\<close>

theorem builds_in_sequence:
  assumes "NewCache cacheType cacheDir w = (Inr c, w')"
    and "list_all (\<lambda>(flk, rnd, rnd', repo, r). plain_version r) reqs"
  shows "\<exists>rs c'. chart_cache_runs reqs c = Some (rs, c') \<and> length rs = length reqs \<and>
    list_all (path_in_dir (cc_dir c)) rs \<and> cc_held c' = {}"
  using chart_cache_runs_ok NewCache_ok assms by blast

definition some_requests ::
    "(go_error option \<times> string \<times> string \<times> string \<times> remote_reference) list" where
  "some_requests =
     [(None, ''ab'', ''cd'', ''https://charts.example.org/'', \<lparr>ref_Name = ''web/app'', ref_Version = ''1.0''\<rparr>),
      (None, ''ef'', ''gh'', ''https://charts.example.org/'', \<lparr>ref_Name = ''web/app'', ref_Version = ''1.0''\<rparr>)]"

theorem builds_in_sequence_witness:
  "\<exists>rs c'. chart_cache_runs some_requests (projr (fst (NewCache ''fs'' ''/t'' small_world))) = Some (rs, c') \<and>
    length rs = length some_requests \<and>
    list_all (path_in_dir (cc_dir (projr (fst (NewCache ''fs'' ''/t'' small_world))))) rs \<and> cc_held c' = {}"
proof (rule builds_in_sequence)
  have "isl (fst (NewCache ''fs'' ''/t'' small_world)) = False" by code_simp
  then show "NewCache ''fs'' ''/t'' small_world =
      (Inr (projr (fst (NewCache ''fs'' ''/t'' small_world))), snd (NewCache ''fs'' ''/t'' small_world))"
    by (metis prod.collapse sum.collapse(2))
  show "list_all (\<lambda>(flk, rnd, rnd', repo, r). plain_version r) some_requests" by code_simp
qed

text \<open>
  A version is not escaped, and nothing has checked the reference when the path is made:
  with a version that climbs, the path of the archive (which the build writes to) lies outside
  of the cache's directory, for every repository and chart name.
\<close>

theorem version_escapes_cache_dir:
  "\<not> inside ''/var/cache''
     (fs_path ''/var/cache'' repo
        (WithEscapedName \<lparr>ref_Name = nm, ref_Version = ''/../../../etc/cron.d/x''\<rparr>))"
proof -
  define e where "e = hex_of_nat (unat (fnv32a repo)) @ ''%'' @ path_escape nm @ ''%''"
  have e: "slash \<notin> set e" "plain_elem e"
    using no_slash_hex(1) path_escape_no_slash[of nm]
    by (auto simp: e_def slash_def intro!: percent_elem)
  have J: "join_with ''/'' [''/var/cache'', cache_basename repo
        (WithEscapedName \<lparr>ref_Name = nm, ref_Version = ''/../../../etc/cron.d/x''\<rparr>) @ ''.tgz''] =
      ''/var/cache'' @ slash # e @ slash # ''../../../etc/cron.d/x.tgz''"
    by (simp add: e_def cache_basename_def RemoteReference_String_def slash_def WithEscapedName_def)
  have "fs_path ''/var/cache'' repo
      (WithEscapedName \<lparr>ref_Name = nm, ref_Version = ''/../../../etc/cron.d/x''\<rparr>) =
    path_clean (join_with ''/'' [''/var/cache'', cache_basename repo
        (WithEscapedName \<lparr>ref_Name = nm, ref_Version = ''/../../../etc/cron.d/x''\<rparr>) @ ''.tgz''])"
    by (simp add: fs_path_def path_join_def cache_basename_def del: join_with.simps)
  then have p: "path_elems (fs_path ''/var/cache'' repo
      (WithEscapedName \<lparr>ref_Name = nm, ref_Version = ''/../../../etc/cron.d/x''\<rparr>)) =
      path_elems (''/var/cache'' @ slash # e @ slash # ''../../../etc/cron.d/x.tgz'')"
    by (simp only: J path_elems_clean)
  have "split_char slash ''../../../etc/cron.d/x.tgz'' = [''..'', ''..'', ''..'', ''etc'', ''cron.d'', ''x.tgz'']"
    "split_char slash ''/var/cache'' = ['''', ''var'', ''cache'']" by code_simp+
  then have "path_elems (''/var/cache'' @ slash # e @ slash # ''../../../etc/cron.d/x.tgz'') =
      clean_elems True ['''', ''var'', ''cache'', e, ''..'', ''..'', ''..'', ''etc'', ''cron.d'', ''x.tgz'']"
    unfolding path_elems_def split_char_at split_char_word[OF e(1)]
    by (simp add: is_abs_def)
  also have "\<dots> = [''etc'', ''cron.d'', ''x.tgz'']"
    using e(2) by (simp add: clean_elems_def clean_step_def plain_elem_def)
  finally have "path_elems (fs_path ''/var/cache'' repo
      (WithEscapedName \<lparr>ref_Name = nm, ref_Version = ''/../../../etc/cron.d/x''\<rparr>)) =
      [''etc'', ''cron.d'', ''x.tgz'']" using p by simp
  moreover have "path_elems ''/var/cache'' = [''var'', ''cache'']" by code_simp
  ultimately show ?thesis by (simp add: inside_def)
qed

section \<open>Which requests share a file\<close>

lemma takeWhile_stop: "c \<notin> set v \<Longrightarrow> takeWhile (\<lambda>x. x \<noteq> c) (v @ c # n) = v"
  by (induction v) auto

lemma split_at_percent:
  assumes "CHR ''%'' \<notin> set v" and "CHR ''%'' \<notin> set v'" and "n @ ''%'' @ v = n' @ ''%'' @ v'"
  shows "n = n' \<and> v = v'"
proof -
  have "rev v @ CHR ''%'' # rev n = rev v' @ CHR ''%'' # rev n'"
    using arg_cong[OF assms(3), of rev] by simp
  then have "rev v = rev v'" using takeWhile_stop assms(1,2) by (metis set_rev)
  with assms(3) show ?thesis by simp
qed

lemma hash_prefix:
  assumes "hex_of_nat m @ ''%'' @ s = hex_of_nat n @ ''%'' @ t"
  shows "m = n \<and> s = t"
proof -
  have h: "CHR ''%'' \<notin> set (hex_of_nat k)" for k
    using set_hex_of_nat[of k] by auto
  have "hex_of_nat m = hex_of_nat n"
    using takeWhile_stop[OF h, of m s] takeWhile_stop[OF h, of n t] assms by simp
  with assms show ?thesis by (simp add: hex_of_nat_inject)
qed

lemma cache_basename_eq:
  "cache_basename repo r = cache_basename repo' r' \<longleftrightarrow>
   fnv32a repo = fnv32a repo' \<and> RemoteReference_String r = RemoteReference_String r'"
  unfolding cache_basename_def by (metis hash_prefix unsigned_word_eqI)

text \<open>
  C27. On disk two builds share a file only if they ask for the same name and version and
  their repository URLs have the same hash, provided the versions hold neither a slash nor a
  percent sign.
\<close>

theorem fs_cache_separates_charts:
  assumes "plain_version r" and "plain_version r'"
    and "CHR ''%'' \<notin> set (ref_Version r)" and "CHR ''%'' \<notin> set (ref_Version r')"
  shows "fs_path dir repo (WithEscapedName r) = fs_path dir repo' (WithEscapedName r') \<longleftrightarrow>
    fnv32a repo = fnv32a repo' \<and> r = r'"
proof -
  have pl: "plain_elem (cache_basename repo (WithEscapedName r) @ ''.tgz'')"
    "plain_elem (cache_basename repo' (WithEscapedName r') @ ''.tgz'')"
    using assms(1,2) by (auto intro!: basename_elem simp: plain_ref_escaped plain_version_def slash_def)
  have "fs_path dir repo (WithEscapedName r) = fs_path dir repo' (WithEscapedName r') \<longleftrightarrow>
      cache_basename repo (WithEscapedName r) = cache_basename repo' (WithEscapedName r')"
    unfolding fs_path_def path_join_elem_inject[OF pl] by simp
  also have "\<dots> \<longleftrightarrow> fnv32a repo = fnv32a repo' \<and> WithEscapedName r = WithEscapedName r'"
    unfolding cache_basename_eq RemoteReference_String_def WithEscapedName_sel
    using split_at_percent[OF assms(3,4), of "path_escape (ref_Name r)" "path_escape (ref_Name r')"]
    by (cases r; cases r') (auto simp: WithEscapedName_def)
  also have "\<dots> \<longleftrightarrow> fnv32a repo = fnv32a repo' \<and> r = r'"
    using WithEscapedName_inj by blast
  finally show ?thesis .
qed

theorem fs_cache_separates_charts_witness:
  "fs_path ''/c'' ''u'' (WithEscapedName \<lparr>ref_Name = ''a'', ref_Version = ''1''\<rparr>) =
     fs_path ''/c'' ''v'' (WithEscapedName \<lparr>ref_Name = ''a'', ref_Version = ''1''\<rparr>) \<longleftrightarrow>
   fnv32a ''u'' = fnv32a ''v'' \<and>
     (\<lparr>ref_Name = ''a'', ref_Version = ''1''\<rparr> :: remote_reference) = \<lparr>ref_Name = ''a'', ref_Version = ''1''\<rparr>"
  by (rule fs_cache_separates_charts) (simp_all add: plain_version_def slash_def)

text \<open>
  The hash has 32 bits and the separator occurs in escaped names and may occur in
  versions, so different requests do share a file: two repository URLs with the same hash, and
  one repository with the charts \<open>a\<close> and \<open>a/b\<close>.
\<close>

theorem fs_cache_collisions:
  "fs_path dir ''https://repo6110.com/'' r = fs_path dir ''https://lab5744.io/'' r \<and>
   fs_path dir repo (WithEscapedName \<lparr>ref_Name = ''a'', ref_Version = ''2Fb%1''\<rparr>) =
     fs_path dir repo (WithEscapedName \<lparr>ref_Name = ''a/b'', ref_Version = ''1''\<rparr>)"
proof
  have "fnv32a ''https://repo6110.com/'' = fnv32a ''https://lab5744.io/''" by code_simp
  then show "fs_path dir ''https://repo6110.com/'' r = fs_path dir ''https://lab5744.io/'' r"
    by (simp add: fs_path_def cache_basename_def)
  have "RemoteReference_String (WithEscapedName \<lparr>ref_Name = ''a'', ref_Version = ''2Fb%1''\<rparr>) =
      RemoteReference_String (WithEscapedName \<lparr>ref_Name = ''a/b'', ref_Version = ''1''\<rparr>)"
    by code_simp
  then show "fs_path dir repo (WithEscapedName \<lparr>ref_Name = ''a'', ref_Version = ''2Fb%1''\<rparr>) =
      fs_path dir repo (WithEscapedName \<lparr>ref_Name = ''a/b'', ref_Version = ''1''\<rparr>)"
    by (simp add: fs_path_def cache_basename_def)
qed

text \<open>
  The in-memory cache stores a path with fresh random bytes when the lock is released,
  not the path it handed out: after the first build of a chart, which wrote its archive to
  \<open>p\<close>, every later lookup answers with another path, and without a lock.
\<close>

theorem inmemory_cache_forgets_the_download:
  assumes "mem_wf c" and "plain_ref r" and "rnd \<noteq> rnd'"
    and "InMemory_GetOrLock rnd repo r c = (Ready p h, c1)" and "h \<noteq> NoHandle"
    and "InMemory_SetUnlock rnd' h c1 = Some (e, c2)"
  shows "\<exists>p'. InMemory_GetOrLock rnd'' repo r c2 = (Ready p' NoHandle, c2) \<and> p' \<noteq> p"
proof -
  let ?k = "CacheKey r repo" and ?f = "\<lambda>x. random_filepath x (mem_dir c) (cache_basename repo r)"
  have wf: "cache_wf (mem_cache c)" and wf1: "cache_wf (mem_cache c1)"
    using assms(1) mem_get_ready[OF assms(1,4)] by (simp_all add: mem_wf_def)
  have p: "p = ?f rnd" "h = KeyHandle ?k" "mem_dir c1 = mem_dir c"
    using assms(4,5) by (auto simp: InMemory_GetOrLock_def Let_def split: prod.splits got.splits)
  obtain m where m: "SetUnlock ?k (?f rnd') (mem_cache c1) = Some m" "cache_wf m"
    "cache_values m = (cache_values (mem_cache c1))(?k \<mapsto> ?f rnd')"
    using mc.put_ok[OF wf1] by blast
  with assms(6) p have c2: "c2 = c1\<lparr>mem_cache := m\<rparr>"
    by (auto simp: InMemory_SetUnlock_def)
  have "GetOrLock ?k m = (Found (?f rnd'), m)"
    using m by (intro mc.get_found) simp_all
  then have "InMemory_GetOrLock rnd'' repo r c2 = (Ready (?f rnd') NoHandle, c2)"
    by (simp add: c2 InMemory_GetOrLock_def Let_def)
  moreover have "?f rnd' \<noteq> ?f rnd"
  proof -
    have pl: "plain_elem (cache_basename repo r @ ''-'' @ hex_encode x @ ''.tgz'')" for x
      using assms(2) no_slash_hex by (intro basename_elem) (auto simp: slash_def)
    show ?thesis
      unfolding random_filepath_def path_join_elem_inject[OF pl pl]
      using assms(3) hex_encode_inject by auto
  qed
  ultimately show ?thesis using p(1) by blast
qed

definition fresh_mem :: inmemory_cache where
  "fresh_mem = \<lparr>mem_dir = ''/tmp/helmcharts1'', mem_cache = New\<rparr>"

definition some_ref :: remote_reference where
  "some_ref = \<lparr>ref_Name = ''app'', ref_Version = ''1.0''\<rparr>"

theorem inmemory_cache_forgets_the_download_witness:
  "\<exists>p'. InMemory_GetOrLock ''z'' ''u'' some_ref
       (snd (the (InMemory_SetUnlock ''y'' (KeyHandle (CacheKey some_ref ''u''))
         (snd (InMemory_GetOrLock ''x'' ''u'' some_ref fresh_mem))))) =
     (Ready p' NoHandle, snd (the (InMemory_SetUnlock ''y'' (KeyHandle (CacheKey some_ref ''u''))
         (snd (InMemory_GetOrLock ''x'' ''u'' some_ref fresh_mem))))) \<and>
     p' \<noteq> random_filepath ''x'' ''/tmp/helmcharts1'' (cache_basename ''u'' some_ref)"
  by (rule inmemory_cache_forgets_the_download[where c = fresh_mem and rnd = "''x''" and rnd' = "''y''"
        and h = "KeyHandle (CacheKey some_ref ''u'')" and e = None
        and ?c1.0 = "snd (InMemory_GetOrLock ''x'' ''u'' some_ref fresh_mem)"])
    (auto simp: mem_wf_def fresh_mem_def New_def cache_wf_def cache_values_def cache_locks_def
      plain_ref_def some_ref_def slash_def InMemory_GetOrLock_def Let_def GetOrLock_def
      InMemory_SetUnlock_def SetUnlock_def)

end
