(* ===== verification/ChartMetadata.thy ===== *)
theory ChartMetadata
  imports Values ChartRef GoOS
begin

text \<open>
  Chart metadata and default values (\<open>internal/helm/chart/metadata.go\<close>): replacing the default
  values of a loaded chart, and reading \<open>Chart.yaml\<close> from a directory or from an archive, with
  the checks on the names in the archive. The YAML codec and Helm's own operations are
  parameters. A gzipped tar stream is handed over as the reader of \<open>archive/tar\<close> presents it:
  its entries in order and the error that ends it, which is \<open>EOF\<close> for a complete archive.
\<close>

record tar_entry =
  th_Name :: string
  th_Typeflag :: char
  th_IsDir :: bool
  th_Size :: nat
  th_Data :: "go_error + string"

record chart_ext =
  EncodeValues :: "values \<Rightarrow> go_error + string"
  UnmarshalValues :: "string \<Rightarrow> go_error + values"
  UnmarshalMetadata :: "string \<Rightarrow> metadata \<Rightarrow> go_error + metadata"
  Metadata_Validate :: "metadata \<Rightarrow> go_error option"
  MergeMaps :: "values \<Rightarrow> values \<Rightarrow> values"
  tar_stream :: "string \<Rightarrow> go_error + (tar_entry list \<times> go_error)"
  LoadArchive :: "string \<Rightarrow> go_error + chart"
  chart_archive :: "chart \<Rightarrow> go_error + (string \<times> string)"

definition MaxChartSize :: nat where
  "MaxChartSize = 10485760"

definition MaxChartFileSize :: nat where
  "MaxChartFileSize = 5242880"

definition ChartfileName :: string where
  "ChartfileName = ''Chart.yaml''"

definition empty_metadata :: metadata where
  "empty_metadata = \<lparr>md_Name = '''', md_Version = '''', md_APIVersion = '''', md_Dependencies = []\<rparr>"

section \<open>Default values\<close>

text \<open>
  The bytes of a buffer that nothing was written to are the nil slice, so empty values are
  encoded as nil and never equal the (non-nil) data of a file.
\<close>

definition encoded :: "chart_ext \<Rightarrow> values \<Rightarrow> go_error + string option" where
  "encoded c vals =
     (if vals \<noteq> [] then
        bindE (EncodeValues c vals) (\<lambda>b. Inr (if b = '''' then None else Some b))
      else Inr None)"

fun replace_first :: "string \<Rightarrow> string option \<Rightarrow> chart_file list \<Rightarrow> chart_file list" where
  "replace_first n b [] = []"
| "replace_first n b (f # fs) =
     (if f_Name f = n then f\<lparr>f_Data := b\<rparr> # fs else f # replace_first n b fs)"

definition replace_all :: "string \<Rightarrow> string option \<Rightarrow> chart_file list \<Rightarrow> chart_file list" where
  "replace_all n b fs = map (\<lambda>f. if f_Name f = n then f\<lparr>f_Data := b\<rparr> else f) fs"

definition OverwriteChartDefaultValues ::
    "chart_ext \<Rightarrow> chart \<Rightarrow> values option \<Rightarrow> (go_error + bool) \<times> chart" where
  "OverwriteChartDefaultValues c ch vals =
     (case vals of
        None \<Rightarrow> (Inr False, ch)
      | Some vs \<Rightarrow>
          (case encoded c vs of
             Inl e \<Rightarrow> (Inl e, ch)
           | Inr bVals \<Rightarrow>
               (case file_named ValuesfileName (ch_Raw ch) of
                  None \<Rightarrow>
                    (Inl (ErrorString (''failed to locate values file: '' @ ValuesfileName)), ch)
                | Some f \<Rightarrow>
                    if f_Data f = bVals then (Inr False, ch)
                    else
                      (Inr True,
                       Chart (ch_Metadata ch) (replace_first ValuesfileName bVals (ch_Raw ch))
                         (replace_all ValuesfileName bVals (ch_Files ch)) vs (ch_dependencies ch) (ch_Lock ch)))))"

section \<open>Metadata from a directory\<close>

definition size_error :: "string \<Rightarrow> nat \<Rightarrow> go_error" where
  "size_error what limit =
     ErrorString (''size of '' @ what @ '' exceeds '' @ quoted (dec_of_nat limit) @ '' bytes limit'')"

definition default_api_version :: "metadata \<Rightarrow> metadata" where
  "default_api_version m = (if md_APIVersion m = '''' then m\<lparr>md_APIVersion := ''v1''\<rparr> else m)"

definition check_requirements :: "string \<Rightarrow> unit io" where
  "check_requirements fp =
     io_try (os_stat fp) (\<lambda>s. case s of
       Inl e \<Rightarrow> if \<not> errors_is e ErrNotExist then io_fail e else io_return ()
     | Inr nd \<Rightarrow>
         if node_is_dir nd then
           io_fail (ErrorString (quoted (path_base fp) @ '' is a directory''))
         else if node_size nd > MaxChartFileSize then
           io_fail (size_error (quoted (path_base fp)) MaxChartFileSize)
         else io_return ())"

definition read_if_exists :: "string \<Rightarrow> string io" where
  "read_if_exists fp =
     io_try (os_ReadFile fp) (\<lambda>r. case r of
       Inl e \<Rightarrow> if \<not> errors_is e ErrNotExist then io_fail e else io_return ''''
     | Inr b \<Rightarrow> io_return b)"

definition LoadChartMetadataFromDir :: "chart_ext \<Rightarrow> string \<Rightarrow> metadata io" where
  "LoadChartMetadataFromDir c dir =
     io_bind (os_ReadFile (path_join [dir, ChartfileName])) (\<lambda>b.
     io_bind (io_err (wrap (''cannot load '' @ quoted ChartfileName))
                (io_lift (UnmarshalMetadata c b empty_metadata))) (\<lambda>m0.
     let m = default_api_version m0; fp = path_join [dir, ''requirements.yaml''] in
     io_bind (check_requirements fp) (\<lambda>_.
     io_bind (read_if_exists fp) (\<lambda>b.
     if b \<noteq> '''' then
       io_err (wrap (''cannot load '' @ quoted ''requirements.yaml'')) (io_lift (UnmarshalMetadata c b m))
     else io_return m))))"

section \<open>Metadata from an archive\<close>

text \<open>
  The name of an entry is split at slashes, or at backslashes if it has one; what follows the
  first part must be a path below the chart's directory.
\<close>

definition is_letter :: "char \<Rightarrow> bool" where
  "is_letter ch = (ch \<in> set ''abcdefghijklmnopqrstuvwxyzABCDEFGHIJKLMNOPQRSTUVWXYZ'')"

definition drivePath :: "string \<Rightarrow> bool" where
  "drivePath n =
     (case n of a # b # d # rest \<Rightarrow> is_letter a \<and> b = CHR '':'' \<and> d = slash | _ \<Rightarrow> False)"

definition entry_parts :: "string \<Rightarrow> string list" where
  "entry_parts name =
     split_char (if CHR 0x5C \<in> set name then CHR 0x5C else slash) name"

definition entry_path :: "string \<Rightarrow> go_error + string" where
  "entry_path name =
     (let delimiter = (if CHR 0x5C \<in> set name then CHR 0x5C else slash);
          n0 = replace_char delimiter slash (join_with [delimiter] (tl (entry_parts name))) in
      if is_abs n0 then Inl (ErrorString ''chart illegally contains absolute paths'')
      else
        let n = path_clean n0 in
        if n = ''.'' then
          Inl (ErrorString (''chart illegally contains content outside the base directory: '' @ name))
        else if has_prefix n ''..'' then
          Inl (ErrorString ''chart illegally references parent directory'')
        else if drivePath n then
          Inl (ErrorString ''chart contains illegally named files'')
        else Inr n)"

definition read_entry :: "chart_ext \<Rightarrow> tar_entry \<Rightarrow> metadata option \<Rightarrow> go_error + metadata" where
  "read_entry c hdr m =
     (if th_Size hdr > MaxChartFileSize then Inl (size_error (quoted (th_Name hdr)) MaxChartFileSize)
      else
        bindE (th_Data hdr) (\<lambda>b.
        bindE (mapErr (wrap (''cannot load '' @ quoted (entry_parts (th_Name hdr) ! 1)))
                 (UnmarshalMetadata c b (case m of None \<Rightarrow> empty_metadata | Some m' \<Rightarrow> m'))) (\<lambda>m'.
        Inr (default_api_version m'))))"

fun scan_archive ::
    "chart_ext \<Rightarrow> go_error \<Rightarrow> metadata option \<Rightarrow> tar_entry list \<Rightarrow> go_error + metadata option" where
  "scan_archive c end m [] = (if end = EOF then Inr m else Inl end)"
| "scan_archive c end m (hdr # es) =
     (if th_IsDir hdr then scan_archive c end m es
      else if th_Typeflag hdr \<in> {CHR ''g'', CHR ''x''} then scan_archive c end m es
      else
        (case entry_path (th_Name hdr) of
           Inl e \<Rightarrow> Inl e
         | Inr n \<Rightarrow>
             if length (entry_parts (th_Name hdr)) \<noteq> 2 then scan_archive c end m es
             else if entry_parts (th_Name hdr) ! 1 = ChartfileName \<or>
                     entry_parts (th_Name hdr) ! 1 = ''requirements.yaml''
             then (case read_entry c hdr m of
                     Inl e \<Rightarrow> Inl e
                   | Inr m' \<Rightarrow> scan_archive c end (Some m') es)
             else scan_archive c end m es))"

definition metadata_of_archive :: "chart_ext \<Rightarrow> string \<Rightarrow> go_error + metadata" where
  "metadata_of_archive c b =
     bindE (tar_stream c b) (\<lambda>(es, end).
     bindE (scan_archive c end None es) (\<lambda>m.
     case m of
       None \<Rightarrow> Inl (ErrorString (''no '' @ quoted ChartfileName @ '' found''))
     | Some m' \<Rightarrow> Inr m'))"

definition LoadChartMetadataFromArchive :: "chart_ext \<Rightarrow> string \<Rightarrow> metadata io" where
  "LoadChartMetadataFromArchive c archive =
     io_bind (os_stat archive) (\<lambda>nd.
     if node_is_dir nd then
       io_fail (ErrorString (quoted (path_base archive) @ '' is a directory''))
     else if node_size nd > MaxChartSize then
       io_fail (size_error (''chart '' @ quoted (path_base archive)) MaxChartSize)
     else
       io_bind (os_open archive) (\<lambda>f.
       io_defer
         (io_bind (os_read f) (\<lambda>b. io_lift (metadata_of_archive c b)))
         (io_drop (os_close f))))"

definition LoadChartMetadata :: "chart_ext \<Rightarrow> string \<Rightarrow> metadata io" where
  "LoadChartMetadata c chartPath =
     io_bind (os_stat chartPath) (\<lambda>i.
     if node_is_dir i then LoadChartMetadataFromDir c chartPath
     else LoadChartMetadataFromArchive c chartPath)"

section \<open>Replacing default values\<close>

lemma replace_first_map:
  "map f_Name (replace_first n b fs) = map f_Name fs"
  "file_named k (replace_first n b fs) =
    (if k = n then map_option (\<lambda>f. f\<lparr>f_Data := b\<rparr>) (file_named n fs) else file_named k fs)"
  by (induction fs) (auto simp: file_named_def)

lemma replace_all_map:
  "map f_Name (replace_all n b fs) = map f_Name fs"
  "file_named k (replace_all n b fs) =
    (if k = n then map_option (\<lambda>f. f\<lparr>f_Data := b\<rparr>) (file_named n fs) else file_named k fs)"
  by (induction fs) (auto simp: file_named_def replace_all_def)

text \<open>
  C25. Overwriting the default values either changes nothing of the chart (an error, or equal
  contents) or installs the new values everywhere the chart keeps them: as its values and as the
  data of its values file, both as loaded and among the other files; names, metadata,
  dependencies and all other files stay as they are.
\<close>

theorem overwritten_values:
  "case OverwriteChartDefaultValues c ch vals of
     (Inr True, ch') \<Rightarrow>
       (\<exists>vs b f. vals = Some vs \<and> encoded c vs = Inr b \<and> file_named ValuesfileName (ch_Raw ch) = Some f \<and>
          f_Data f \<noteq> b \<and> ch_Values ch' = vs \<and>
          (\<lambda>k. file_named k (ch_Raw ch')) =
            (\<lambda>k. file_named k (ch_Raw ch))(ValuesfileName \<mapsto> f\<lparr>f_Data := b\<rparr>) \<and>
          (\<lambda>k. file_named k (ch_Files ch')) =
            (\<lambda>k. file_named k (ch_Files ch))(ValuesfileName :=
               map_option (\<lambda>f. f\<lparr>f_Data := b\<rparr>) (file_named ValuesfileName (ch_Files ch)))) \<and>
       map f_Name (ch_Raw ch') = map f_Name (ch_Raw ch) \<and>
       ch_Metadata ch' = ch_Metadata ch \<and> ch_dependencies ch' = ch_dependencies ch \<and> ch_Lock ch' = ch_Lock ch
   | (r, ch') \<Rightarrow> ch' = ch"
  by (auto simp: OverwriteChartDefaultValues_def fun_eq_iff replace_first_map replace_all_map
      split: option.splits sum.splits)

section \<open>Names in an archive\<close>

text \<open>A path below the chart's directory: relative, clean, without a way up or a drive.\<close>

definition safe_name :: "string \<Rightarrow> bool" where
  "safe_name n \<longleftrightarrow>
     \<not> is_abs n \<and> path_clean n = n \<and> path_elems n \<noteq> [] \<and> list_all plain_elem (path_elems n) \<and>
     \<not> drivePath n"

definition examined :: "tar_entry \<Rightarrow> bool" where
  "examined h \<longleftrightarrow> \<not> th_IsDir h \<and> th_Typeflag h \<notin> {CHR ''g'', CHR ''x''}"

lemma relative_plain_or_up:
  assumes "\<not> is_abs s" and "path_elems s \<noteq> []" and "hd (path_elems s) \<noteq> ''..''"
  shows "list_all plain_elem (path_elems s)"
proof -
  have st: "clean_stack False (rev (path_elems s))" using clean_stack_elems[of s] assms(1) by simp
  have "clean_stack False (rev ws) \<Longrightarrow> ws \<noteq> [] \<Longrightarrow> hd ws \<noteq> ''..'' \<Longrightarrow> list_all plain_elem ws" for ws
  proof (induction ws rule: rev_induct)
    case (snoc w ws)
    show ?case
    proof (cases "w = ''..''")
      case True
      with snoc have "set ws \<subseteq> {''..''}" by simp
      with snoc True have "hd (ws @ [w]) = ''..''" by (cases ws) auto
      with snoc show ?thesis by simp
    next
      case False
      with snoc show ?thesis by (cases "ws = []") auto
    qed
  qed simp
  with st assms show ?thesis by blast
qed

lemma entry_path_safe:
  assumes "entry_path name = Inr n" shows "safe_name n"
proof -
  from assms obtain s where s: "\<not> is_abs s" and n: "n = path_clean s" and dot: "n \<noteq> ''.''"
    and up: "\<not> has_prefix n ''..''" and dr: "\<not> drivePath n"
    by (auto simp: entry_path_def Let_def split: if_splits)
  have ne: "path_elems s \<noteq> []" using dot n s by (auto simp: path_clean_def render_path_def split: if_splits)
  then have r: "n = join_with [slash] (path_elems s)"
    using n s dot by (auto simp: path_clean_def render_path_def)
  have "hd (path_elems s) \<noteq> ''..''"
  proof
    assume h: "hd (path_elems s) = ''..''"
    with ne obtain ws where ws: "path_elems s = ''..'' # ws" by (cases "path_elems s") auto
    have "has_prefix n ''..''" unfolding r ws by (cases ws) simp_all
    with up show False by simp
  qed
  then have "list_all plain_elem (path_elems s)" using relative_plain_or_up s ne by blast
  with s n ne dr show ?thesis by (simp add: safe_name_def)
qed

definition metadata_file :: "tar_entry \<Rightarrow> bool" where
  "metadata_file h \<longleftrightarrow>
     examined h \<and> (\<exists>d. entry_parts (th_Name h) = [d, ChartfileName] \<or> entry_parts (th_Name h) = [d, ''requirements.yaml''])"

fun read_all :: "chart_ext \<Rightarrow> metadata option \<Rightarrow> tar_entry list \<Rightarrow> go_error + metadata option" where
  "read_all c m [] = Inr m"
| "read_all c m (h # hs) = bindE (read_entry c h m) (\<lambda>m'. read_all c (Some m') hs)"

lemma metadata_file_iff:
  "metadata_file h \<longleftrightarrow> examined h \<and> length (entry_parts (th_Name h)) = 2 \<and>
     (entry_parts (th_Name h) ! 1 = ChartfileName \<or> entry_parts (th_Name h) ! 1 = ''requirements.yaml'')"
  by (cases "entry_parts (th_Name h)" rule: list.exhaust[case_product list.exhaust])
    (auto simp: metadata_file_def length_Suc_conv numeral_2_eq_2)

lemma scan_archive_iff:
  "scan_archive c end m es = Inr m' \<longleftrightarrow>
   end = EOF \<and> list_all (\<lambda>h. \<exists>n. entry_path (th_Name h) = Inr n) (filter examined es) \<and>
   read_all c m (filter metadata_file es) = Inr m'"
proof (induction c "end" m es rule: scan_archive.induct)
  case (2 c "end" m hdr es)
  then show ?case
    by (cases "entry_path (th_Name hdr)"; cases "read_entry c hdr m")
      (auto simp: examined_def metadata_file_iff)
qed simp


end
