(* ===== verification/Downloader.thy ===== *)
theory Downloader
  imports OCIRepository
begin

text \<open>
  The interface \<open>repository.Downloader\<close> (\<open>internal/helm/repository/repository.go\<close>) through
  which a builder reaches a repository, its two implementations, and the contract that both
  keep and a builder relies on.
\<close>

record ('v, 'c) services =
  sv_http :: ext
  sv_oci :: "'v oci_ext"
  sv_semver :: "('v, 'c) semver"

datatype downloader = HTTPRepository chart_repository | OCIRepository oci_repository

definition down_GetChartVersion ::
    "('v, 'c) services \<Rightarrow> downloader \<Rightarrow> string \<Rightarrow> string \<Rightarrow>
     ((go_error + chart_version) \<times> downloader) io" where
  "down_GetChartVersion s d name ver =
     (case d of
        HTTPRepository r \<Rightarrow>
          io_bind (GetChartVersion (sv_http s) (sv_semver s) r name ver) (\<lambda>(res, r').
          io_return (res, HTTPRepository r'))
      | OCIRepository r \<Rightarrow>
          io_try (oci_GetChartVersion (sv_oci s) (sv_semver s) r name ver) (\<lambda>res.
          io_return (res, OCIRepository r)))"

definition down_DownloadChart ::
    "('v, 'c) services \<Rightarrow> downloader \<Rightarrow> chart_version \<Rightarrow> string io" where
  "down_DownloadChart s d cv =
     (case d of
        HTTPRepository r \<Rightarrow> DownloadChart (sv_http s) r cv
      | OCIRepository r \<Rightarrow> oci_DownloadChart (sv_http s) r cv)"

definition down_VerifyChart ::
    "('v, 'c) services \<Rightarrow> downloader \<Rightarrow> chart_version \<Rightarrow> unit io" where
  "down_VerifyChart s d cv =
     (case d of
        HTTPRepository r \<Rightarrow>
          io_lift (case VerifyChart_http r cv of None \<Rightarrow> Inr () | Some e \<Rightarrow> Inl e)
      | OCIRepository r \<Rightarrow> VerifyChart (sv_oci s) r cv)"

definition down_Clear :: "downloader \<Rightarrow> (go_error option \<times> downloader) io" where
  "down_Clear d =
     (case d of
        HTTPRepository r \<Rightarrow>
          io_bind (Clear_repo r) (\<lambda>(err, r'). io_return (err, HTTPRepository r'))
      | OCIRepository r \<Rightarrow>
          io_bind (oci_Clear r) (\<lambda>(err, r'). io_return (err, OCIRepository r')))"

text \<open>
  The contract: asking for a version never ends in a panic, and its errors are of the two types
  the builder tells apart; downloads and verification leave the file system as it is; a chart
  without a URL can be neither downloaded nor verified.
\<close>

definition reference_or_external :: "go_error \<Rightarrow> bool" where
  "reference_or_external e =
     (case e of ErrReference e' \<Rightarrow> True | ErrExternal e' \<Rightarrow> True | _ \<Rightarrow> False)"

locale downloader_contract =
  fixes get :: "'r \<Rightarrow> string \<Rightarrow> string \<Rightarrow> ((go_error + chart_version) \<times> 'r) io"
    and download :: "'r \<Rightarrow> chart_version \<Rightarrow> string io"
    and verify :: "'r \<Rightarrow> chart_version \<Rightarrow> unit io"
  assumes get_total: "never_fails (get r name ver)"
    and get_errors: "get r name ver w = (Inr (Inl e, r'), w') \<Longrightarrow> reference_or_external e"
    and get_env: "keeps_env (get r name ver)"
    and download_reads: "reads (download r cv)"
    and download_env: "keeps_env (download r cv)"
    and verify_reads: "reads (verify r cv)"
    and verify_env: "keeps_env (verify r cv)"
    and no_url: "cv_URLs cv = [] \<Longrightarrow> \<exists>e. download r cv w = (Inl e, w)"
                "cv_URLs cv = [] \<Longrightarrow> \<exists>e. verify r cv w = (Inl e, w)"
begin

lemma get_cases:
  obtains res r' w' where "get r name ver w = (Inr (res, r'), w')"
  using get_total[of r name ver, unfolded never_fails_def, rule_format, of w] by auto

end

section \<open>Both repositories keep the contract\<close>

lemma getTags_quiet [inv_intros]: "keeps_env (getTags o_ext r ref)"
  by (auto simp: keeps_env_def getTags_def Let_def same_env_def split: sum.splits)

lemma verify_loop_quiet: "nodes (snd (verify_loop o_ext url ref vs w)) = nodes w \<and>
    same_env w (snd (verify_loop o_ext url ref vs w))"
proof (induction vs arbitrary: w)
  case (Cons v vs)
  have "same_env w (w\<lparr>clock := Suc (clock w)\<rparr>)" by (simp add: same_env_def)
  with Cons[of "w\<lparr>clock := Suc (clock w)\<rparr>"] show ?case
    by (auto simp: Let_def same_env_def split: sum.splits)
qed simp

lemma verify_quiet [inv_intros]: "reads (VerifyChart o_ext r cv)" "keeps_env (VerifyChart o_ext r cv)"
proof -
  have 1: "reads (verify_loop o_ext url ref vs)" for url ref vs
    by (simp add: reads_def verify_loop_quiet)
  have 2: "keeps_env (verify_loop o_ext url ref vs)" for url ref vs
    by (simp add: keeps_env_def verify_loop_quiet)
  show "reads (VerifyChart o_ext r cv)" unfolding VerifyChart_def by (intro inv_intros 1)
  show "keeps_env (VerifyChart o_ext r cv)" unfolding VerifyChart_def by (intro inv_intros 2)
qed

lemma download_quiet [inv_intros]:
  "reads (DownloadChart x r cv)" "keeps_env (DownloadChart x r cv)"
  "reads (oci_DownloadChart x r' cv)" "keeps_env (oci_DownloadChart x r' cv)"
  unfolding DownloadChart_def oci_DownloadChart_def Let_def by (intro inv_intros)+

lemma GetChartVersion_env [inv_intros]:
  "keeps_env (GetChartVersion x sv r name ver)" "keeps_env (oci_GetChartVersion o_ext sv r' name ver)"
  unfolding GetChartVersion_def StrategicallyLoadIndex_def oci_GetChartVersion_def oci_getChartVersion_def
  by (intro inv_intros)+

lemma GetChartVersion_errors:
  assumes "GetChartVersion x sv r name ver w = (Inr (Inl e, r'), w')"
  shows "reference_or_external e"

  using assms
  by (auto simp: GetChartVersion_def io_return_def reference_or_external_def mapErr_Inl_iff
      elim!: io_bind_cases split: option.splits)

interpretation dl: downloader_contract "down_GetChartVersion s" "down_DownloadChart s" "down_VerifyChart s"
proof
  fix d :: downloader and name ver cv w
  show "never_fails (down_GetChartVersion s d name ver)"
    unfolding down_GetChartVersion_def by (cases d) (simp_all, (intro inv_intros)+)
  show "keeps_env (down_GetChartVersion s d name ver)"
    unfolding down_GetChartVersion_def by (cases d) (simp_all, (intro inv_intros)+)
  show "reads (down_DownloadChart s d cv)" "keeps_env (down_DownloadChart s d cv)"
    unfolding down_DownloadChart_def by (cases d; simp; intro inv_intros)+
  show "reads (down_VerifyChart s d cv)" "keeps_env (down_VerifyChart s d cv)"
    unfolding down_VerifyChart_def by (cases d; simp; intro inv_intros)+
  show "\<exists>e. down_DownloadChart s d cv w = (Inl e, w)" if "cv_URLs cv = []"
    using that by (cases d) (simp_all add: down_DownloadChart_def DownloadChart_def oci_DownloadChart_def io_fail_def)
  show "\<exists>e. down_VerifyChart s d cv w = (Inl e, w)" if "cv_URLs cv = []"
    using that by (cases d) (simp_all add: down_VerifyChart_def VerifyChart_http_def VerifyChart_def io_fail_def io_lift_def)
next
  fix d :: downloader and name ver w e d' w'
  assume get: "down_GetChartVersion s d name ver w = (Inr (Inl e, d'), w')"
  show "reference_or_external e"
  proof (cases d)
    case (HTTPRepository r)
    with get GetChartVersion_errors show ?thesis
      by (auto simp: down_GetChartVersion_def io_return_def elim!: io_bind_InrE)
  next
    case (OCIRepository r)
    with get have "\<exists>e'. e = ErrExternal e'"
      by (auto simp: down_GetChartVersion_def io_return_def oci_GetChartVersion_def
          elim!: io_try_cases io_err_cases)
    then show ?thesis by (auto simp: reference_or_external_def)
  qed
qed

end
