(* ===== verification/Fs.thy ===== *)
theory Fs
  imports GoOS
begin

text \<open>
  Renaming with a copying fallback (\<open>internal/fs/fs.go\<close>, \<open>internal/fs/rename.go\<close>): a
  rename that crosses devices is made up by a copy and a removal. Also the buffer loop that
  builds long paths on Windows, with its index checks, and that it never fails one.
\<close>

section \<open>Long paths\<close>

text \<open>Volume names, for a set of separators.\<close>

fun unc_scan :: "(char \<Rightarrow> bool) \<Rightarrow> nat \<Rightarrow> string \<Rightarrow> nat option" where
  "unc_scan sep n (c # d # rest) =
     (if sep c then
        (if \<not> sep d then
           (if d = CHR ''.'' then None
            else Some (Suc n + length (takeWhile (\<lambda>x. \<not> sep x) (d # rest))))
         else None)
      else unc_scan sep (Suc n) (d # rest))"
| "unc_scan sep n _ = None"

definition is_drive_char :: "char \<Rightarrow> bool" where
  "is_drive_char c =
     (let k = (of_char c :: nat) in
      48 \<le> k \<and> k \<le> 57 \<or> 97 \<le> k \<and> k \<le> 122 \<or> 65 \<le> k \<and> k \<le> 90)"

definition volumeName :: "(char \<Rightarrow> bool) \<Rightarrow> string \<Rightarrow> string" where
  "volumeName sep path =
     (if length path < 2 then ''''
      else if path ! 1 = CHR '':'' \<and> is_drive_char (path ! 0) then take 2 path
      else if length path \<ge> 5 \<and> sep (path ! 0) \<and> sep (path ! 1) \<and> \<not> sep (path ! 2) \<and>
              path ! 2 \<noteq> CHR ''.''
        then (case unc_scan sep 3 (drop 3 path) of None \<Rightarrow> '''' | Some n \<Rightarrow> take n path)
      else '''')"

definition win_isAbs :: "(char \<Rightarrow> bool) \<Rightarrow> string \<Rightarrow> bool" where
  "win_isAbs sep path =
     (let v = volumeName sep path in
      if v = '''' then False
      else case drop (length v) path of [] \<Rightarrow> False | c # _ \<Rightarrow> sep c)"

text \<open>
  A write to the buffer outside its length is a panic, \<^term>\<open>None\<close>. The loop ends with the
  buffer and the write index, or with \<open>Inl ()\<close> where the code gives the path up.
\<close>

definition buf_set :: "string \<Rightarrow> nat \<Rightarrow> char \<Rightarrow> string option" where
  "buf_set buf i c = (if i < length buf then Some (buf[i := c]) else None)"

fun copy_elem :: "(char \<Rightarrow> bool) \<Rightarrow> string \<Rightarrow> nat \<Rightarrow> nat \<Rightarrow> string \<Rightarrow> (nat \<times> nat \<times> string) option" where
  "copy_elem sep [] r w buf = Some (r, w, buf)"
| "copy_elem sep (c # cs) r w buf =
     (if sep c then Some (r, w, buf)
      else case buf_set buf w c of
             None \<Rightarrow> None
           | Some buf' \<Rightarrow> copy_elem sep cs (Suc r) (Suc w) buf')"

lemma copy_elem_progress: "copy_elem sep cs r w buf = Some (r', w', buf') \<Longrightarrow> r \<le> r'"
  by (induction cs arbitrary: r w buf) (auto split: if_splits option.splits dest: Suc_leD)

lemma copy_elem_progress_strict:
  "copy_elem sep (c # cs) r w buf = Some (r', w', buf') \<Longrightarrow> \<not> sep c \<Longrightarrow> r < r'"
  by (auto split: option.splits dest!: copy_elem_progress)

function fix_loop ::
    "(char \<Rightarrow> bool) \<Rightarrow> string \<Rightarrow> nat \<Rightarrow> nat \<Rightarrow> string \<Rightarrow> (unit + nat \<times> string) option" where
  "fix_loop sep path r w buf =
     (if r < length path then
        (if sep (path ! r) then fix_loop sep path (Suc r) w buf
         else if path ! r = CHR ''.'' \<and> (r + 1 = length path \<or> sep (path ! (r + 1)))
           then fix_loop sep path (Suc r) w buf
         else if r + 1 < length path \<and> path ! r = CHR ''.'' \<and> path ! (r + 1) = CHR ''.'' \<and>
                 (r + 2 = length path \<or> sep (path ! (r + 2)))
           then Some (Inl ())
         else
           (case buf_set buf w (CHR 0x5C) of
              None \<Rightarrow> None
            | Some buf' \<Rightarrow>
                (case copy_elem sep (drop r path) r (Suc w) buf' of
                   None \<Rightarrow> None
                 | Some (r', w', buf'') \<Rightarrow> fix_loop sep path r' w' buf'')))
      else Some (Inr (w, buf)))"
  by pat_completeness auto
termination
proof (relation "measure (\<lambda>(sep, path, r, w, buf). length path - r)")
  fix sep :: "char \<Rightarrow> bool" and path r w buf buf' and x :: "nat \<times> nat \<times> string" and r' y w' buf''
  assume r: "r < length path" "\<not> sep (path ! r)"
    and c: "copy_elem sep (drop r path) r (Suc w) buf' = Some x" "(r', y) = x" "(w', buf'') = y"
  then have "copy_elem sep (path ! r # drop (Suc r) path) r (Suc w) buf' = Some (r', w', buf'')"
    by (metis Cons_nth_drop_Suc)
  with r have "r < r'" by (metis copy_elem_progress_strict)
  with r show "((sep, path, r', w', buf''), sep, path, r, w, buf)
      \<in> measure (\<lambda>(sep, path, r, w, buf). length path - r)" by auto
qed auto

declare fix_loop.simps [simp del]

definition long_prefix :: string where
  "long_prefix = [CHR 0x5C, CHR 0x5C, CHR ''?'']"

definition fixLongPath :: "(char \<Rightarrow> bool) \<Rightarrow> string \<Rightarrow> string option" where
  "fixLongPath sep path =
     (if length path < 248 then Some path
      else if length path \<ge> 2 \<and> take 2 path = [CHR 0x5C, CHR 0x5C] then Some path
      else if \<not> win_isAbs sep path then Some path
      else
        (case fix_loop sep path 0 3 (long_prefix @ replicate (length path + 1) (CHR 0x00)) of
           None \<Rightarrow> None
         | Some (Inl _) \<Rightarrow> Some path
         | Some (Inr (w, buf)) \<Rightarrow>
             (if w = 6 then
                (case buf_set buf w (CHR 0x5C) of
                   None \<Rightarrow> None | Some buf' \<Rightarrow> Some (take (Suc w) buf'))
              else Some (take w buf))))"

lemma copy_elem_total:
  "w + length cs \<le> length buf \<Longrightarrow>
   \<exists>k buf'. copy_elem sep cs r w buf = Some (r + k, w + k, buf') \<and> k \<le> length cs \<and>
     (k = length cs \<or> sep (cs ! k)) \<and> length buf' = length buf \<and> take w buf' = take w buf"
proof (induction cs arbitrary: r w buf)
  case (Cons c cs)
  show ?case
  proof (cases "sep c")
    case False
    from Cons.prems have "Suc w + length cs \<le> length (buf[w := c])" by simp
    from Cons.IH[OF this, of "Suc r"] obtain k buf' where
      k: "copy_elem sep cs (Suc r) (Suc w) (buf[w := c]) = Some (Suc r + k, Suc w + k, buf')"
      "k \<le> length cs" "k = length cs \<or> sep (cs ! k)" "length buf' = length buf"
      "take (Suc w) buf' = take (Suc w) (buf[w := c])"
      by auto
    have "take w buf' = take w buf"
      using k(5) by (metis append_eq_conv_conj le_refl min.absorb1 take_take take_update_cancel
          lessI less_or_eq_imp_le)
    with k False Cons.prems show ?thesis
      by (intro exI[of _ "Suc k"] exI[of _ buf']) (auto simp: buf_set_def)
  qed auto
qed auto

text \<open>
  The write index stays behind the read index but for the separator each element puts before
  itself, which the path paid for with a separator of its own, save the first.
\<close>

lemma copy_elem_fits:
  assumes "w \<le> 3 + r" and "r < length path" and "length buf = length path + 4" and "3 \<le> w"
  obtains buf' k buf'' where "buf_set buf w (CHR 0x5C) = Some buf'"
    and "copy_elem sep (drop r path) r (Suc w) buf' = Some (r + k, Suc w + k, buf'')"
    and "r + k \<le> length path" and "r + k = length path \<or> sep (path ! (r + k))"
    and "length buf'' = length path + 4" and "take 3 buf'' = take 3 buf"
proof -
  define buf' where "buf' = buf[w := CHR 0x5C]"
  have bs: "buf_set buf w (CHR 0x5C) = Some buf'" using assms by (simp add: buf_set_def buf'_def)
  have "Suc w + length (drop r path) \<le> length buf'" using assms by (simp add: buf'_def)
  from copy_elem_total[OF this, of sep r] obtain k buf'' where
    k: "copy_elem sep (drop r path) r (Suc w) buf' = Some (r + k, Suc w + k, buf'')"
    "k \<le> length path - r" "k = length path - r \<or> sep (drop r path ! k)"
    "length buf'' = length buf'" "take (Suc w) buf'' = take (Suc w) buf'" by auto
  have "take 3 buf'' = take 3 (take (Suc w) buf'')" using assms(4) by (simp add: min_def)
  also have "\<dots> = take 3 buf'" using assms(4) k(5) by (simp add: min_def)
  also have "\<dots> = take 3 buf" using assms(4) by (simp add: buf'_def)
  finally have "take 3 buf'' = take 3 buf" .
  moreover have "r + k = length path \<or> sep (path ! (r + k))" using k(2,3) assms(2) by (auto simp: nth_drop)
  ultimately show ?thesis using that[OF bs k(1)] k(2,4) assms(2,3) by (simp add: buf'_def)
qed

lemma fix_loop_total:
  assumes "w \<le> 3 + r \<or> (w \<le> 4 + r \<and> (r = length path \<or> sep (path ! r)))"
    and "r \<le> length path" and "length buf = length path + 4" and "3 \<le> w" and "\<not> sep (CHR ''.'')"
  shows "\<exists>res. fix_loop sep path r w buf = Some res \<and>
    (\<forall>w' buf'. res = Inr (w', buf') \<longrightarrow>
       w' \<le> length path + 4 \<and> length buf' = length path + 4 \<and> 3 \<le> w' \<and> take 3 buf' = take 3 buf)"
  using assms
proof (induction sep path r w buf rule: fix_loop.induct)
  case (1 sep path r w buf)
  show ?case
  proof (cases "r < length path")
    case False
    with 1(4-) show ?thesis by (subst fix_loop.simps) auto
  next
    case r: True
    consider (sep) "sep (path ! r)"
      | (dot) "\<not> sep (path ! r)" "path ! r = CHR ''.'' \<and> (r + 1 = length path \<or> sep (path ! (r + 1)))"
      | (up) "\<not> sep (path ! r)" "\<not> (path ! r = CHR ''.'' \<and> (r + 1 = length path \<or> sep (path ! (r + 1))))"
          "r + 1 < length path \<and> path ! r = CHR ''.'' \<and> path ! (r + 1) = CHR ''.'' \<and>
           (r + 2 = length path \<or> sep (path ! (r + 2)))"
      | (elem) "\<not> sep (path ! r)" "\<not> (path ! r = CHR ''.'' \<and> (r + 1 = length path \<or> sep (path ! (r + 1))))"
          "\<not> (r + 1 < length path \<and> path ! r = CHR ''.'' \<and> path ! (r + 1) = CHR ''.'' \<and>
           (r + 2 = length path \<or> sep (path ! (r + 2))))"
      by blast
    then show ?thesis
    proof cases
      case sep
      with 1(1)[OF r sep] 1(4-) r show ?thesis
        by (subst fix_loop.simps) auto
    next
      case dot
      with 1(2)[OF r dot] 1(4-) r show ?thesis
        by (subst fix_loop.simps) auto
    next
      case up
      with r show ?thesis by (subst fix_loop.simps) auto
    next
      case elem
      have w: "w \<le> 3 + r" using 1(4) elem(1) r by auto
      obtain buf' k buf'' where bs: "buf_set buf w (CHR 0x5C) = Some buf'"
        and k: "copy_elem sep (drop r path) r (Suc w) buf' = Some (r + k, Suc w + k, buf'')" "r + k \<le> length path"
          "r + k = length path \<or> sep (path ! (r + k))" "length buf'' = length path + 4"
        and t3: "take 3 buf'' = take 3 buf" using copy_elem_fits[OF w r 1(6,7)] .
      have nxt: "Suc w + k \<le> 3 + (r + k) \<or>
          (Suc w + k \<le> 4 + (r + k) \<and> (r + k = length path \<or> sep (path ! (r + k))))"
        using w k(3) by simp
      have "fix_loop sep path r w buf = fix_loop sep path (r + k) (Suc w + k) buf''"
        by (subst fix_loop.simps)
          (simp only: r elem bs k(1) if_True if_False option.case prod.case simp_thms)
      moreover have "3 \<le> Suc w + k" using 1(7) by simp
      ultimately show ?thesis
        using 1(3)[OF r elem bs k(1) refl refl nxt k(2,4) _ 1(8)] t3 by simp
    qed
  qed
qed

text \<open>
  C30. Whatever the path and the set of separators (as long as a dot is not one), the loop that
  writes the long form of a path never indexes its buffer out of range, so the function
  returns, and what it returns is at most four bytes longer than the path.
\<close>

theorem long_path_stays_in_buffer:
  assumes "\<not> sep (CHR ''.'')"
  shows "\<exists>s. fixLongPath sep path = Some s \<and> length s \<le> length path + 4 \<and>
    (s = path \<or> take 3 s = long_prefix)"
proof -
  let ?buf = "long_prefix @ replicate (length path + 1) (CHR 0x00)"
  have l: "length ?buf = length path + 4" by (simp add: long_prefix_def)
  have t: "take 3 ?buf = long_prefix" by (simp add: long_prefix_def)
  obtain res where res: "fix_loop sep path 0 3 ?buf = Some res"
    "\<And>w buf. res = Inr (w, buf) \<Longrightarrow>
       w \<le> length path + 4 \<and> length buf = length path + 4 \<and> 3 \<le> w \<and> take 3 buf = take 3 ?buf"
    using fix_loop_total[of 3 0 path sep ?buf] l assms by auto
  show ?thesis
  proof (cases res)
    case (Inl u)
    with res show ?thesis by (auto simp: fixLongPath_def)
  next
    case (Inr x)
    then obtain w buf where x: "res = Inr (w, buf)" by (cases x) auto
    note b = res(2)[OF x]
    have "take 3 (take w buf) = long_prefix" "take 3 (take 7 (buf[6 := CHR 0x5C])) = long_prefix"
      using b t by (simp_all add: min_def)
    with b x res(1) show ?thesis
      by (cases "length path < 248") (auto simp: fixLongPath_def buf_set_def min_def)
  qed
qed

theorem long_path_stays_in_buffer_witness:
  "\<exists>s. fixLongPath (\<lambda>c. c = CHR ''/'' \<or> c = CHR 0x5C)
         (''c:/a//./'' @ replicate 300 (CHR ''b'')) = Some s \<and>
     length s \<le> length (''c:/a//./'' @ replicate 300 (CHR ''b'')) + 4 \<and>
     (s = ''c:/a//./'' @ replicate 300 (CHR ''b'') \<or> take 3 s = long_prefix)"
  by (rule long_path_stays_in_buffer) simp

section \<open>Copying and renaming\<close>

definition ERROR_PRIVILEGE_NOT_HELD :: go_error where
  "ERROR_PRIVILEGE_NOT_HELD = Sentinel ''A required privilege is not held by the client.''"

definition ENAMETOOLONG :: go_error where
  "ENAMETOOLONG = Sentinel ''file name too long''"

definition errSrcNotDir :: go_error where
  "errSrcNotDir = Sentinel ''source is not a directory''"

definition errDstExist :: go_error where
  "errDstExist = Sentinel ''destination already exists''"

fun node_is_symlink :: "node \<Rightarrow> bool" where
  "node_is_symlink (Symlink t) = True"
| "node_is_symlink _ = False"

definition IsSymlink :: "string \<Rightarrow> bool io" where
  "IsSymlink p = io_bind (os_lstat p) (\<lambda>nd. io_return (node_is_symlink nd))"

definition IsDir :: "string \<Rightarrow> bool io" where
  "IsDir p = io_bind (os_stat p) (\<lambda>nd.
     if \<not> node_is_dir nd
     then io_fail (ErrorString ([CHR 0x22] @ p @ [CHR 0x22] @ '' is not a directory''))
     else io_return True)"

definition cloneSymlink :: "string \<Rightarrow> string \<Rightarrow> unit io" where
  "cloneSymlink sl dst = io_bind (os_Readlink sl) (\<lambda>resolved. os_Symlink resolved dst)"

text \<open>
  The platform decides two branches of \<open>copyFile\<close>, and which of the two files with a
  \<open>renameFallback\<close> is built. On Windows a separator is a slash or a backslash; the long path
  always exists (\<open>long_path_stays_in_buffer\<close>). The argument of \<open>Windows\<close> tells the errors
  that are system error numbers.
\<close>

datatype platform = Unix | Windows "go_error \<Rightarrow> bool"

fun is_windows :: "platform \<Rightarrow> bool" where
  "is_windows Unix = False"
| "is_windows (Windows f) = True"

definition win_sep :: "char \<Rightarrow> bool" where
  "win_sep c = (c = CHR ''/'' \<or> c = CHR 0x5C)"

definition chmod_target :: "platform \<Rightarrow> string \<Rightarrow> string" where
  "chmod_target os dst = (if is_windows os then the (fixLongPath win_sep dst) else dst)"

definition copy_into :: "platform \<Rightarrow> string \<Rightarrow> string \<Rightarrow> string \<Rightarrow> unit io" where
  "copy_into os inn src dst =
     io_bind (os_create dst) (\<lambda>out.
     io_try (io_bind (os_read inn) (os_write out)) (\<lambda>r.
       case r of
         Inl e \<Rightarrow> io_bind (io_drop (os_close out)) (\<lambda>_. io_fail e)
       | Inr _ \<Rightarrow>
           io_bind (os_close out) (\<lambda>_.
           io_bind (os_stat src) (\<lambda>si.
           os_Chmod (chmod_target os dst)))))"

definition copy_contents :: "platform \<Rightarrow> string \<Rightarrow> string \<Rightarrow> unit io" where
  "copy_contents os src dst =
     io_bind (os_open src) (\<lambda>inn.
     io_try (copy_into os inn src dst) (\<lambda>r.
     io_try (os_close inn) (\<lambda>c.
     io_lift (case r of Inl e \<Rightarrow> Inl e | Inr _ \<Rightarrow> c))))"

definition copyFile :: "platform \<Rightarrow> string \<Rightarrow> string \<Rightarrow> unit io" where
  "copyFile os src dst =
     io_bind (io_err (wrap ''symlink check failed'') (IsSymlink src)) (\<lambda>sym.
     if sym then
       io_try (cloneSymlink src dst) (\<lambda>r.
         case r of
           Inr _ \<Rightarrow> io_return ()
         | Inl err \<Rightarrow>
             if is_windows os then
               (case err of
                  LinkError op p q lerr \<Rightarrow>
                    if lerr \<noteq> ERROR_PRIVILEGE_NOT_HELD then io_fail err else copy_contents os src dst
                | _ \<Rightarrow> copy_contents os src dst)
             else io_fail err)
     else copy_contents os src dst)"

text \<open>
  A tree is copied directory by directory. The path grows by at least two bytes with every
  level and the system refuses a path of more than 4096, so the depth is bounded; the bound is
  the first argument.
\<close>

fun CopyDir :: "nat \<Rightarrow> platform \<Rightarrow> string \<Rightarrow> string \<Rightarrow> unit io"
  and copy_entries :: "nat \<Rightarrow> platform \<Rightarrow> string \<Rightarrow> string \<Rightarrow> (string \<times> bool) list \<Rightarrow> unit io" where
  "CopyDir 0 os src dst = io_fail ENAMETOOLONG"
| "CopyDir (Suc n) os src0 dst0 =
     (let src = path_clean src0; dst = path_clean dst0 in
      io_bind (os_lstat src) (\<lambda>fi.
      if \<not> node_is_dir fi then io_fail errSrcNotDir
      else io_try (os_stat dst) (\<lambda>r.
        case r of
          Inr _ \<Rightarrow> io_fail errDstExist
        | Inl err \<Rightarrow>
            if \<not> os_is_not_exist err then io_fail err
            else
              io_bind (io_err (wrap (''cannot mkdir '' @ dst)) (os_MkdirAll dst)) (\<lambda>_.
              io_bind (io_err (wrap (''cannot read directory '' @ dst)) (os_ReadDir src)) (\<lambda>es.
              copy_entries n os src dst es)))))"
| "copy_entries n os src dst [] = io_return ()"
| "copy_entries n os src dst ((name, isdir) # es) =
     io_bind
       (if isdir
        then io_err (wrap ''copying directory failed'')
               (CopyDir n os (path_join [src, name]) (path_join [dst, name]))
        else io_err (wrap ''copying file failed'')
               (copyFile os (path_join [src, name]) (path_join [dst, name])))
       (\<lambda>_. copy_entries n os src dst es)"

definition max_depth :: nat where
  "max_depth = 4096"

definition renameByCopy :: "platform \<Rightarrow> string \<Rightarrow> string \<Rightarrow> unit io" where
  "renameByCopy os src dst =
     io_try (IsDir src) (\<lambda>dir.
     io_bind
       (io_err (wrap (''rename fallback failed: cannot rename '' @ src @ '' to '' @ dst))
         (if dir = Inr True
          then io_err (wrap ''copying directory failed'') (CopyDir max_depth os src dst)
          else io_err (wrap ''copying file failed'') (copyFile os src dst)))
       (\<lambda>_. io_err (wrap (''cannot delete '' @ src)) (os_RemoveAll src)))"

text \<open>
  On Windows (\<open>rename_windows.go\<close>) an error of a cross-device rename has another number, and
  an error that is no system error number at all is taken for one too.
\<close>

definition renameFallback :: "platform \<Rightarrow> go_error \<Rightarrow> string \<Rightarrow> string \<Rightarrow> unit io" where
  "renameFallback os err src dst =
     (case err of
        LinkError op p q terr \<Rightarrow>
          if terr \<noteq> EXDEV then
            (case os of
               Unix \<Rightarrow> io_fail (wrap (''link error: cannot rename '' @ src @ '' to '' @ dst) err)
             | Windows is_errno \<Rightarrow>
                 if is_errno terr \<and>
                    terr \<noteq> Sentinel ''The system cannot move the file to a different disk drive.''
                 then io_fail (wrap (''link error: cannot rename '' @ src @ '' to '' @ dst) err)
                 else renameByCopy os src dst)
          else renameByCopy os src dst
      | _ \<Rightarrow> io_fail err)"

definition RenameWithFallback :: "platform \<Rightarrow> string \<Rightarrow> string \<Rightarrow> unit io" where
  "RenameWithFallback os src dst =
     io_bind (io_err (wrap (''cannot stat '' @ src)) (os_stat src)) (\<lambda>_.
     io_try (os_Rename src dst) (\<lambda>r.
       case r of
         Inr _ \<Rightarrow> io_return ()
       | Inl err \<Rightarrow> renameFallback os err src dst))"

section \<open>What a rename of a file does\<close>

text \<open>The target of a rename: nothing, or a file that is replaced.\<close>

definition plain_target :: "world \<Rightarrow> string \<Rightarrow> bool" where
  "plain_target w q = (case nodes w q of None \<Rightarrow> True | Some nd \<Rightarrow> node_is_regular nd)"

lemma plain_target_cong: "nodes w' = nodes w \<Longrightarrow> plain_target w' q = plain_target w q"
  by (simp add: plain_target_def)

lemma resolve_plain: "plain_target w (path_clean s) \<Longrightarrow> resolve w s = Inr (path_clean s)"
  by (auto simp: resolve_def plain_target_def node_is_regular_iff numeral_eq_Suc split: option.splits)

lemma os_open_file:
  assumes "nodes w (path_clean s) = Some (File b)" and "os_open s w = (r, w')"
  shows "nodes w' = nodes w" and "r = Inr q \<Longrightarrow> q = path_clean s"
proof -
  show "nodes w' = nodes w" using assms(2) by (rule readsD[rotated]) (intro inv_intros)
  have "resolve (w\<lparr>clock := c\<rparr>) s = Inr (path_clean s)" for c
    by (rule resolve_plain) (simp add: plain_target_def assms(1))
  then show "r = Inr q \<Longrightarrow> q = path_clean s"
    using assms by (auto simp: os_open_def elim!: syscall_cases split: option.splits)
qed

lemma os_create_plain:
  assumes "plain_target w (path_clean s)" and "os_create s w = (r, w')"
  shows "(\<exists>e. r = Inl e) \<and> nodes w' = nodes w \<or>
    r = Inr (path_clean s) \<and> nodes w' = (nodes w)(path_clean s := Some (File []))"
proof -
  have "resolve (w\<lparr>clock := c\<rparr>) s = Inr (path_clean s)" for c
    using resolve_plain[of "w\<lparr>clock := c\<rparr>" s] assms(1) by (simp add: plain_target_def)
  with assms show ?thesis
    by (auto simp: os_create_def plain_target_def node_is_regular_iff
        elim!: syscall_cases split: option.splits)
qed

lemma os_write_file:
  assumes "nodes w q = Some (File old)" and "os_write q b w = (r, w')"
  shows "(\<exists>k. nodes w' = (nodes w)(q := Some (File (old @ take k b)))) \<and>
    ((\<exists>x. r = Inr x) \<longrightarrow> nodes w' = (nodes w)(q := Some (File (old @ b))))"
  using assms
  by (auto simp: os_write_def append_data_def Let_def split: option.splits intro: exI[of _ "length b"])

lemma os_read_file:
  assumes "nodes w q = Some (File b)" and "os_read q w = (r, w')"
  shows "nodes w' = nodes w" and "r = Inr x \<Longrightarrow> x = b"
  using assms readsD[OF reads_calls(4) assms(2)]
  by (auto simp: os_read_def elim!: syscall_cases)

text \<open>Only the node at one path may have changed, and it is a file if it did.\<close>

definition wrote_file :: "string \<Rightarrow> world \<Rightarrow> world \<Rightarrow> bool" where
  "wrote_file q w w' \<longleftrightarrow>
     nodes w' = nodes w \<or> (\<exists>c. nodes w' = (nodes w)(q := Some (File c)))"

lemma read_write_file:
  assumes "nodes w p = Some (File b)" and "nodes w q = Some (File [])"
    and "io_bind (os_read p) (os_write q) w = (r, w')"
  shows "wrote_file q w w' \<and> ((\<exists>x. r = Inr x) \<longrightarrow> nodes w' = (nodes w)(q := Some (File b)))"
  using assms(3)
proof (cases rule: io_bind_cases)
  case (fail e)
  with os_read_file(1)[OF assms(1) fail(1)] show ?thesis by (simp add: wrote_file_def)
next
  case (ok x w1)
  have w1: "nodes w1 = nodes w" and x: "x = b" using os_read_file[OF assms(1) ok(1)] by auto
  have "nodes w1 q = Some (File [])" using w1 assms(2) by simp
  from os_write_file[OF this ok(2), unfolded w1 x append_Nil] show ?thesis
    unfolding wrote_file_def by blast
qed

lemma copy_into_file:
  assumes p: "nodes w p = Some (File b)" and q: "plain_target w (path_clean dst)"
    and ne: "p \<noteq> path_clean dst" and run: "copy_into os p src dst w = (r, w')"
  shows "wrote_file (path_clean dst) w w' \<and>
    ((\<exists>x. r = Inr x) \<longrightarrow> nodes w' = (nodes w)(path_clean dst := Some (File b)))"
  using run[unfolded copy_into_def]
proof (cases rule: io_bind_cases)
  case (fail e)
  with os_create_plain[OF q fail(1)] show ?thesis by (simp add: wrote_file_def)
next
  case (ok out w1)
  let ?q = "path_clean dst"
  have out: "out = ?q" and w1: "nodes w1 = (nodes w)(?q := Some (File []))"
    using os_create_plain[OF q ok(1)] by auto
  have p1: "nodes w1 p = Some (File b)" and q1: "nodes w1 ?q = Some (File [])"
    using w1 p ne by auto
  from ok(2) show ?thesis
  proof (cases rule: io_try_cases)
    case (fail e w2)
    have "wrote_file ?q w1 w2"
      using read_write_file[OF p1 q1] fail(1) out by blast
    moreover have "reads (io_bind (io_drop (os_close out)) (\<lambda>_. io_fail e :: unit io))"
      by (intro inv_intros)
    then have "nodes w' = nodes w2" using fail(2) by (auto dest: readsD)
    moreover have "\<exists>e. r = Inl e" using fail(2) by (auto simp: io_defs)
    ultimately show ?thesis using w1 by (auto simp: wrote_file_def)
  next
    case (ok x w2)
    have "nodes w2 = (nodes w1)(?q := Some (File b))"
      using read_write_file[OF p1 q1] ok(1) out by blast
    moreover have "reads (io_bind (os_close out) (\<lambda>_. io_bind (os_stat src) (\<lambda>si. os_Chmod (chmod_target os dst))))"
      by (intro inv_intros)
    then have "nodes w' = nodes w2" using ok(2) by (auto dest: readsD)
    ultimately show ?thesis using w1 by (auto simp: wrote_file_def)
  qed
qed

lemma copy_contents_file:
  assumes p: "nodes w (path_clean src) = Some (File b)" and q: "plain_target w (path_clean dst)"
    and ne: "path_clean src \<noteq> path_clean dst" and run: "copy_contents os src dst w = (r, w')"
  shows "wrote_file (path_clean dst) w w' \<and>
    ((\<exists>x. r = Inr x) \<longrightarrow> nodes w' = (nodes w)(path_clean dst := Some (File b)))"
  using run[unfolded copy_contents_def]
proof (cases rule: io_bind_cases)
  case (fail e)
  with os_open_file(1)[OF p fail(1)] show ?thesis by (simp add: wrote_file_def)
next
  case (ok inn w1)
  have inn: "inn = path_clean src" and w1: "nodes w1 = nodes w"
    using os_open_file[OF p ok(1)] by auto
  obtain r2 w2 where c: "copy_into os inn src dst w1 = (r2, w2)" by fastforce
  have c2: "wrote_file (path_clean dst) w1 w2 \<and>
      ((\<exists>x. r2 = Inr x) \<longrightarrow> nodes w2 = (nodes w1)(path_clean dst := Some (File b)))"
    using copy_into_file[of w1 "path_clean src" b dst os src r2 w2] c inn w1 p q ne
      plain_target_cong[OF w1] by auto
  have "io_try (os_close inn) (\<lambda>c. io_lift (case r2 of Inl e \<Rightarrow> Inl e | Inr _ \<Rightarrow> c)) w2 = (r, w')"
    using ok(2) c by (simp add: io_try_def[of "copy_into os inn src dst"])
  moreover have "reads (io_try (os_close inn) (\<lambda>c. io_lift (case r2 of Inl e \<Rightarrow> Inl e | Inr _ \<Rightarrow> c)))"
    by (intro inv_intros)
  ultimately have "nodes w' = nodes w2" and "\<exists>x. r = Inr x \<Longrightarrow> \<exists>x. r2 = Inr x"
    by (auto dest: readsD) (auto simp: io_defs split: sum.splits prod.splits)
  with c2 w1 show ?thesis by (auto simp: wrote_file_def)
qed

lemma IsSymlink_file:
  assumes "nodes w (path_clean s) = Some (File b)" and "IsSymlink s w = (r, w')"
  shows "nodes w' = nodes w" and "r = Inr sy \<Longrightarrow> \<not> sy"
proof -
  show "nodes w' = nodes w"
    using assms(2) by (rule readsD[rotated]) (unfold IsSymlink_def, intro inv_intros)
  show "r = Inr sy \<Longrightarrow> \<not> sy"
    using assms by (auto simp: IsSymlink_def os_lstat_def lstat_node_def io_return_def
        elim!: io_bind_cases syscall_cases)
qed

lemma copyFile_file:
  assumes p: "nodes w (path_clean src) = Some (File b)" and q: "plain_target w (path_clean dst)"
    and ne: "path_clean src \<noteq> path_clean dst" and run: "copyFile os src dst w = (r, w')"
  shows "wrote_file (path_clean dst) w w' \<and>
    ((\<exists>x. r = Inr x) \<longrightarrow> nodes w' = (nodes w)(path_clean dst := Some (File b)))"
  using run[unfolded copyFile_def]
proof (cases rule: io_bind_cases)
  case (fail e)
  from fail(1) have "nodes w' = nodes w"
    by (rule readsD[rotated]) (unfold IsSymlink_def, intro inv_intros)
  with fail show ?thesis by (simp add: wrote_file_def)
next
  case (ok sy w1)
  have "IsSymlink src w = (Inr sy, w1)" using ok(1) by (auto elim: io_err_cases)
  then have sy: "\<not> sy" and w1: "nodes w1 = nodes w" using IsSymlink_file[OF p] by auto
  have "copy_contents os src dst w1 = (r, w')" using ok(2) sy by simp
  from copy_contents_file[OF _ _ ne this] p q plain_target_cong[OF w1] w1 show ?thesis
    by (simp add: wrote_file_def)
qed

lemma IsDir_file:
  assumes "nodes w (path_clean s) = Some (File b)" and "IsDir s w = (r, w')"
  shows "nodes w' = nodes w" and "r \<noteq> Inr True"
proof -
  show "nodes w' = nodes w"
    using assms(2) by (rule readsD[rotated]) (unfold IsDir_def, intro inv_intros conjI impI; simp add: reads_def io_defs)
  have "resolve (w\<lparr>clock := c\<rparr>) s = Inr (path_clean s)" for c
    by (rule resolve_plain) (simp add: plain_target_def assms(1))
  then show "r \<noteq> Inr True"
    using assms by (auto simp: IsDir_def os_stat_def stat_node_def io_return_def io_fail_def
        elim!: io_bind_cases syscall_cases)
qed

lemma os_RemoveAll_cases:
  assumes "os_RemoveAll p w = (r, w')"
  shows "(\<exists>e. r = Inl e) \<and> nodes w' = nodes w \<or>
    r = Inr () \<and> nodes w' = (\<lambda>x. if x = path_clean p \<or> below (path_clean p) x then None else nodes w x)"
  using assms by (auto simp: os_RemoveAll_def Let_def elim!: syscall_cases)

text \<open>What a run may have done to the file system, for a file moved from \<open>p\<close> to \<open>q\<close>.\<close>

definition moved_or_kept :: "string \<Rightarrow> string \<Rightarrow> string \<Rightarrow> world \<Rightarrow> go_error + unit \<Rightarrow> world \<Rightarrow> bool" where
  "moved_or_kept p q b w r w' \<longleftrightarrow>
     (case r of
        Inr _ \<Rightarrow> nodes w' p = None \<and> nodes w' q = Some (File b)
      | Inl e \<Rightarrow> nodes w' p = Some (File b)) \<and>
     (\<forall>x. x = p \<or> x = q \<or> below p x \<or> below q x \<or> nodes w' x = nodes w x)"

lemma renameByCopy_file:
  assumes p: "nodes w (path_clean src) = Some (File b)" and q: "plain_target w (path_clean dst)"
    and ne: "path_clean src \<noteq> path_clean dst" and nb: "\<not> below (path_clean src) (path_clean dst)"
    and run: "renameByCopy os src dst w = (r, w')"
  shows "moved_or_kept (path_clean src) (path_clean dst) b w r w'"
proof -
  obtain dir w1 where d: "IsDir src w = (dir, w1)" by fastforce
  have w1: "nodes w1 = nodes w" and nd: "dir \<noteq> Inr True" using IsDir_file[OF p d] by auto
  let ?err = "wrap (''rename fallback failed: cannot rename '' @ src @ '' to '' @ dst)"
  have "io_bind (io_err ?err (io_err (wrap ''copying file failed'') (copyFile os src dst)))
      (\<lambda>_. io_err (wrap (''cannot delete '' @ src)) (os_RemoveAll src)) w1 = (r, w')"
    using run nd by (simp add: renameByCopy_def io_try_def[of "IsDir src"] d)
  then show ?thesis
  proof (cases rule: io_bind_cases)
    case (fail e)
    then obtain e' where "copyFile os src dst w1 = (Inl e', w')" by (auto elim!: io_err_cases)
    with copyFile_file[of w1 src b dst os "Inl e'" w'] p q ne w1 plain_target_cong[OF w1] fail(2)
    show ?thesis by (auto simp: wrote_file_def moved_or_kept_def)
  next
    case (ok x w2)
    then have "copyFile os src dst w1 = (Inr x, w2)" by (auto elim!: io_err_cases)
    with copyFile_file[of w1 src b dst os "Inr x" w2] p q ne w1 plain_target_cong[OF w1]
    have w2: "nodes w2 = (nodes w)(path_clean dst := Some (File b))" by auto
    from ok(2) obtain r' where "os_RemoveAll src w2 = (r', w')" "r' = Inr () \<longleftrightarrow> r = Inr ()"
      by (auto elim!: io_err_cases)
    with os_RemoveAll_cases[of src w2 r' w'] w2 p ne nb show ?thesis
      by (cases r; cases r') (auto simp: moved_or_kept_def)
  qed
qed

lemma os_Rename_file:
  assumes p: "nodes w (path_clean src) = Some (File b)" and ne: "path_clean src \<noteq> path_clean dst"
    and nb: "\<not> below (path_clean src) (path_clean dst)" "\<not> below (path_clean dst) (path_clean src)"
    and run: "os_Rename src dst w = (r, w')"
  shows "(\<exists>e. r = Inl e) \<and> nodes w' = nodes w \<or>
    r = Inr () \<and> moved_or_kept (path_clean src) (path_clean dst) b w r w'"
  using assms
  by (auto simp: os_Rename_def Let_def moved_or_kept_def move_tree_def below_def
      elim!: syscall_cases split: option.splits if_splits)

lemma RenameWithFallback_file:
  assumes "nodes w (path_clean src) = Some (File b)" and "plain_target w (path_clean dst)"
    and "path_clean src \<noteq> path_clean dst"
    and "\<not> below (path_clean src) (path_clean dst)" and "\<not> below (path_clean dst) (path_clean src)"
    and "RenameWithFallback os src dst w = (r, w')"
  shows "moved_or_kept (path_clean src) (path_clean dst) b w r w'"
proof -
  have kept: "moved_or_kept (path_clean src) (path_clean dst) b w (Inl e) w2"
    if "nodes w2 = nodes w" for e w2
    using assms(1) that by (simp add: moved_or_kept_def)
  from assms(6)[unfolded RenameWithFallback_def] show ?thesis
  proof (cases rule: io_bind_cases)
    case (fail e)
    from fail(1) have "nodes w' = nodes w" by (rule readsD[rotated]) (intro inv_intros)
    with kept fail show ?thesis by simp
  next
    case (ok nd w1)
    have w1: "nodes w1 = nodes w" using ok(1) by (rule readsD[rotated]) (intro inv_intros)
    have p1: "nodes w1 (path_clean src) = Some (File b)" and q1: "plain_target w1 (path_clean dst)"
      using assms(1,2) w1 plain_target_cong[OF w1] by auto
    have same: "moved_or_kept (path_clean src) (path_clean dst) b w r w' \<longleftrightarrow>
        moved_or_kept (path_clean src) (path_clean dst) b w2 r w'" if "nodes w2 = nodes w" for w2
      using that by (simp add: moved_or_kept_def)
    from ok(2) show ?thesis
    proof (cases rule: io_try_cases)
      case (ok x w2)
      with os_Rename_file[OF p1 assms(3-5)] same[OF w1] show ?thesis
        by (auto simp: io_return_def)
    next
      case (fail err w2)
      have w2: "nodes w2 = nodes w" using os_Rename_file[OF p1 assms(3-5) fail(1)] w1 by auto
      have p2: "nodes w2 (path_clean src) = Some (File b)" and q2: "plain_target w2 (path_clean dst)"
        using assms(1,2) w2 plain_target_cong[OF w2] by auto
      have "r = Inl e \<and> w' = w2 \<or> renameByCopy os src dst w2 = (r, w')" if "e = projl r" for e
        using fail(2) that
        by (auto simp: renameFallback_def io_fail_def split: go_error.splits platform.splits if_splits)
      then consider e where "r = Inl e" "w' = w2" | "renameByCopy os src dst w2 = (r, w')" by blast
      then show ?thesis
      proof cases
        case 1
        with kept[OF w2] show ?thesis by simp
      next
        case 2
        with renameByCopy_file[OF p2 q2 assms(3,4)] same[OF w2] show ?thesis by blast
      qed
    qed
  qed
qed

text \<open>
  C8. A file is renamed, by a system call or by the copying fallback, under any schedule of
  failures: on success the target holds the file's contents and the source is gone; on an
  error, at whatever step it came, the source still holds them. No other path changes.
\<close>

theorem rename_never_loses_a_file:
  assumes "nodes w (path_clean src) = Some (File b)" and "plain_target w (path_clean dst)"
    and "path_clean src \<noteq> path_clean dst"
    and "\<not> below (path_clean src) (path_clean dst)" and "\<not> below (path_clean dst) (path_clean src)"
    and "RenameWithFallback os src dst w = (r, w')"
  shows "moved_or_kept (path_clean src) (path_clean dst) b w r w'"
  using assms by (rule RenameWithFallback_file)

theorem rename_never_loses_a_file_witness:
  "moved_or_kept (path_clean ''/t/a'') (path_clean ''/o/b'') ''x'' small_world
     (fst (RenameWithFallback Unix ''/t/a'' ''/o/b'' small_world))
     (snd (RenameWithFallback Unix ''/t/a'' ''/o/b'' small_world))"
proof (rule rename_never_loses_a_file)
  show "nodes small_world (path_clean ''/t/a'') = Some (File ''x'')" by code_simp
  show "plain_target small_world (path_clean ''/o/b'')" by code_simp
  show "path_clean ''/t/a'' \<noteq> path_clean ''/o/b''" by code_simp
  show "\<not> below (path_clean ''/t/a'') (path_clean ''/o/b'')" by code_simp
  show "\<not> below (path_clean ''/o/b'') (path_clean ''/t/a'')" by code_simp
qed simp

end
