(* ===== verification/RemoteBuilder.thy ===== *)
theory RemoteBuilder
  imports ChartMetadata Downloader Fs
begin

text \<open>
  The builder of remote charts (\<open>internal/helm/chart/builder_remote.go\<close>) and the writing of
  packages (\<open>packageToPath\<close> in \<open>builder.go\<close>). The builder is written over the three operations
  of a downloader that it calls; its properties are proved once from the contract and hold for
  both kinds of repository. Where the code returns a result beside an error, so does the model.
\<close>

section \<open>Versions and values\<close>

definition setBuildMetaData :: "('v, 'c) semver \<Rightarrow> string \<Rightarrow> string \<Rightarrow> go_error + 'v" where
  "setBuildMetaData sv version versionMetadata =
     bindE (mapErr (wrap ''failed to parse version from chart metadata as SemVer'') (NewVersion sv version)) (\<lambda>ver.
     mapErr (wrap ''failed to set SemVer metadata on chart version'') (SetMetadata sv ver versionMetadata))"

definition values_at :: "chart_ext \<Rightarrow> chart \<Rightarrow> string \<Rightarrow> go_error + values" where
  "values_at c ch p =
     (if path_clean p = ValuesfileName then Inr (ch_Values ch)
      else
        case Option.bind (file_named (path_clean p) (ch_Files ch)) f_Data of
          None \<Rightarrow> Inl (ErrorString (''no values file found at path '' @ quoted p))
        | Some b \<Rightarrow> mapErr (wrap (''unmarshaling values from '' @ quoted p @ '' failed'')) (UnmarshalValues c b))"

fun merge_values :: "chart_ext \<Rightarrow> chart \<Rightarrow> values \<Rightarrow> string list \<Rightarrow> go_error + values" where
  "merge_values c ch merged [] = Inr merged"
| "merge_values c ch merged (p # ps) =
     bindE (values_at c ch p) (\<lambda>vs. merge_values c ch (MergeMaps c merged vs) ps)"

definition mergeChartValues :: "chart_ext \<Rightarrow> chart \<Rightarrow> string list \<Rightarrow> go_error + values" where
  "mergeChartValues c ch paths = merge_values c ch [] paths"

section \<open>Deciding what to build\<close>

definition requires_packaging :: "build_options \<Rightarrow> bool" where
  "requires_packaging opts = (GetValuesFiles opts \<noteq> [] \<or> VersionMetadata opts \<noteq> '''')"

definition named_build :: "string \<Rightarrow> string \<Rightarrow> build" where
  "named_build name ver = empty_build\<lparr>bld_Name := name, bld_Version := ver\<rparr>"

text \<open>Is the chart kept from an earlier build the one that is wanted?\<close>

definition cached_chart_fits :: "chart_ext \<Rightarrow> build_options \<Rightarrow> build \<Rightarrow> bool io" where
  "cached_chart_fits c opts result =
     (if CachedChart opts \<noteq> '''' \<and> \<not> Force opts then
        io_try (LoadChartMetadataFromArchive c (CachedChart opts)) (\<lambda>r. case r of
          Inl e \<Rightarrow> io_return False
        | Inr curMeta \<Rightarrow>
            io_return (Metadata_Validate c curMeta = None \<and>
              bld_Name result = md_Name curMeta \<and> bld_Version result = md_Version curMeta))
      else io_return False)"

definition build_version :: "('v, 'c) semver \<Rightarrow> string \<Rightarrow> build_options \<Rightarrow> go_error + string" where
  "build_version sv ver opts =
     (if VersionMetadata opts \<noteq> '''' then
        bindE (mapErr (BuildError ErrChartMetadataPatch) (setBuildMetaData sv ver (VersionMetadata opts)))
          (\<lambda>v. Inr (sv_String sv v))
      else Inr ver)"

definition generateBuildResult ::
    "chart_ext \<Rightarrow> ('v, 'c) semver \<Rightarrow> chart_version \<Rightarrow> build_options \<Rightarrow> (build \<times> bool) io" where
  "generateBuildResult c sv cv opts =
     io_bind (io_lift (build_version sv (md_Version (cv_Metadata cv)) opts)) (\<lambda>ver.
     let result = named_build (md_Name (cv_Metadata cv)) ver in
     io_bind (cached_chart_fits c opts result) (\<lambda>fits.
     if fits then
       io_return (result\<lparr>bld_Path := CachedChart opts, bld_ValuesFiles := GetValuesFiles opts,
                         Packaged := requires_packaging opts\<rparr>, True)
     else io_return (result, False)))"

definition reason_of :: "go_error \<Rightarrow> build_error_reason" where
  "reason_of err =
     (case err of
        ErrReference e \<Rightarrow> ErrChartReference
      | ErrExternal e \<Rightarrow> ErrChartPull
      | _ \<Rightarrow> ErrUnknown)"

definition fetch_version ::
    "('r \<Rightarrow> chart_version \<Rightarrow> string io) \<Rightarrow> ('r \<Rightarrow> chart_version \<Rightarrow> unit io) \<Rightarrow> chart_ext \<Rightarrow>
     ('v, 'c) semver \<Rightarrow> 'r \<Rightarrow> chart_version \<Rightarrow> build_options \<Rightarrow> (string option \<times> build) io" where
  "fetch_version download verify c sv d cv opts =
     io_bind (if Verify opts then io_err (BuildError ErrChartVerification) (verify d cv)
              else io_return ()) (\<lambda>_.
     io_bind (generateBuildResult c sv cv opts) (\<lambda>(result, shouldReturn).
     if shouldReturn then io_return (None, result)
     else
       io_bind (io_err (\<lambda>e. BuildError ErrChartPull (wrap ''failed to download chart for remote reference'' e))
                  (download d cv)) (\<lambda>res.
       io_return (Some res, result))))"

definition downloadFromRepository ::
    "('r \<Rightarrow> string \<Rightarrow> string \<Rightarrow> ((go_error + chart_version) \<times> 'r) io) \<Rightarrow>
     ('r \<Rightarrow> chart_version \<Rightarrow> string io) \<Rightarrow> ('r \<Rightarrow> chart_version \<Rightarrow> unit io) \<Rightarrow> chart_ext \<Rightarrow>
     ('v, 'c) semver \<Rightarrow> 'r \<Rightarrow> remote_reference \<Rightarrow> build_options \<Rightarrow>
     ((go_error + (string option \<times> build)) \<times> 'r) io" where
  "downloadFromRepository get download verify c sv d r opts =
     io_bind (get d (ref_Name r) (ref_Version r)) (\<lambda>(res, d').
     case res of
       Inl err \<Rightarrow>
         io_return (Inl (BuildError (reason_of err) (wrap ''failed to get chart version for remote reference'' err)), d')
     | Inr cv \<Rightarrow>
         io_try (fetch_version download verify c sv d' cv opts) (\<lambda>out. io_return (out, d')))"

section \<open>Writing the package\<close>

definition check_and_rename :: "chart_ext \<Rightarrow> platform \<Rightarrow> string \<Rightarrow> string \<Rightarrow> unit io" where
  "check_and_rename c os tmp out =
     io_bind (io_err (wrap ''failed to load chart metadata from written chart'')
                (LoadChartMetadataFromArchive c tmp)) (\<lambda>meta.
     case Metadata_Validate c meta of
       Some e \<Rightarrow> io_fail (wrap ''failed to validate metadata of written chart'' e)
     | None \<Rightarrow>
         io_err (wrap ''failed to write chart to file'') (RenameWithFallback os tmp out))"

definition validatePackageAndWriteToPath ::
    "chart_ext \<Rightarrow> platform \<Rightarrow> string \<Rightarrow> string \<Rightarrow> unit io" where
  "validatePackageAndWriteToPath c os b out =
     io_bind (io_err (wrap ''failed to create temporary file for chart'')
                (os_CreateTemp '''' (path_base out))) (\<lambda>tmp.
     io_defer
       (io_try (os_write tmp b) (\<lambda>r. case r of
          Inl e \<Rightarrow>
            io_bind (io_drop (os_close tmp)) (\<lambda>_. io_fail (wrap ''failed to write chart to file'' e))
        | Inr _ \<Rightarrow> io_bind (os_close tmp) (\<lambda>_. check_and_rename c os tmp out)))
       (os_Remove tmp))"

text \<open>
  \<open>chartutil.Save\<close> of Helm writes an archive into a directory; its parameter says which name
  and which bytes.
\<close>

definition save_chart :: "chart_ext \<Rightarrow> chart \<Rightarrow> string \<Rightarrow> string io" where
  "save_chart c ch dir =
     io_bind (io_lift (chart_archive c ch)) (\<lambda>(name, b).
     io_bind (os_WriteFile (path_join [dir, name]) b) (\<lambda>_.
     io_return (path_join [dir, name])))"

definition packageToPath :: "chart_ext \<Rightarrow> platform \<Rightarrow> chart \<Rightarrow> string \<Rightarrow> unit io" where
  "packageToPath c os ch out =
     io_bind (io_err (wrap ''failed to create temporary directory for chart'')
                (os_MkdirTemp '''' ''chart-build-*'')) (\<lambda>o'.
     io_defer
       (io_bind (io_err (wrap ''failed to package chart'') (save_chart c ch o')) (\<lambda>p.
        io_err (wrap ''failed to write chart to file'') (RenameWithFallback os p out)))
       (os_RemoveAll o'))"

section \<open>Build\<close>

text \<open>The chart that is packaged, and whether its default values were replaced.\<close>

definition patched_chart ::
    "chart_ext \<Rightarrow> chart \<Rightarrow> string \<Rightarrow> string list \<Rightarrow> (go_error + go_error) + (bool \<times> chart)" where
  "patched_chart c ch0 ver paths =
     (let ch = Chart ((ch_Metadata ch0)\<lparr>md_Version := ver\<rparr>) (ch_Raw ch0) (ch_Files ch0) (ch_Values ch0)
                 (ch_dependencies ch0) (ch_Lock ch0) in
      case mergeChartValues c ch paths of
        Inl e \<Rightarrow> Inl (Inl e)
      | Inr merged \<Rightarrow>
          (case OverwriteChartDefaultValues c ch (Some merged) of
             (Inl e, ch') \<Rightarrow> Inl (Inr e)
           | (Inr ok, ch') \<Rightarrow> Inr (ok, ch')))"

definition repackage ::
    "chart_ext \<Rightarrow> platform \<Rightarrow> string \<Rightarrow> build \<Rightarrow> string \<Rightarrow> build_options \<Rightarrow> (build option \<times> go_error option) io" where
  "repackage c os res result p opts =
     (case LoadArchive c res of
        Inl e \<Rightarrow>
          io_return (Some result, Some (BuildError ErrChartPackage (wrap ''failed to load downloaded chart'' e)))
      | Inr ch \<Rightarrow>
          (case patched_chart c ch (bld_Version result) (opt_ValuesFiles opts) of
             Inl (Inl e) \<Rightarrow>
               io_return (Some result, Some (BuildError ErrValuesFilesMerge (wrap ''failed to merge chart values'' e)))
           | Inl (Inr e) \<Rightarrow> io_return (None, Some (BuildError ErrValuesFilesMerge e))
           | Inr (ok, ch') \<Rightarrow>
               let result' = (if ok then result\<lparr>bld_ValuesFiles := GetValuesFiles opts\<rparr> else result) in
               io_try (packageToPath c os ch' p) (\<lambda>r. case r of
                 Inl e \<Rightarrow> io_return (None, Some (BuildError ErrChartPackage e))
               | Inr _ \<Rightarrow> io_return (Some (result'\<lparr>bld_Path := p, Packaged := True\<rparr>), None))))"

definition write_chart ::
    "chart_ext \<Rightarrow> platform \<Rightarrow> string \<Rightarrow> build \<Rightarrow> string \<Rightarrow> build_options \<Rightarrow> (build option \<times> go_error option) io" where
  "write_chart c os res result p opts =
     (if \<not> requires_packaging opts then
        io_try (validatePackageAndWriteToPath c os res p) (\<lambda>r. case r of
          Inl e \<Rightarrow> io_return (None, Some (BuildError ErrChartPull e))
        | Inr _ \<Rightarrow> io_return (Some (result\<lparr>bld_Path := p\<rparr>), None))
      else repackage c os res result p opts)"

definition remote_Build ::
    "('r \<Rightarrow> string \<Rightarrow> string \<Rightarrow> ((go_error + chart_version) \<times> 'r) io) \<Rightarrow>
     ('r \<Rightarrow> chart_version \<Rightarrow> string io) \<Rightarrow> ('r \<Rightarrow> chart_version \<Rightarrow> unit io) \<Rightarrow> chart_ext \<Rightarrow>
     ('v, 'c) semver \<Rightarrow> platform \<Rightarrow> 'r \<Rightarrow> reference \<Rightarrow> string \<Rightarrow> build_options \<Rightarrow>
     ((build option \<times> go_error option) \<times> 'r) io" where
  "remote_Build get download verify c sv os d ref p opts =
     (case ref of
        LocalRef l \<Rightarrow>
          io_return ((None, Some (BuildError ErrChartReference (ErrorString ''expected remote chart reference''))), d)
      | RemoteRef r \<Rightarrow>
          (case Reference_Validate ref of
             Some e \<Rightarrow> io_return ((None, Some (BuildError ErrChartReference e)), d)
           | None \<Rightarrow>
               io_bind (downloadFromRepository get download verify c sv d r opts) (\<lambda>(out, d').
               case out of
                 Inl err \<Rightarrow> io_return ((None, Some err), d')
               | Inr (res, result) \<Rightarrow>
                   (case res of
                      None \<Rightarrow> io_return ((Some result, None), d')
                    | Some b \<Rightarrow>
                        io_bind (write_chart c os b result p opts) (\<lambda>r. io_return (r, d'))))))"

definition pathIsDir :: "string \<Rightarrow> bool io" where
  "pathIsDir p =
     (if p = '''' then io_return False
      else io_try (os_stat p) (\<lambda>r. io_return (case r of Inl e \<Rightarrow> False | Inr i \<Rightarrow> node_is_dir i)))"

section \<open>Errors and results of a build\<close>

text \<open>The reasons a remote build can fail for; the unknown reason is not one of them.\<close>

definition remote_reasons :: "build_error_reason list" where
  "remote_reasons =
     [ErrChartReference, ErrChartPull, ErrChartVerification, ErrChartMetadataPatch, ErrChartPackage,
      ErrValuesFilesMerge]"

fun known_failure :: "go_error \<Rightarrow> bool" where
  "known_failure (BuildError r e) = (r \<in> set remote_reasons)"
| "known_failure e = False"

lemma known_reason [simp]:
  "ErrChartReference \<in> set remote_reasons" "ErrChartPull \<in> set remote_reasons"
  "ErrChartVerification \<in> set remote_reasons" "ErrChartMetadataPatch \<in> set remote_reasons"
  "ErrChartPackage \<in> set remote_reasons" "ErrValuesFilesMerge \<in> set remote_reasons"
  by (simp_all add: remote_reasons_def)

lemma reason_of_known: "reference_or_external e \<Longrightarrow> reason_of e \<in> set remote_reasons"
  by (cases e) (simp_all add: reason_of_def reference_or_external_def)

lemma build_version_error: "build_version sv ver opts = Inl e \<Longrightarrow> known_failure e"
  by (auto simp: build_version_def bindE_Inl_iff mapErr_Inl_iff split: if_splits)

lemma cached_chart_fits_total [inv_intros]:
  "never_fails (cached_chart_fits c opts result)"
  unfolding cached_chart_fits_def by (intro inv_intros)

lemma generateBuildResult_error:
  assumes "generateBuildResult c sv cv opts w = (Inl e, w')" shows "known_failure e"
  using assms[unfolded generateBuildResult_def]
proof (cases rule: io_bind_cases)
  case (fail e')
  then show ?thesis by (auto simp: io_lift_def build_version_error)
next
  case (ok ver w1)
  obtain fits w2 where "cached_chart_fits c opts (named_build (md_Name (cv_Metadata cv)) ver) w1 = (Inr fits, w2)"
    using cached_chart_fits_total[unfolded never_fails_def] by metis
  with ok(2) show ?thesis by (simp add: Let_def io_bind_def io_return_def split: if_splits)
qed

lemma fetch_version_error:
  assumes "fetch_version download verify c sv d cv opts w = (Inl e, w')" shows "known_failure e"
  using assms generateBuildResult_error
  by (auto simp: fetch_version_def io_return_def elim!: io_bind_cases io_err_cases split: if_splits)

lemma cached_chart_fits_requested:
  "cached_chart_fits c opts result w = (Inr True, w') \<Longrightarrow> CachedChart opts \<noteq> ''''"
  by (auto simp: cached_chart_fits_def io_return_def split: if_splits)

lemma generateBuildResult_path:
  "generateBuildResult c sv cv opts w = (Inr (result, True), w') \<Longrightarrow>
   bld_Path result = CachedChart opts \<and> CachedChart opts \<noteq> ''''"
  by (auto simp: generateBuildResult_def io_return_def Let_def elim!: io_bind_cases
      dest: cached_chart_fits_requested split: if_splits)

lemma fetch_version_path:
  "fetch_version download verify c sv d cv opts w = (Inr (None, result), w') \<Longrightarrow>
   bld_Path result = CachedChart opts \<and> CachedChart opts \<noteq> ''''"
  by (auto simp: fetch_version_def io_return_def elim!: io_bind_cases dest: generateBuildResult_path
      split: if_splits)

text \<open>A result of the builder: a build at one of two paths, or an error of a known kind.\<close>

definition good_result :: "string \<Rightarrow> build_options \<Rightarrow> build option \<times> go_error option \<Rightarrow> bool" where
  "good_result p opts r \<longleftrightarrow>
     (case r of
        (b, Some e) \<Rightarrow> known_failure e
      | (None, None) \<Rightarrow> False
      | (Some result, None) \<Rightarrow>
          bld_Path result = p \<or> bld_Path result = CachedChart opts \<and> CachedChart opts \<noteq> '''')"

lemma repackage_result:
  "\<exists>r w'. repackage c os res result p opts w = (Inr r, w') \<and> good_result p opts r"
proof -
  have "\<exists>r w'. (io_try (packageToPath c os ch' p) (\<lambda>r. case r of
            Inl e \<Rightarrow> io_return (None, Some (BuildError ErrChartPackage e))
          | Inr _ \<Rightarrow> io_return (Some (result'\<lparr>bld_Path := p, Packaged := True\<rparr>), None)) w) = (Inr r, w') \<and>
      good_result p opts r" for ch' result'
    by (cases "packageToPath c os ch' p w"; cases "fst (packageToPath c os ch' p w)")
      (auto simp: io_try_def io_return_def good_result_def)
  then show ?thesis
    by (auto simp: repackage_def io_return_def good_result_def Let_def split: sum.split prod.split)
qed

lemma write_chart_result:
  "\<exists>r w'. write_chart c os res result p opts w = (Inr r, w') \<and> good_result p opts r"
proof (cases "requires_packaging opts")
  case True
  then show ?thesis using repackage_result by (simp add: write_chart_def)
next
  case False
  then show ?thesis
    by (cases "validatePackageAndWriteToPath c os res p w";
        cases "fst (validatePackageAndWriteToPath c os res p w)")
      (auto simp: write_chart_def io_try_def io_return_def good_result_def)
qed

context downloader_contract
begin

lemma Build_result:
  "\<exists>r d' w'. remote_Build get download verify c sv os d ref p opts w = (Inr (r, d'), w') \<and>
     good_result p opts r"
proof (cases ref)
  case (LocalRef l)
  then show ?thesis by (simp add: remote_Build_def io_return_def good_result_def)
next
  case (RemoteRef r)
  show ?thesis
  proof (cases "Reference_Validate ref")
    case (Some e)
    with RemoteRef show ?thesis by (simp add: remote_Build_def io_return_def good_result_def)
  next
    case None
    obtain res d1 w1 where g: "get d (ref_Name r) (ref_Version r) w = (Inr (res, d1), w1)"
      by (rule get_cases)
    show ?thesis
    proof (cases res)
      case (Inl e)
      with get_errors g reason_of_known have "reason_of e \<in> set remote_reasons" by blast
      with None RemoteRef g Inl show ?thesis
        by (simp add: remote_Build_def downloadFromRepository_def io_bind_def io_return_def good_result_def)
    next
      case (Inr cv)
      obtain out w2 where f: "fetch_version download verify c sv d1 cv opts w1 = (out, w2)" by fastforce
      show ?thesis
      proof (cases out)
        case (Inl e)
        have "known_failure e" using f unfolding Inl by (rule fetch_version_error)
        with None RemoteRef g Inr Inl f show ?thesis
          by (simp add: remote_Build_def downloadFromRepository_def io_bind_def io_try_def io_return_def
              good_result_def)
      next
        case out: (Inr br)
        obtain b result where br: "br = (b, result)" by fastforce
        show ?thesis
        proof (cases b)
          case b: None
          have "bld_Path result = CachedChart opts \<and> CachedChart opts \<noteq> ''''"
            using f unfolding out br b by (rule fetch_version_path)
          with None RemoteRef g Inr out br b f show ?thesis
            by (simp add: remote_Build_def downloadFromRepository_def io_bind_def io_try_def io_return_def
                good_result_def)
        next
          case b: (Some bytes)
          obtain r' w3 where "write_chart c os bytes result p opts w2 = (Inr r', w3)" "good_result p opts r'"
            using write_chart_result by blast
          with None RemoteRef g Inr out br b f show ?thesis
            by (simp add: remote_Build_def downloadFromRepository_def io_bind_def io_try_def io_return_def)
        qed
      qed
    qed
  qed
qed

end

text \<open>
  C4. Building a remote chart always comes back with a result or an error, over both kinds of
  repository and under any schedule of failures. An error is a build error with one of the six
  reasons for remote charts, never the unknown one; without an error there is a build, and its
  path is the requested one or, if a cached chart was named, that of the cached chart.
\<close>

theorem remote_build_outcomes:
  "case remote_Build (down_GetChartVersion s) (down_DownloadChart s) (down_VerifyChart s)
          c sv os d ref p opts w of
     (Inl e, w') \<Rightarrow> False
   | (Inr ((b, Some e), d'), w') \<Rightarrow> (\<exists>r cause. e = BuildError r cause \<and> r \<in> set remote_reasons)
   | (Inr ((b, None), d'), w') \<Rightarrow>
       (\<exists>result. b = Some result \<and>
          (bld_Path result = p \<or> bld_Path result = CachedChart opts \<and> CachedChart opts \<noteq> ''''))"
proof -
  obtain r d' w' where "remote_Build (down_GetChartVersion s) (down_DownloadChart s) (down_VerifyChart s)
      c sv os d ref p opts w = (Inr (r, d'), w')" and g: "good_result p opts r"
    using dl.Build_result by blast
  moreover have "known_failure e \<Longrightarrow> \<exists>r cause. e = BuildError r cause \<and> r \<in> set remote_reasons" for e
    by (cases e) auto
  ultimately show ?thesis
    by (cases r) (auto simp: good_result_def split: option.splits)
qed

section \<open>Verification comes first\<close>

lemma reads_cached_chart_fits [inv_intros]: "reads (cached_chart_fits c opts result)"
  unfolding cached_chart_fits_def LoadChartMetadataFromArchive_def by (intro inv_intros)

lemma reads_generateBuildResult [inv_intros]: "reads (generateBuildResult c sv cv opts)"
  unfolding generateBuildResult_def Let_def by (intro inv_intros)

lemma fetch_version_verified:
  assumes "fetch_version download verify c sv d cv opts w = (Inr x, w')" and "Verify opts"
  shows "\<exists>w1. verify d cv w = (Inr (), w1)"
  using assms by (auto simp: fetch_version_def elim!: io_bind_InrE io_err_cases)

context downloader_contract
begin

lemma reads_fetch_version: "reads (fetch_version download verify c sv d cv opts)"
  unfolding fetch_version_def by (intro inv_intros verify_reads download_reads)

lemma Build_verified:
  assumes run: "remote_Build get download verify c sv os d (RemoteRef r) p opts w = (Inr ((b, err), d'), w')"
    and get: "get d (ref_Name r) (ref_Version r) w = (Inr (Inr cv, d1), w1)"
    and valid: "RemoteReference_Validate r = None" and vf: "Verify opts"
    and bad: "verify d1 cv w1 = (Inl e, w2)"
  shows "b = None \<and> err = Some (BuildError ErrChartVerification e) \<and> d' = d1 \<and> w' = w2 \<and> nodes w' = nodes w1"
proof -
  have "fetch_version download verify c sv d1 cv opts w1 = (Inl (BuildError ErrChartVerification e), w2)"
    using bad vf by (simp add: fetch_version_def io_bind_def io_err_def)
  with run get valid have "b = None \<and> err = Some (BuildError ErrChartVerification e) \<and> d' = d1 \<and> w' = w2"
    by (simp add: remote_Build_def Reference_Validate_def downloadFromRepository_def io_bind_def io_try_def
        io_return_def)
  moreover have "nodes w2 = nodes w1" using readsD[OF verify_reads bad] .
  ultimately show ?thesis by blast
qed

end

text \<open>
  C23. When verification is asked for and fails, the build fails with the reason for it before
  anything is downloaded, and no file is written.
\<close>

theorem unverified_charts_are_refused:
  assumes "remote_Build (down_GetChartVersion s) (down_DownloadChart s) (down_VerifyChart s)
             c sv os d (RemoteRef r) p opts w = (Inr ((b, err), d'), w')"
    and "down_GetChartVersion s d (ref_Name r) (ref_Version r) w = (Inr (Inr cv, d1), w1)"
    and "RemoteReference_Validate r = None" and "Verify opts"
    and "down_VerifyChart s d1 cv w1 = (Inl e, w2)"
  shows "b = None \<and> err = Some (BuildError ErrChartVerification e) \<and> w' = w2 \<and> nodes w' = nodes w1"
  using dl.Build_verified[OF assms] by blast

text \<open>An instance for examples: the repository of the other examples, in a registry.\<close>

definition sample_services :: "(nat, nat option) services" where
  "sample_services = \<lparr>sv_http = sample_ext, sv_oci = sample_oci, sv_semver = num_semver\<rparr>"

definition sample_registry :: oci_repository where
  "sample_registry =
     \<lparr>oci_URL = empty_url\<lparr>Scheme := ''oci'', Host := ''r.io'', u_Path := ''/c''\<rparr>, oci_Client = 0, oci_Options = [],
      oci_tlsConfig = None, oci_RegistryClient = 0, credentialsFile = '''', verifiers = []\<rparr>"

definition sample_chart_ext :: chart_ext where
  "sample_chart_ext =
     \<lparr>EncodeValues = (\<lambda>vs. Inr (concat (map (\<lambda>v. fst v @ ''/'') vs))),
      UnmarshalValues = (\<lambda>b. Inr [(b, VNull)]),
      UnmarshalMetadata = (\<lambda>b m. Inr (m\<lparr>md_Name := b, md_Version := ''7''\<rparr>)),
      Metadata_Validate = (\<lambda>m. None),
      MergeMaps = (\<lambda>a b. a @ b),
      tar_stream = (\<lambda>b. Inr ([\<lparr>th_Name = ''app/Chart.yaml'', th_Typeflag = CHR ''0'', th_IsDir = False,
                            th_Size = 3, th_Data = Inr ''app''\<rparr>], EOF)),
      LoadArchive = (\<lambda>b. Inl EOF),
      chart_archive = (\<lambda>ch. Inl EOF)\<rparr>"

definition sample_options :: build_options where
  "sample_options = \<lparr>VersionMetadata = '''', opt_ValuesFiles = [], CachedChart = '''', Force = False, Verify = True\<rparr>"

theorem unverified_charts_are_refused_witness:
  "\<exists>d' w'. remote_Build (down_GetChartVersion sample_services) (down_DownloadChart sample_services)
       (down_VerifyChart sample_services) sample_chart_ext num_semver Unix (OCIRepository sample_registry)
       (RemoteRef \<lparr>ref_Name = ''app'', ref_Version = ''7''\<rparr>) ''/o/b'' sample_options small_world =
     (Inr ((None, Some (BuildError ErrChartVerification (ErrorString ''no verifiers available''))), d'), w') \<and>
     nodes w' = nodes small_world"
proof -
  let ?d = "OCIRepository sample_registry" and ?r = "\<lparr>ref_Name = ''app'', ref_Version = ''7''\<rparr> :: remote_reference"
  obtain b err d' w' where run: "remote_Build (down_GetChartVersion sample_services)
      (down_DownloadChart sample_services) (down_VerifyChart sample_services) sample_chart_ext num_semver Unix ?d
       (RemoteRef ?r) ''/o/b'' sample_options small_world = (Inr ((b, err), d'), w')"
    using dl.Build_result by (metis surj_pair)
  have p: "ParseVersion num_semver ''7'' = Inr 7" by code_simp
  have get: "down_GetChartVersion sample_services ?d (ref_Name ?r) (ref_Version ?r) small_world =
      (Inr (Inr (oci_chart_version sample_registry ''app'' ''7''), ?d), small_world)"
    using p by (simp add: down_GetChartVersion_def oci_GetChartVersion_def oci_getChartVersion_def
        sample_services_def io_try_def io_err_def io_return_def)
  have valid: "RemoteReference_Validate ?r = None" by code_simp
  have vf: "Verify sample_options" by (simp add: sample_options_def)
  have bad: "down_VerifyChart sample_services ?d (oci_chart_version sample_registry ''app'' ''7'') small_world =
      (Inl (ErrorString ''no verifiers available''), small_world)"
    by (simp add: down_VerifyChart_def VerifyChart_def sample_registry_def io_fail_def)
  show ?thesis
    using unverified_charts_are_refused[OF run get valid vf bad] run by auto
qed

section \<open>Values files\<close>

text \<open>
  What a listed path stands for, written out over the chart and independent of the routine: the
  chart's default values when the cleaned path is the name of the values file, else the parsed
  data of the first file with the cleaned path as its name. A path is bad when there is no such
  file or it has no data, or when its data do not parse, and the errors of the two differ.
\<close>

definition first_named :: "string \<Rightarrow> chart_file list \<Rightarrow> chart_file \<Rightarrow> bool" where
  "first_named n fs f \<longleftrightarrow> (\<exists>pre post. fs = pre @ f # post \<and> f_Name f = n \<and> n \<notin> f_Name ` set pre)"

definition stands_for :: "chart_ext \<Rightarrow> chart \<Rightarrow> string \<Rightarrow> values \<Rightarrow> bool" where
  "stands_for c ch p vs \<longleftrightarrow>
     (if path_clean p = ''values.yaml'' then vs = ch_Values ch
      else \<exists>f b. first_named (path_clean p) (ch_Files ch) f \<and> f_Data f = Some b \<and> UnmarshalValues c b = Inr vs)"

definition bad_path :: "chart_ext \<Rightarrow> chart \<Rightarrow> string \<Rightarrow> go_error \<Rightarrow> bool" where
  "bad_path c ch p e \<longleftrightarrow> path_clean p \<noteq> ''values.yaml'' \<and>
     ((\<forall>f b. first_named (path_clean p) (ch_Files ch) f \<longrightarrow> f_Data f \<noteq> Some b) \<and>
        e = ErrorString (''no values file found at path '' @ quoted p) \<or>
      (\<exists>f b e'. first_named (path_clean p) (ch_Files ch) f \<and> f_Data f = Some b \<and>
        UnmarshalValues c b = Inl e' \<and> e = wrap (''unmarshaling values from '' @ quoted p @ '' failed'') e'))"

lemma first_named_iff: "first_named n fs f \<longleftrightarrow> file_named n fs = Some f"
proof (induction fs)
  case (Cons g fs)
  have "first_named n (g # fs) f \<longleftrightarrow> (if f_Name g = n then f = g else first_named n fs f)"
    unfolding first_named_def by (auto simp: Cons_eq_append_conv) (metis append_Cons image_insert insertE list.simps(15))
  with Cons.IH show ?case by (auto simp: file_named_def)
qed (simp add: first_named_def file_named_def)

lemma values_at_spec:
  "case values_at c ch p of Inr vs \<Rightarrow> stands_for c ch p vs | Inl e \<Rightarrow> bad_path c ch p e"
proof (cases "path_clean p = ''values.yaml''")
  case False
  then show ?thesis
    by (cases "file_named (path_clean p) (ch_Files ch)")
      (auto simp: values_at_def stands_for_def bad_path_def first_named_iff ValuesfileName_def mapErr_def
        split: option.splits sum.splits)
qed (simp add: values_at_def stands_for_def ValuesfileName_def)

lemma merge_values_spec:
  "case merge_values c ch m ps of
     Inr vs \<Rightarrow> \<exists>vss. list_all2 (stands_for c ch) ps vss \<and> vs = foldl (MergeMaps c) m vss
   | Inl e \<Rightarrow> \<exists>pre p post. ps = pre @ p # post \<and>
       (\<exists>vss. list_all2 (stands_for c ch) pre vss) \<and> bad_path c ch p e"
proof (induction ps arbitrary: m)
  case (Cons p ps)
  note at = values_at_spec[of c ch p]
  show ?case
  proof (cases "values_at c ch p")
    case (Inl e)
    with at have "bad_path c ch p e" by simp
    then have "p # ps = [] @ p # ps \<and> (\<exists>vss. list_all2 (stands_for c ch) [] vss) \<and> bad_path c ch p e"
      by simp
    with Inl show ?thesis by (simp; blast)
  next
    case (Inr v)
    with at have v: "stands_for c ch p v" by simp
    show ?thesis
    proof (cases "merge_values c ch (MergeMaps c m v) ps")
      case (Inl e)
      with Cons.IH[of "MergeMaps c m v"] obtain pre q post vss where
        "ps = pre @ q # post" "list_all2 (stands_for c ch) pre vss" "bad_path c ch q e" by auto
      with v have "p # ps = (p # pre) @ q # post" "list_all2 (stands_for c ch) (p # pre) (v # vss)" by simp_all
      with \<open>bad_path c ch q e\<close> Inl \<open>values_at c ch p = Inr v\<close> show ?thesis by (simp; blast)
    next
      case (Inr vs)
      with Cons.IH[of "MergeMaps c m v"] obtain vss where
        "list_all2 (stands_for c ch) ps vss" "vs = foldl (MergeMaps c) (MergeMaps c m v) vss" by auto
      with v Inr \<open>values_at c ch p = Inr v\<close> show ?thesis by (auto intro!: exI[of _ "v # vss"])
    qed
  qed
qed simp

text \<open>
  C26. The values files of a release are merged in the order they are listed, each over what
  came before, starting from nothing; the chart's own defaults take part only where the list
  names them. The merge fails exactly when a file is missing, or without data, or cannot be
  parsed, with the error of the first such file.
\<close>

theorem values_files_are_merged_in_order:
  "case mergeChartValues c ch paths of
     Inr vs \<Rightarrow> \<exists>vss. list_all2 (stands_for c ch) paths vss \<and> vs = foldl (MergeMaps c) [] vss
   | Inl e \<Rightarrow> \<exists>pre p post. paths = pre @ p # post \<and>
       (\<exists>vss. list_all2 (stands_for c ch) pre vss) \<and> bad_path c ch p e"
  unfolding mergeChartValues_def by (rule merge_values_spec)

text \<open>
  When only version metadata is set and no values files are listed, a chart with a values
  file that is not nil loses its default values: the file is emptied and the values of the
  chart are replaced by none.
\<close>

theorem version_metadata_empties_values:
  assumes "file_named ValuesfileName (ch_Raw ch) = Some f" and "f_Data f = Some data"
  shows "\<exists>ch'. patched_chart c ch ver [] = Inr (True, ch') \<and> ch_Values ch' = [] \<and>
     file_named ValuesfileName (ch_Raw ch') = Some (f\<lparr>f_Data := None\<rparr>) \<and>
     md_Version (ch_Metadata ch') = ver"
  using assms
  by (simp add: patched_chart_def mergeChartValues_def OverwriteChartDefaultValues_def encoded_def
      replace_first_map)

definition sample_chart :: chart where
  "sample_chart =
     Chart \<lparr>md_Name = ''app'', md_Version = ''7'', md_APIVersion = ''v2'', md_Dependencies = []\<rparr>
       [\<lparr>f_Name = ''values.yaml'', f_Data = Some ''a: 1''\<rparr>] [] [(''a'', VNumber ''1'')] [] None"

theorem version_metadata_empties_values_witness:
  "\<exists>ch'. patched_chart sample_chart_ext sample_chart ''7+0'' [] = Inr (True, ch') \<and> ch_Values ch' = [] \<and>
     file_named ValuesfileName (ch_Raw ch') =
       Some (\<lparr>f_Name = ''values.yaml'', f_Data = Some ''a: 1''\<rparr>\<lparr>f_Data := None\<rparr>) \<and>
     md_Version (ch_Metadata ch') = ''7+0''"
  by (rule version_metadata_empties_values) (simp_all add: sample_chart_def file_named_def ValuesfileName_def)

section \<open>Charts kept from earlier builds\<close>

lemma cached_chart_fits_hit:
  assumes "CachedChart opts \<noteq> ''''" and "\<not> Force opts"
    and "LoadChartMetadataFromArchive c (CachedChart opts) w = (Inr m, w')"
    and "Metadata_Validate c m = None"
    and "md_Name m = bld_Name result" and "md_Version m = bld_Version result"
  shows "cached_chart_fits c opts result w = (Inr True, w')"
  using assms by (simp add: cached_chart_fits_def io_try_def io_return_def)

text \<open>
  If the chart kept at the cached path has the name and version that the build would give
  its result, and no rebuild is forced, then that chart is the result, whatever values files
  are asked for: nothing is downloaded, nothing is written, and the result even names the
  values files it was asked for as the ones that were merged.
\<close>

theorem cached_chart_ignores_values_files:
  assumes "down_GetChartVersion s d (ref_Name r) (ref_Version r) w = (Inr (Inr cv, d1), w1)"
    and "RemoteReference_Validate r = None" and "\<not> Verify opts"
    and "build_version sv (md_Version (cv_Metadata cv)) opts = Inr ver"
    and "CachedChart opts \<noteq> ''''" and "\<not> Force opts"
    and "LoadChartMetadataFromArchive c (CachedChart opts) w1 = (Inr m, w2)"
    and "Metadata_Validate c m = None"
    and "md_Name m = md_Name (cv_Metadata cv)" and "md_Version m = ver"
  shows "remote_Build (down_GetChartVersion s) (down_DownloadChart s) (down_VerifyChart s)
      c sv os d (RemoteRef r) p opts w =
    (Inr ((Some \<lparr>bld_Name = md_Name m, bld_Version = ver, bld_Path = CachedChart opts,
                 bld_ValuesFiles = GetValuesFiles opts, ResolvedDependencies = 0,
                 Packaged = requires_packaging opts\<rparr>, None), d1), w2)"
proof -
  let ?result = "named_build (md_Name (cv_Metadata cv)) ver"
  have "cached_chart_fits c opts ?result w1 = (Inr True, w2)"
    using assms by (intro cached_chart_fits_hit) (simp_all add: named_build_def)
  then have "fetch_version (down_DownloadChart s) (down_VerifyChart s) c sv d1 cv opts w1 =
      (Inr (None, ?result\<lparr>bld_Path := CachedChart opts, bld_ValuesFiles := GetValuesFiles opts,
        Packaged := requires_packaging opts\<rparr>), w2)"
    using assms by (simp add: fetch_version_def generateBuildResult_def io_bind_def io_return_def io_lift_def Let_def)
  with assms show ?thesis
    by (simp add: remote_Build_def Reference_Validate_def downloadFromRepository_def io_bind_def io_try_def
        io_return_def named_build_def empty_build_def)
qed

section \<open>What is written\<close>

definition valid_archive :: "chart_ext \<Rightarrow> string \<Rightarrow> bool" where
  "valid_archive c b =
     (case metadata_of_archive c b of Inl e \<Rightarrow> False | Inr m \<Rightarrow> Metadata_Validate c m = None)"

text \<open>No temporary file with this pattern is, or lies below or above, the path.\<close>

definition temp_apart :: "world \<Rightarrow> string \<Rightarrow> string \<Rightarrow> bool" where
  "temp_apart w pat q \<longleftrightarrow>
     (\<forall>k. let p = path_join [tempdir w, fst (temp_pattern pat) @ rand w k @ snd (temp_pattern pat)] in
        p \<noteq> q \<and> \<not> below p q \<and> \<not> below q p)"

lemma os_CreateTemp_name:
  assumes "os_CreateTemp '''' pat w = (Inr f, w')"
  shows "\<exists>k. f = path_join [tempdir w, fst (temp_pattern pat) @ rand w k @ snd (temp_pattern pat)]"
  using assms[unfolded os_CreateTemp_def make_temp_def]
proof (cases rule: syscall_cases)
  case (run r')
  then have "temp_name 10000 (w\<lparr>clock := Suc (clock w)\<rparr>) (tempdir w) pat = Some f"
    by (auto split: option.splits)
  from temp_name_new[OF this] show ?thesis by auto
qed simp

lemma reads_LoadArchive [inv_intros]: "reads (LoadChartMetadataFromArchive c s)"
  unfolding LoadChartMetadataFromArchive_def by (intro inv_intros)

lemma LoadArchive_file:
  assumes f: "nodes w (path_clean s) = Some (File b)"
    and run: "LoadChartMetadataFromArchive c s w = (Inr m, w')"
  shows "metadata_of_archive c b = Inr m"
proof -
  from run[unfolded LoadChartMetadataFromArchive_def] obtain nd w1 where st: "os_stat s w = (Inr nd, w1)"
    and "(if node_is_dir nd then io_fail (ErrorString (quoted (path_base s) @ '' is a directory''))
     else if node_size nd > MaxChartSize then
       io_fail (size_error (''chart '' @ quoted (path_base s)) MaxChartSize)
     else
       io_bind (os_open s) (\<lambda>f.
       io_defer
         (io_bind (os_read f) (\<lambda>b. io_lift (metadata_of_archive c b)))
         (io_drop (os_close f)))) w1 = (Inr m, w')"
    by (rule io_bind_InrE)
  then have "io_bind (os_open s) (\<lambda>f. io_defer
      (io_bind (os_read f) (\<lambda>b. io_lift (metadata_of_archive c b))) (io_drop (os_close f))) w1 = (Inr m, w')"
    by (simp add: io_fail_def split: if_splits)
  then obtain q w2 where op: "os_open s w1 = (Inr q, w2)"
    and df: "io_defer (io_bind (os_read q) (\<lambda>b. io_lift (metadata_of_archive c b))) (io_drop (os_close q)) w2 = (Inr m, w')"
    by (rule io_bind_InrE)
  have w1: "nodes w1 = nodes w" using readsD[OF reads_calls(1) st] .
  have q: "q = path_clean s" and w2: "nodes w2 = nodes w"
    using os_open_file[of w1 s b "Inr q" w2] f w1 op by auto
  from df obtain w3 where "io_bind (os_read q) (\<lambda>b. io_lift (metadata_of_archive c b)) w2 = (Inr m, w3)"
    by (auto simp: io_defer_def split: prod.splits)
  then obtain x w4 where rd: "os_read q w2 = (Inr x, w4)" and "metadata_of_archive c x = Inr m"
    by (auto simp: io_lift_def elim!: io_bind_InrE)
  moreover have "x = b" using os_read_file(2)[of w2 q b "Inr x" w4] f q w2 rd by simp
  ultimately show ?thesis by simp
qed

lemma check_and_rename_file:
  assumes f: "nodes w tmp = Some (File b)" "path_clean tmp = tmp" and q: "plain_target w (path_clean out)"
    and ap: "tmp \<noteq> path_clean out" "\<not> below tmp (path_clean out)" "\<not> below (path_clean out) tmp"
    and run: "check_and_rename c os tmp out w = (r, w')"
  shows "(r = Inr () \<longrightarrow> valid_archive c b \<and> nodes w' (path_clean out) = Some (File b)) \<and>
    (\<not> valid_archive c b \<longrightarrow> nodes w' = nodes w \<and> r \<noteq> Inr ())"
  using run[unfolded check_and_rename_def]
proof (cases rule: io_bind_cases)
  case (fail e)
  from fail(1) have "nodes w' = nodes w" by (rule readsD[rotated]) (intro inv_intros)
  with fail show ?thesis by simp
next
  case (ok m w1)
  from ok(1) have ld: "LoadChartMetadataFromArchive c tmp w = (Inr m, w1)" by (auto elim: io_err_cases)
  then have m: "metadata_of_archive c b = Inr m" using LoadArchive_file[of w tmp b] f by simp
  have w1: "nodes w1 = nodes w" using readsD[OF reads_LoadArchive ld] .
  show ?thesis
  proof (cases "Metadata_Validate c m")
    case (Some e)
    with ok(2) m w1 show ?thesis by (auto simp: valid_archive_def io_fail_def)
  next
    case None
    with m have v: "valid_archive c b" by (simp add: valid_archive_def)
    from ok(2) None obtain r1 where rn: "RenameWithFallback os tmp out w1 = (r1, w')"
      and r1: "r = Inr () \<longleftrightarrow> r1 = Inr ()" by (auto elim!: io_err_cases)
    have "moved_or_kept (path_clean tmp) (path_clean out) b w1 r1 w'"
      by (rule RenameWithFallback_file[OF _ _ _ _ _ rn]) (use f q ap w1 plain_target_cong[OF w1] in simp_all)
    with v r1 show ?thesis by (auto simp: moved_or_kept_def)
  qed
qed

lemma os_Remove_other: "x \<noteq> path_clean p \<Longrightarrow> nodes (snd (os_Remove p w)) x = nodes w x"
  by (auto simp: os_Remove_def syscall_def Let_def split: option.splits prod.splits if_splits)

lemma written_package:
  assumes q: "plain_target w (path_clean out)" and st: "temp_stem (path_base out)"
    and ap: "temp_apart w (path_base out) (path_clean out)"
    and run: "validatePackageAndWriteToPath c os b out w = (r, w')"
  shows "(r = Inr () \<longrightarrow> valid_archive c b \<and> nodes w' (path_clean out) = Some (File b)) \<and>
    (\<not> valid_archive c b \<longrightarrow> r \<noteq> Inr () \<and> nodes w' (path_clean out) = nodes w (path_clean out))"
  using run[unfolded validatePackageAndWriteToPath_def]
proof (cases rule: io_bind_cases)
  case (fail e)
  from fail(1) obtain e' where "os_CreateTemp '''' (path_base out) w = (Inl e', w')" by (auto elim: io_err_cases)
  then have "nodes w' = nodes w" using st by (cases rule: os_CreateTemp_cases) auto
  with fail show ?thesis by simp
next
  case (ok tmp w1)
  from ok(1) have ct: "os_CreateTemp '''' (path_base out) w = (Inr tmp, w1)" by (auto elim: io_err_cases)
  then have tmp: "path_clean tmp = tmp" "nodes w1 = (nodes w)(tmp := Some (File []))"
    using st by (cases rule: os_CreateTemp_cases; simp)+
  have t: "tmp \<noteq> path_clean out" "\<not> below tmp (path_clean out)" "\<not> below (path_clean out) tmp"
    using ap os_CreateTemp_name[OF ct] by (auto simp: temp_apart_def Let_def)
  let ?body = "io_try (os_write tmp b) (\<lambda>r. case r of
      Inl e \<Rightarrow> io_bind (io_drop (os_close tmp)) (\<lambda>_. io_fail (wrap ''failed to write chart to file'' e))
    | Inr _ \<Rightarrow> io_bind (os_close tmp) (\<lambda>_. check_and_rename c os tmp out))"
  obtain r2 w2 where b2: "?body w1 = (r2, w2)" by fastforce
  have rw: "r = r2" "w' = snd (os_Remove tmp w2)" using ok(2) b2 by (simp_all add: io_defer_def)
  have same: "nodes w' (path_clean out) = nodes w2 (path_clean out)"
    using os_Remove_other[of "path_clean out" tmp w2] t tmp rw by simp
  have keep: ?thesis if "nodes w2 (path_clean out) = nodes w (path_clean out)" "r2 \<noteq> Inr ()"
    using that same rw by simp
  from b2 show ?thesis
  proof (cases rule: io_try_cases)
    case (fail e w3)
    have "nodes w3 (path_clean out) = nodes w (path_clean out)"
      using os_write_file[of w1 tmp "[]" b "Inl e" w3] fail(1) tmp t by auto
    moreover have "r2 \<noteq> Inr () \<and> w2 = snd (os_close tmp w3)"
      using fail(2) by (auto simp: io_bind_def io_drop_def io_fail_def)
    moreover have "nodes (snd (os_close tmp w3)) = nodes w3"
      using reads_calls(5)[of tmp] by (simp add: reads_def)
    ultimately show ?thesis using keep by simp
  next
    case wr: (ok x w3)
    have w3: "nodes w3 = (nodes w)(tmp := Some (File b))"
      using os_write_file[of w1 tmp "[]" b "Inr x" w3] wr(1) tmp by auto
    from wr(2) have "io_bind (os_close tmp) (\<lambda>_. check_and_rename c os tmp out) w3 = (r2, w2)" by simp
    then show ?thesis
    proof (cases rule: io_bind_cases)
      case (fail e)
      then have "nodes w2 = nodes w3" using readsD[OF reads_calls(5)] by blast
      with keep w3 t fail show ?thesis by simp
    next
      case cl: (ok y w4)
      have w4: "nodes w4 = nodes w3" using readsD[OF reads_calls(5) cl(1)] .
      have "plain_target w4 (path_clean out)" using q w4 w3 t by (simp add: plain_target_def)
      from check_and_rename_file[OF _ tmp(1) this t cl(2), of b] w3 w4
      have "(r2 = Inr () \<longrightarrow> valid_archive c b \<and> nodes w2 (path_clean out) = Some (File b)) \<and>
          (\<not> valid_archive c b \<longrightarrow> nodes w2 = nodes w4 \<and> r2 \<noteq> Inr ())" by simp
      with same rw w3 w4 t show ?thesis by auto
    qed
  qed
qed

text \<open>
  C3. A downloaded chart reaches its path only after it was read back from a temporary file and
  its metadata found valid: success means that the path holds exactly the downloaded bytes and
  that they are a valid archive, and an invalid archive leaves the path as it was, whatever
  fails on the way.
\<close>

theorem only_valid_archives_are_written:
  assumes "plain_target w (path_clean out)" and "temp_stem (path_base out)"
    and "temp_apart w (path_base out) (path_clean out)"
    and "validatePackageAndWriteToPath c os b out w = (r, w')"
  shows "(r = Inr () \<longrightarrow> valid_archive c b \<and> nodes w' (path_clean out) = Some (File b)) \<and>
    (\<not> valid_archive c b \<longrightarrow> r \<noteq> Inr () \<and> nodes w' (path_clean out) = nodes w (path_clean out))"
  using assms by (rule written_package)

lemma slash_dec_of_nat: "slash \<notin> set (dec_of_nat n)"
proof (induction n rule: dec_of_nat.induct)
  case (1 n)
  have "char_of (48 + d) \<noteq> slash" if "d < 10" for d :: nat
  proof
    assume "char_of (48 + d) = slash"
    then have "(of_char (char_of (48 + d)) :: nat) = 47" by (simp add: slash_def)
    with that show False by simp
  qed
  note d = this[of n, symmetric] this[of "n mod 10", symmetric]
  show ?case by (subst dec_of_nat.simps) (use 1 d in auto)
qed

lemma small_temp_apart: "temp_apart small_world ''b'' ''/o/b''"
proof -
  have "path_join [''/t'', ''b'' @ dec_of_nat k] = ''/t/b'' @ dec_of_nat k" for k
  proof -
    let ?x = "''b'' @ dec_of_nat k"
    let ?p = "path_join [''/t'', ?x]"
    have pl: "plain_elem ?x"
      using slash_dec_of_nat[of k] by (auto simp: plain_elem_def slash_def)
    have "path_elems ''/t'' = [''t'']" by code_simp
    then have e: "path_elems ?p = [''t'', ?x]" and a: "is_abs ?p"
      using path_join_elem[OF pl, of "''/t''"] by (simp_all add: is_abs_def)
    have ne: "?p \<noteq> []" using a by (auto simp: is_abs_def)
    have "?p = path_clean ?p" by (rule path_join_clean[symmetric]) simp
    also have "\<dots> = ''/t/'' @ ?x" unfolding path_clean_def e using a ne by (simp add: render_path_def slash_def)
    finally show ?thesis by simp
  qed
  moreover have "temp_pattern ''b'' = (''b'', [])" by code_simp
  ultimately show ?thesis
    by (simp add: temp_apart_def small_world_def Let_def below_def slash_def)
qed

definition strict_chart_ext :: chart_ext where
  "strict_chart_ext = sample_chart_ext\<lparr>Metadata_Validate := (\<lambda>m. Some (ErrorString ''invalid''))\<rparr>"

theorem only_valid_archives_are_written_witness:
  "\<not> valid_archive strict_chart_ext ''x'' \<and>
   fst (validatePackageAndWriteToPath strict_chart_ext Unix ''x'' ''/o/b'' small_world) \<noteq> Inr () \<and>
   nodes (snd (validatePackageAndWriteToPath strict_chart_ext Unix ''x'' ''/o/b'' small_world)) ''/o/b'' = None"
proof -
  let ?run = "validatePackageAndWriteToPath strict_chart_ext Unix ''x'' ''/o/b'' small_world"
  have c: "path_clean ''/o/b'' = ''/o/b''" and b: "path_base ''/o/b'' = ''b''" by code_simp+
  have n: "nodes small_world ''/o/b'' = None" by (simp add: small_world_def)
  have "plain_target small_world (path_clean ''/o/b'')" "temp_stem (path_base ''/o/b'')" by code_simp+
  moreover have "temp_apart small_world (path_base ''/o/b'') (path_clean ''/o/b'')"
    using small_temp_apart unfolding c b .
  moreover have "?run = (fst ?run, snd ?run)" by simp
  ultimately have "(fst ?run = Inr () \<longrightarrow> valid_archive strict_chart_ext ''x'' \<and>
      nodes (snd ?run) (path_clean ''/o/b'') = Some (File ''x'')) \<and>
    (\<not> valid_archive strict_chart_ext ''x'' \<longrightarrow> fst ?run \<noteq> Inr () \<and>
       nodes (snd ?run) (path_clean ''/o/b'') = nodes small_world (path_clean ''/o/b''))"
    by (rule only_valid_archives_are_written)
  moreover have "\<not> valid_archive strict_chart_ext ''x''"
    by (simp add: valid_archive_def strict_chart_ext_def split: sum.split)
  ultimately show ?thesis unfolding c n by blast
qed

text \<open>The cached chart of the example is the file of the small world.\<close>

definition cached_options :: build_options where
  "cached_options =
     \<lparr>VersionMetadata = '''', opt_ValuesFiles = [''prod.yaml''], CachedChart = ''/t/a'', Force = False, Verify = False\<rparr>"

lemma small_world_metadata_at:
  "LoadChartMetadataFromArchive sample_chart_ext ''/t/a'' (small_world\<lparr>clock := k\<rparr>) =
     (Inr \<lparr>md_Name = ''app'', md_Version = ''7'', md_APIVersion = ''v1'', md_Dependencies = []\<rparr>,
      small_world\<lparr>clock := Suc (Suc (Suc (Suc k)))\<rparr>)"
proof -
  have m: "metadata_of_archive sample_chart_ext ''x'' =
      Inr \<lparr>md_Name = ''app'', md_Version = ''7'', md_APIVersion = ''v1'', md_Dependencies = []\<rparr>"
  proof -
    have "entry_path ''app/Chart.yaml'' = Inr ''Chart.yaml''" by code_simp
    moreover have "entry_parts ''app/Chart.yaml'' = [''app'', ''Chart.yaml'']" by code_simp
    ultimately show ?thesis
      by (simp add: metadata_of_archive_def sample_chart_ext_def read_entry_def default_api_version_def
          ChartfileName_def MaxChartFileSize_def empty_metadata_def)
  qed
  have st: "stat_node (small_world\<lparr>clock := k\<rparr>) ''/t/a'' = Inr (File ''x'')"
    and rs: "resolve (small_world\<lparr>clock := k\<rparr>) ''/t/a'' = Inr ''/t/a''"
    and nd: "nodes (small_world\<lparr>clock := k\<rparr>) ''/t/a'' = Some (File ''x'')" for k
  proof -
    show nd: "nodes (small_world\<lparr>clock := k\<rparr>) ''/t/a'' = Some (File ''x'')" by (simp add: small_world_def)
    have c: "path_clean ''/t/a'' = ''/t/a''" by code_simp
    show rs: "resolve (small_world\<lparr>clock := k\<rparr>) ''/t/a'' = Inr ''/t/a''"
      using resolve_plain[of "small_world\<lparr>clock := k\<rparr>" "''/t/a''"] nd unfolding c by (simp add: plain_target_def)
    show "stat_node (small_world\<lparr>clock := k\<rparr>) ''/t/a'' = Inr (File ''x'')"
      using rs nd by (simp add: stat_node_def)
  qed
  have nf: "fault small_world k = None" for k by (simp add: small_world_def)
  show ?thesis
    by (simp add: LoadChartMetadataFromArchive_def os_stat_def os_open_def os_read_def os_close_def
        syscall_def nf st rs nd[simplified] m io_bind_def io_defer_def io_drop_def io_lift_def Let_def MaxChartSize_def)
qed

lemma small_world_metadata:
  "LoadChartMetadataFromArchive sample_chart_ext ''/t/a'' small_world =
     (Inr \<lparr>md_Name = ''app'', md_Version = ''7'', md_APIVersion = ''v1'', md_Dependencies = []\<rparr>,
      small_world\<lparr>clock := Suc (Suc (Suc (Suc 0)))\<rparr>)"
proof -
  have "small_world\<lparr>clock := 0\<rparr> = small_world" by (simp add: small_world_def)
  then show ?thesis using small_world_metadata_at[of 0] by simp
qed

theorem cached_chart_ignores_values_files_witness:
  "\<exists>w2. remote_Build (down_GetChartVersion sample_services) (down_DownloadChart sample_services)
      (down_VerifyChart sample_services) sample_chart_ext num_semver Unix (OCIRepository sample_registry)
      (RemoteRef \<lparr>ref_Name = ''app'', ref_Version = ''7''\<rparr>) ''/o/b'' cached_options small_world =
    (Inr ((Some \<lparr>bld_Name = ''app'', bld_Version = ''7'', bld_Path = ''/t/a'',
                 bld_ValuesFiles = [''prod.yaml''], ResolvedDependencies = 0,
                 Packaged = True\<rparr>, None), OCIRepository sample_registry), w2)"
proof -
  let ?d = "OCIRepository sample_registry" and ?r = "\<lparr>ref_Name = ''app'', ref_Version = ''7''\<rparr> :: remote_reference"
  let ?cv = "oci_chart_version sample_registry ''app'' ''7''"
  let ?m = "\<lparr>md_Name = ''app'', md_Version = ''7'', md_APIVersion = ''v1'', md_Dependencies = []\<rparr> :: metadata"
  have p: "ParseVersion num_semver ''7'' = Inr 7" by code_simp
  have get: "down_GetChartVersion sample_services ?d (ref_Name ?r) (ref_Version ?r) small_world =
      (Inr (Inr ?cv, ?d), small_world)"
    using p by (simp add: down_GetChartVersion_def oci_GetChartVersion_def oci_getChartVersion_def
        sample_services_def io_try_def io_err_def io_return_def)
  have valid: "RemoteReference_Validate ?r = None" by code_simp
  have o: "\<not> Verify cached_options" "CachedChart cached_options \<noteq> ''''" "\<not> Force cached_options"
    by (simp_all add: cached_options_def)
  have bv: "build_version num_semver (md_Version (cv_Metadata ?cv)) cached_options = Inr ''7''"
    by (simp add: build_version_def cached_options_def oci_chart_version_def)
  have ld: "LoadChartMetadataFromArchive sample_chart_ext (CachedChart cached_options) small_world =
      (Inr ?m, small_world\<lparr>clock := Suc (Suc (Suc (Suc 0)))\<rparr>)"
    using small_world_metadata by (simp add: cached_options_def)
  have mv: "Metadata_Validate sample_chart_ext ?m = None" by (simp add: sample_chart_ext_def)
  have nm: "md_Name ?m = md_Name (cv_Metadata ?cv)" "md_Version ?m = ''7''"
    by (simp_all add: oci_chart_version_def)
  have "GetValuesFiles cached_options = [''prod.yaml'']" by code_simp
  then show ?thesis
    using cached_chart_ignores_values_files[OF get valid o(1) bv o(2,3) ld mv nm]
    by (simp add: requires_packaging_def cached_options_def)
qed

end
