(* ===== verification/HelmRepo.thy ===== *)
theory HelmRepo
  imports HelmValues ChartCache RemoteBuilder
begin

text \<open>
  From a HelmRepository to a built chart (\<open>buildFromHelmRepository\<close> and what it calls in
  \<open>internal/build/helm.go\<close>): the secret, the login, the repository, the two caches and the chart
  builder. The cloud providers' credentials and \<open>name.ParseReference\<close> are parameters.

  The builder's state is its chart cache and its repository cache; both may make a caller wait
  for another build. A call that has to wait is the outcome \<open>Blocks\<close>: alone it never returns.
\<close>

section \<open>The builder\<close>

record provider =
  Schemes :: "string list"
  provider_New :: nat

definition NewHTTPGetter :: nat where "NewHTTPGetter = 0"
definition NewOCIGetter :: nat where "NewOCIGetter = 1"

record kube_version =
  kv_Version :: string
  kv_Major :: string
  kv_Minor :: string

record helm_opts =
  APIVersions :: "string list"
  FailFast :: bool
  opt_Cache :: chart_cache
  KubeVersion :: kube_version
  Getters :: "provider list option"
  Decoder :: "(string \<Rightarrow> go_error + kube_object) option"
  IncludeHelmHooks :: bool

record helm =
  h_cache :: chart_cache
  h_opts :: helm_opts
  h_repoCache :: "(string, downloader option) cache"

definition NewHelmBuilder :: "(string \<Rightarrow> go_error + kube_object) \<Rightarrow> helm_opts \<Rightarrow> helm" where
  "NewHelmBuilder universal opts =
     (let getters = (case Getters opts of
            None \<Rightarrow> [\<lparr>Schemes = [''http'', ''https''], provider_New = NewHTTPGetter\<rparr>,
                     \<lparr>Schemes = [''oci''], provider_New = NewOCIGetter\<rparr>]
          | Some ps \<Rightarrow> ps);
          decoder = (case Decoder opts of None \<Rightarrow> universal | Some d \<Rightarrow> d);
          opts' = opts\<lparr>Getters := Some getters, Decoder := Some decoder\<rparr> in
      \<lparr>h_cache = opt_Cache opts', h_opts = opts', h_repoCache = New\<rparr>)"

record helm_chart =
  hc_Chart :: string
  hc_Version :: string
  hc_SourceRef :: source_ref
  hc_ValuesFiles :: "string list"
  hc_Verify :: "string option"
  Generation :: int

record ('r, 'v, 'c) helm_ext =
  hx_kube :: "'r kube_ext"
  hx_values :: values_ext
  hx_auth :: auth_ext
  hx_services :: "('v, 'c) services"
  hx_chart :: chart_ext
  hx_platform :: platform
  providers_ByScheme :: "provider list \<Rightarrow> string \<Rightarrow> go_error + nat"
  GetChartValuesFiles :: "helm_chart \<Rightarrow> string list"
  name_ParseReference :: "string \<Rightarrow> go_error option"
  GetArtifactRegistryCredentials :: "nat \<Rightarrow> string \<Rightarrow> string \<Rightarrow> go_error + authenticator"
  IsOCI :: "string \<Rightarrow> bool"

text \<open>The decoder and the getters of the builder in place of the defaults.\<close>

definition h_decode :: "helm \<Rightarrow> string \<Rightarrow> go_error + kube_object" where
  "h_decode h = the (Decoder (h_opts h))"

definition h_kube :: "('r, 'v, 'c) helm_ext \<Rightarrow> helm \<Rightarrow> 'r kube_ext" where
  "h_kube x h = (hx_kube x)\<lparr>Decode := h_decode h\<rparr>"

definition h_services :: "('r, 'v, 'c) helm_ext \<Rightarrow> helm \<Rightarrow> ('v, 'c) services" where
  "h_services x h =
     (hx_services x)\<lparr>sv_http := (sv_http (hx_services x))
        \<lparr>ByScheme := providers_ByScheme x (the (Getters (h_opts h)))\<rparr>\<rparr>"

section \<open>Credentials\<close>

definition HelmRepositoryTypeOCI :: string where "HelmRepositoryTypeOCI = ''oci''"
definition GenericOCIProvider :: string where "GenericOCIProvider = ''generic''"

definition errRegistryAuthOptional :: go_error where
  "errRegistryAuthOptional = Sentinel ''cloud registry auto-login not available''"

definition no_secret :: "obj_ref \<Rightarrow> helm_repository \<Rightarrow> go_error" where
  "no_secret r repo =
     ErrorString (''no repository secret '' @ bq (ref_String r) @ '' found for helmrepository '' @
        namespaced_name (hrp_Namespace repo) (hrp_Name repo))"

text \<open>A resource that does not decode into a secret fails a type assertion, which panics.\<close>

definition getHelmRepositorySecret ::
    "'r kube_ext \<Rightarrow> helm_repository \<Rightarrow> 'r resource_index \<Rightarrow> go_error + secret option" where
  "getHelmRepositorySecret k repo db =
     (case hrp_SecretRef repo of
        None \<Rightarrow> Inr None
      | Some name \<Rightarrow>
          let lookupRef = obj_reference '''' ''Secret'' name (hrp_Namespace repo) in
          (case db lookupRef of
             Some res \<Rightarrow>
               bindE (AsYAML k res) (\<lambda>raw.
               bindE (Decode k raw) (\<lambda>obj.
               case obj of
                 SecretObj s \<Rightarrow> Inr (Some s)
               | _ \<Rightarrow> Inl (Panic ''interface conversion'')))
           | None \<Rightarrow> Inl (no_secret lookupRef repo)))"

definition clientOptionsFromSecret ::
    "auth_ext \<Rightarrow> secret \<Rightarrow> string \<Rightarrow> go_error + (getter_option list \<times> tls_config option)" where
  "clientOptionsFromSecret a s normalizedURL =
     bindE (mapErr (wrap ''failed to configure Helm client with secret data'') (ClientOptionsFromSecret s)) (\<lambda>opts.
     bindE (mapErr (wrap ''failed to create TLS client config with secret data'')
              (TLSClientConfigFromSecret a s normalizedURL)) (\<lambda>tlsConfig.
     Inr (opts, tlsConfig)))"

definition isSkippableCloudRegistryAuthErr :: "go_error option \<Rightarrow> bool" where
  "isSkippableCloudRegistryAuthErr err =
     (case err of
        None \<Rightarrow> False
      | Some e \<Rightarrow>
          let msg = error_string e in
          contains msg ''AWS_REGION environment variable is not set'' \<or>
          contains msg ''could not find default credentials'' \<or>
          contains msg ''DefaultAzureCredential authentication failed'')"

definition provider_name :: "string \<Rightarrow> (go_error option) + string" where
  "provider_name provider =
     (if provider = ''aws'' then Inr ''aws''
      else if provider = ''azure'' then Inr ''azure''
      else if provider = ''gcp'' then Inr ''gcp''
      else if provider = '''' then Inl None
      else Inl (Some (ErrorString (''unsupported OCI provider '' @ double_quote @ provider @ double_quote))))"

definition cloud_credentials ::
    "('r, 'v, 'c) helm_ext \<Rightarrow> string \<Rightarrow> string \<Rightarrow> authenticator option io" where
  "cloud_credentials x providerName u w =
     (case GetArtifactRegistryCredentials x (clock w) providerName u of
        Inl e \<Rightarrow>
          (Inl (if isSkippableCloudRegistryAuthErr (Some e) then JoinError [errRegistryAuthOptional, e] else e),
           w\<lparr>clock := Suc (clock w)\<rparr>)
      | Inr a \<Rightarrow> (Inr (Some a), w\<lparr>clock := Suc (clock w)\<rparr>))"

definition oidcAuth :: "('r, 'v, 'c) helm_ext \<Rightarrow> string \<Rightarrow> string \<Rightarrow> authenticator option io" where
  "oidcAuth x url provider =
     (let u = trim_prefix url oci_prefix in
      case name_ParseReference x u of
        Some e \<Rightarrow> io_fail (wrap (''failed to parse URL '' @ sq u) e)
      | None \<Rightarrow>
          (case provider_name provider of
             Inl None \<Rightarrow> io_return None
           | Inl (Some e) \<Rightarrow> io_fail e
           | Inr providerName \<Rightarrow> cloud_credentials x providerName u))"

record credentials =
  cl_opts :: "getter_option list"
  cl_tls :: "tls_config option"
  cl_authenticator :: "authenticator option"
  cl_keychain :: "keychain option"

definition base_options :: "helm_repository \<Rightarrow> string \<Rightarrow> getter_option list" where
  "base_options repo url =
     [WithURL url, WithTimeout 60, WithPassCredentialsAll (hrp_PassCredentials repo)]"

definition secret_credentials ::
    "auth_ext \<Rightarrow> secret \<Rightarrow> getter_option list \<Rightarrow> string \<Rightarrow> go_error + credentials" where
  "secret_credentials a s opts url =
     bindE (clientOptionsFromSecret a s url) (\<lambda>(sopts, tls).
     bindE (mapErr (wrap ''failed to configure Helm client with secret data'') (LoginOptionFromSecret a url s)) (\<lambda>kc.
     Inr \<lparr>cl_opts = opts @ sopts, cl_tls = tls, cl_authenticator = None, cl_keychain = Some kc\<rparr>))"

definition repository_credentials ::
    "('r, 'v, 'c) helm_ext \<Rightarrow> helm \<Rightarrow> helm_repository \<Rightarrow> 'r resource_index \<Rightarrow> string \<Rightarrow> bool \<Rightarrow> credentials io" where
  "repository_credentials x h repo db url uncachedChart =
     (let opts = base_options repo url;
          none = \<lparr>cl_opts = opts, cl_tls = None, cl_authenticator = None, cl_keychain = None\<rparr> in
      case getHelmRepositorySecret (h_kube x h) repo db of
        Inl e \<Rightarrow> io_fail e
      | Inr (Some s) \<Rightarrow> io_lift (secret_credentials (hx_auth x) s opts url)
      | Inr None \<Rightarrow>
          if hrp_Provider repo \<noteq> GenericOCIProvider \<and> hrp_Type repo = HelmRepositoryTypeOCI \<and> uncachedChart then
            io_try (oidcAuth x (hrp_URL repo) (hrp_Provider repo)) (\<lambda>r. case r of
              Inl authErr \<Rightarrow>
                if \<not> errors_is authErr errRegistryAuthOptional
                then io_fail (wrap (''failed to get credential from '' @ hrp_Provider repo) authErr)
                else io_return none
            | Inr auth \<Rightarrow> io_return (none\<lparr>cl_authenticator := auth\<rparr>))
          else io_return none)"

section \<open>The repository\<close>

definition open_oci ::
    "('r, 'v, 'c) helm_ext \<Rightarrow> helm \<Rightarrow> string \<Rightarrow> credentials \<Rightarrow> login_option option \<Rightarrow> downloader io" where
  "open_oci x h url cl loginOpt =
     (if \<not> IsOCI x url then io_fail (ErrorString (''invalid OCI registry URL: '' @ url))
      else
        io_bind (io_err (wrap ''failed to construct Helm client'') (ClientGenerator (hx_auth x) (loginOpt \<noteq> None)))
          (\<lambda>(registryClient, file).
        io_bind (io_lift (NewOCIChartRepository url
                   [WithOCIGetter (ByScheme (sv_http (h_services x h))),
                    WithOCIGetterOptions (cl_opts cl @ [WithRegistryClient registryClient]),
                    WithOCIRegistryClient registryClient, WithVerifiers []])) (\<lambda>repo.
        case loginOpt of
          None \<Rightarrow> io_return (OCIRepository repo)
        | Some l \<Rightarrow>
            io_bind (io_err (wrap ''failed to login to OCI registry'')
                       (Login (sv_oci (h_services x h)) repo [l])) (\<lambda>_.
            io_return (OCIRepository repo)))))"

definition open_http ::
    "('r, 'v, 'c) helm_ext \<Rightarrow> helm \<Rightarrow> string \<Rightarrow> credentials \<Rightarrow> downloader io" where
  "open_http x h url cl w =
     (case NewChartRepository (sv_http (h_services x h)) url (tempdir w) (cl_tls cl) (cl_opts cl) of
        Inl e \<Rightarrow> (Inl e, w)
      | Inr r \<Rightarrow> (Inr (HTTPRepository r), w))"

definition open_repository ::
    "('r, 'v, 'c) helm_ext \<Rightarrow> helm \<Rightarrow> helm_repository \<Rightarrow> 'r resource_index \<Rightarrow> string \<Rightarrow> bool \<Rightarrow> downloader io" where
  "open_repository x h repo db url uncachedChart =
     io_bind (repository_credentials x h repo db url uncachedChart) (\<lambda>cl.
     io_bind (if uncachedChart
              then io_lift (makeLoginOption (hx_auth x) (cl_authenticator cl) (cl_keychain cl) url)
              else io_return None) (\<lambda>loginOpt.
     if hrp_Type repo = HelmRepositoryTypeOCI then open_oci x h url cl loginOpt
     else open_http x h url cl))"

section \<open>The build\<close>

definition chart_options :: "('r, 'v, 'c) helm_ext \<Rightarrow> helm_chart \<Rightarrow> string \<Rightarrow> bool \<Rightarrow> build_options" where
  "chart_options x obj path uncachedChart =
     (let opts = \<lparr>VersionMetadata = '''', opt_ValuesFiles = GetChartValuesFiles x obj,
                  CachedChart = (if uncachedChart then '''' else path), Force = False,
                  Verify = (case hc_Verify obj of None \<Rightarrow> False | Some p \<Rightarrow> p \<noteq> '''')\<rparr> in
      if GetValuesFiles opts \<noteq> [] then opts\<lparr>VersionMetadata := dec_of_int (Generation obj)\<rparr> else opts)"

definition chart_reference :: "helm_chart \<Rightarrow> remote_reference" where
  "chart_reference obj = \<lparr>ref_Name = hc_Chart obj, ref_Version = hc_Version obj\<rparr>"

definition the_build :: "build option \<times> go_error option \<Rightarrow> go_error + build" where
  "the_build r =
     (case r of
        (_, Some e) \<Rightarrow> Inl e
      | (None, None) \<Rightarrow> Inl (Panic ''invalid memory address or nil pointer dereference'')
      | (Some b, None) \<Rightarrow> Inr b)"

text \<open>The outcome of the build, and the repository as the build leaves it, once there is one.\<close>

definition build_chart ::
    "('r, 'v, 'c) helm_ext \<Rightarrow> helm \<Rightarrow> helm_chart \<Rightarrow> string \<Rightarrow> bool \<Rightarrow> downloader \<Rightarrow>
     ((go_error + build) \<times> downloader) io" where
  "build_chart x h obj path uncachedChart d =
     (let s = h_services x h in
      io_bind (remote_Build (down_GetChartVersion s) (down_DownloadChart s) (down_VerifyChart s) (hx_chart x)
                 (sv_semver s) (hx_platform x) d (RemoteRef (chart_reference obj)) path
                 (chart_options x obj path uncachedChart)) (\<lambda>(r, d').
      io_return (the_build r, d')))"

definition run_build ::
    "('r, 'v, 'c) helm_ext \<Rightarrow> helm \<Rightarrow> helm_chart \<Rightarrow> helm_repository \<Rightarrow> 'r resource_index \<Rightarrow> string \<Rightarrow> string \<Rightarrow>
     bool \<Rightarrow> downloader option \<Rightarrow> ((go_error + build) \<times> downloader option) io" where
  "run_build x h obj repo db url path uncachedChart chartRepo =
     io_try (case chartRepo of
               None \<Rightarrow> open_repository x h repo db url uncachedChart
             | Some d \<Rightarrow> io_return d) (\<lambda>r. case r of
       Inl e \<Rightarrow> io_return (Inl e, None)
     | Inr d \<Rightarrow>
         io_bind (build_chart x h obj path uncachedChart d) (\<lambda>(res, d'). io_return (res, Some d')))"

datatype 'a outcome = Returns "go_error + 'a" | Blocks

text \<open>
  Between the two locks. \<open>SetUnlock\<close> of the repository cache is a deferred call, whose argument is
  the repository found at the time of the \<open>defer\<close>; a pointer to it that was in the cache is one to
  the changed repository.
\<close>

definition kept :: "downloader option \<Rightarrow> downloader option \<Rightarrow> downloader option" where
  "kept chartRepo d = (case chartRepo of None \<Rightarrow> None | Some _ \<Rightarrow> d)"

definition panic_outcome :: "'a outcome" where
  "panic_outcome = Returns (Inl (Panic ''close of closed channel''))"

definition with_repository ::
    "('r, 'v, 'c) helm_ext \<Rightarrow> helm \<Rightarrow> helm_chart \<Rightarrow> helm_repository \<Rightarrow> 'r resource_index \<Rightarrow> string \<Rightarrow> string \<Rightarrow>
     bool \<Rightarrow> downloader option \<Rightarrow> (string, downloader option) cache \<Rightarrow> world \<Rightarrow> build outcome \<times> helm \<times> world" where
  "with_repository x h obj repo db url path uncachedChart chartRepo m w =
     (case run_build x (h\<lparr>h_repoCache := m\<rparr>) obj repo db url path uncachedChart chartRepo w of
        (Inl e, w') \<Rightarrow> (Returns (Inl e), h\<lparr>h_repoCache := m\<rparr>, w')
      | (Inr (res, d), w') \<Rightarrow>
          (case SetUnlock url (kept chartRepo d) m of
             None \<Rightarrow> (panic_outcome, h\<lparr>h_repoCache := m\<rparr>, w')
           | Some m' \<Rightarrow> (Returns res, h\<lparr>h_repoCache := m'\<rparr>, w')))"

definition with_chart_lock ::
    "('r, 'v, 'c) helm_ext \<Rightarrow> helm \<Rightarrow> helm_chart \<Rightarrow> helm_repository \<Rightarrow> 'r resource_index \<Rightarrow> string \<Rightarrow> string \<Rightarrow>
     world \<Rightarrow> build outcome \<times> helm \<times> world" where
  "with_chart_lock x h obj repo db url path w =
     (case os_stat path w of (st, w1) \<Rightarrow>
        let uncachedChart = (case st of Inl e \<Rightarrow> os_is_not_exist e | Inr _ \<Rightarrow> False) in
        case GetOrLock url (h_repoCache h) of
          (Blocked l, m) \<Rightarrow> (Blocks, h\<lparr>h_repoCache := m\<rparr>, w1)
        | (Found r, m) \<Rightarrow> with_repository x h obj repo db url path uncachedChart r m w1
        | (Locked, m) \<Rightarrow> with_repository x h obj repo db url path uncachedChart None m w1)"

text \<open>The chart cache draws the random part of a name, and may fail, at a tick of the clock.\<close>

definition buildFromHelmRepository ::
    "('r, 'v, 'c) helm_ext \<Rightarrow> helm \<Rightarrow> helm_chart \<Rightarrow> helm_repository \<Rightarrow> 'r resource_index \<Rightarrow> world \<Rightarrow>
     build outcome \<times> helm \<times> world" where
  "buildFromHelmRepository x h obj repo db w =
     (case NormalizeURL (hrp_URL repo) of
        Inl e \<Rightarrow> (Returns (Inl (wrap ''failed to normalize url'' e)), h, w)
      | Inr url \<Rightarrow>
          let w1 = w\<lparr>clock := Suc (clock w)\<rparr> in
          case Cache_GetOrLock (fault w (clock w)) (rand w (clock w)) url (WithEscapedName (chart_reference obj))
                 (h_cache h) of
            Inl e \<Rightarrow> (Returns (Inl e), h, w1)
          | Inr (Wait, c) \<Rightarrow> (Blocks, h\<lparr>h_cache := c\<rparr>, w1)
          | Inr (Ready path key, c) \<Rightarrow>
              (case with_chart_lock x (h\<lparr>h_cache := c\<rparr>) obj repo db url path w1 of
                 (Blocks, h', w2) \<Rightarrow> (Blocks, h', w2)
               | (Returns res, h', w2) \<Rightarrow>
                   (case Cache_SetUnlock (rand w2 (clock w2)) key (h_cache h') of
                      None \<Rightarrow> (panic_outcome, h', w2)
                    | Some (err, c') \<Rightarrow> (Returns res, h'\<lparr>h_cache := c'\<rparr>, w2\<lparr>clock := Suc (clock w2)\<rparr>))))"

definition type_name :: "kube_object \<Rightarrow> string" where
  "type_name obj =
     (case obj of
        HelmReleaseObj r \<Rightarrow> ''*v2.HelmRelease''
      | HelmRepositoryObj r \<Rightarrow> ''*v1beta2.HelmRepository''
      | ConfigMapObj c \<Rightarrow> ''*v1.ConfigMap''
      | SecretObj s \<Rightarrow> ''*v1.Secret''
      | OtherObj t \<Rightarrow> t)"

definition buildChart ::
    "('r, 'v, 'c) helm_ext \<Rightarrow> helm \<Rightarrow> kube_object \<Rightarrow> chart_template \<Rightarrow> 'r resource_index \<Rightarrow> world \<Rightarrow>
     build outcome \<times> helm \<times> world" where
  "buildChart x h repository ct db w =
     (let obj = \<lparr>hc_Chart = ct_Chart ct, hc_Version = ct_Version ct,
                 hc_SourceRef = (ct_SourceRef ct)\<lparr>sr_Namespace := ''''\<rparr>, hc_ValuesFiles = ct_ValuesFiles ct,
                 hc_Verify = None, Generation = 0\<rparr> in
      case repository of
        HelmRepositoryObj repo \<Rightarrow> buildFromHelmRepository x h obj repo db w
      | _ \<Rightarrow> (Returns (Inl (ErrorString (''unsupported chart repository '' @ bq (type_name repository)))), h, w))"

section \<open>One build after the other\<close>

text \<open>Nothing is locked, and the repository cache has no repository in it.\<close>

definition repo_cache_ok :: "(string, downloader option) cache \<Rightarrow> bool" where
  "repo_cache_ok m \<longleftrightarrow>
     cache_wf m \<and> cache_locks m = {} \<and> (\<forall>k v. cache_values m k = Some v \<longrightarrow> v = None)"

definition helm_ok :: "helm \<Rightarrow> bool" where
  "helm_ok h \<longleftrightarrow> cc_wf (h_cache h) \<and> cc_held (h_cache h) = {} \<and> repo_cache_ok (h_repoCache h)"

lemma build_chart_total:
  "\<exists>res d' w'. build_chart x h obj path uncached d w = (Inr (res, d'), w') \<and>
     (case res of Inl e \<Rightarrow> known_failure e | Inr b \<Rightarrow> bld_Path b = path)"
proof -
  let ?s = "h_services x h" and ?o = "chart_options x obj path uncached"
  obtain r d' w' where r: "remote_Build (down_GetChartVersion ?s) (down_DownloadChart ?s) (down_VerifyChart ?s)
      (hx_chart x) (sv_semver ?s) (hx_platform x) d (RemoteRef (chart_reference obj)) path ?o w = (Inr (r, d'), w')"
    and g: "good_result path ?o r"
    using dl.Build_result by blast
  have "case the_build r of Inl e \<Rightarrow> known_failure e | Inr b \<Rightarrow> bld_Path b = path"
    using g by (auto simp: good_result_def the_build_def chart_options_def Let_def split: option.splits if_splits)
  with r show ?thesis by (simp add: build_chart_def Let_def io_bind_def io_return_def)
qed

lemma run_build_total:
  "\<exists>res d' w'. run_build x h obj repo db url path uncached r w = (Inr (res, d'), w') \<and>
     (case res of Inl e \<Rightarrow> True | Inr b \<Rightarrow> bld_Path b = path)"
proof -
  obtain r1 w1 where o: "(case r of None \<Rightarrow> open_repository x h repo db url uncached
      | Some d \<Rightarrow> io_return d) w = (r1, w1)" by fastforce
  show ?thesis
  proof (cases r1)
    case (Inl e)
    with o show ?thesis by (simp add: run_build_def io_try_def io_return_def)
  next
    case (Inr d)
    obtain res d' w' where "build_chart x h obj path uncached d w1 = (Inr (res, d'), w')"
      and "case res of Inl e \<Rightarrow> known_failure e | Inr b \<Rightarrow> bld_Path b = path"
      using build_chart_total by blast
    with o Inr show ?thesis
      by (cases res) (auto simp: run_build_def io_try_def io_return_def io_bind_def)
  qed
qed

lemma repo_cache_put:
  assumes "cache_wf m" and "cache_locks m \<subseteq> {url}" and "\<And>k v. cache_values m k = Some v \<Longrightarrow> v = None"
  shows "\<exists>m2. SetUnlock url None m = Some m2 \<and> repo_cache_ok m2"
proof -
  obtain m2 where "SetUnlock url None m = Some m2" "cache_wf m2" "cache_locks m2 = {}"
    "cache_values m2 = (cache_values m)(url \<mapsto> None)"
    using mc.put_unlocks[OF assms(1,2)] by blast
  with assms(3) show ?thesis by (auto simp: repo_cache_ok_def split: if_splits)
qed

lemma repo_cache_step:
  assumes "repo_cache_ok m" and "GetOrLock url m = (g, m1)"
  shows "case g of
      Found r \<Rightarrow> r = None \<and> (\<exists>m2. SetUnlock url None m1 = Some m2 \<and> repo_cache_ok m2)
    | Locked \<Rightarrow> (\<exists>m2. SetUnlock url None m1 = Some m2 \<and> repo_cache_ok m2)
    | Blocked l \<Rightarrow> False"
proof -
  have wf: "cache_wf m" "cache_locks m = {}" and v: "\<And>k r. cache_values m k = Some r \<Longrightarrow> r = None"
    using assms(1) by (auto simp: repo_cache_ok_def)
  show ?thesis
  proof (cases rule: mc.get_unlocked[OF wf, of url, case_names found locked])
    case (found r)
    have "\<exists>m2. SetUnlock url None m = Some m2 \<and> repo_cache_ok m2"
      by (rule repo_cache_put[OF wf(1)]) (use wf(2) v in auto)
    with assms(2) found v[OF found(1)] show ?thesis by auto
  next
    case (locked c')
    have "\<exists>m2. SetUnlock url None c' = Some m2 \<and> repo_cache_ok m2"
      by (rule repo_cache_put[OF locked(3)]) (use locked(4,5) v in auto)
    with assms(2) locked(2) show ?thesis by auto
  qed
qed

lemma with_repository_ok:
  assumes "SetUnlock url None m = Some m2"
  shows "\<exists>res w'. with_repository x h obj repo db url path uncached None m w =
      (Returns res, h\<lparr>h_repoCache := m2\<rparr>, w') \<and> (case res of Inl e \<Rightarrow> True | Inr b \<Rightarrow> bld_Path b = path)"
  using run_build_total[of x "h\<lparr>h_repoCache := m\<rparr>" obj repo db url path uncached None w] assms
  by (auto simp: with_repository_def kept_def)

lemma with_chart_lock_ok:
  assumes "repo_cache_ok (h_repoCache h)"
  shows "\<exists>res m2 w'. with_chart_lock x h obj repo db url path w =
      (Returns res, h\<lparr>h_repoCache := m2\<rparr>, w') \<and> repo_cache_ok m2 \<and>
      (case res of Inl e \<Rightarrow> True | Inr b \<Rightarrow> bld_Path b = path)"
proof -
  obtain st w1 where st: "os_stat path w = (st, w1)" by fastforce
  obtain g m where g: "GetOrLock url (h_repoCache h) = (g, m)" by fastforce
  define u where "u = (case st of Inl e \<Rightarrow> os_is_not_exist e | Inr _ \<Rightarrow> False)"
  have *: ?thesis if "with_chart_lock x h obj repo db url path w = with_repository x h obj repo db url path u None m w1"
    and "\<exists>m2. SetUnlock url None m = Some m2 \<and> repo_cache_ok m2"
    using that(2) with_repository_ok[of url m _ x h obj repo db path u w1] unfolding that(1) by blast
  from repo_cache_step[OF assms g] show ?thesis
    by (cases g; intro *) (auto simp: with_chart_lock_def st g u_def Let_def)
qed

lemma buildFromHelmRepository_ok:
  assumes "helm_ok h"
  shows "\<exists>res h' w'. buildFromHelmRepository x h obj repo db w = (Returns res, h', w') \<and> helm_ok h' \<and>
     cc_dir (h_cache h') = cc_dir (h_cache h) \<and>
     (plain_version (chart_reference obj) \<longrightarrow>
       (case res of Inl e \<Rightarrow> True | Inr b \<Rightarrow> directly_in (cc_dir (h_cache h)) (bld_Path b)))"
proof (cases "NormalizeURL (hrp_URL repo)")
  case (Inl e)
  with assms show ?thesis by (simp add: buildFromHelmRepository_def)
next
  case url: (Inr url)
  let ?r = "WithEscapedName (chart_reference obj)"
  let ?get = "Cache_GetOrLock (fault w (clock w)) (rand w (clock w)) url ?r (h_cache h)"
  have h: "cc_wf (h_cache h)" "cc_held (h_cache h) = {}" "repo_cache_ok (h_repoCache h)"
    using assms by (simp_all add: helm_ok_def)
  show ?thesis
  proof (cases ?get)
    case (Inl e)
    with url assms show ?thesis by (simp add: buildFromHelmRepository_def Let_def)
  next
    case (Inr y)
    obtain lk c where y: "y = (lk, c)" by fastforce
    obtain p k where lk: "lk = Ready p k"
      using cc.session[OF h(1,2) Inr[unfolded y], of undefined] by metis
    obtain res m2 w2 where run: "with_chart_lock x (h\<lparr>h_cache := c\<rparr>) obj repo db url p
          (w\<lparr>clock := Suc (clock w)\<rparr>) = (Returns res, h\<lparr>h_cache := c, h_repoCache := m2\<rparr>, w2)"
      and m2: "repo_cache_ok m2" and path: "case res of Inl e \<Rightarrow> True | Inr b \<Rightarrow> bld_Path b = p"
      using with_chart_lock_ok[of "h\<lparr>h_cache := c\<rparr>" x obj repo db url p "w\<lparr>clock := Suc (clock w)\<rparr>"] h(3)
      by auto
    from cc.session[OF h(1,2) Inr[unfolded y], of "rand w2 (clock w2)"]
    obtain e c2 where u: "Cache_SetUnlock (rand w2 (clock w2)) k c = Some (e, c2)" and c2: "cc_wf c2"
      "cc_held c2 = {}" "cc_dir c2 = cc_dir (h_cache h)" "plain_ref ?r \<longrightarrow> directly_in (cc_dir (h_cache h)) p"
      using lk by (metis lookup.inject)
    show ?thesis
      using url Inr y lk run u m2 c2 path
      by (auto simp: buildFromHelmRepository_def Let_def helm_ok_def plain_ref_escaped plain_version_def
          split: sum.splits)
  qed
qed

text \<open>A run of the builder over a list of charts, as one worker does it.\<close>

fun helm_builds ::
    "('r, 'v, 'c) helm_ext \<Rightarrow> (helm_chart \<times> helm_repository \<times> 'r resource_index) list \<Rightarrow> helm \<Rightarrow> world \<Rightarrow>
     build outcome list \<times> helm \<times> world" where
  "helm_builds x [] h w = ([], h, w)"
| "helm_builds x ((obj, repo, db) # qs) h w =
     (case buildFromHelmRepository x h obj repo db w of (r, h', w') \<Rightarrow>
      case helm_builds x qs h' w' of (rs, h2, w2) \<Rightarrow> (r # rs, h2, w2))"

text \<open>
  A request is served when its build returned, without waiting for a lock, and a chart that was
  built lies directly in the directory of the cache if its version was asked for without a slash.
\<close>

definition served :: "string \<Rightarrow> helm_chart \<times> helm_repository \<times> 'r resource_index \<Rightarrow> build outcome \<Rightarrow> bool" where
  "served dir q r \<longleftrightarrow>
     (\<exists>res. r = Returns res \<and>
       (\<forall>b. res = Inr b \<longrightarrow> slash \<notin> set (hc_Version (fst q)) \<longrightarrow> directly_in dir (bld_Path b)))"

lemma helm_builds_ok:
  assumes "helm_ok h"
  shows "case helm_builds x qs h w of (rs, h', w') \<Rightarrow>
    list_all2 (served (cc_dir (h_cache h))) qs rs \<and> helm_ok h'"
  using assms
proof (induction qs arbitrary: h w)
  case (Cons q qs)
  obtain obj repo db where q: "q = (obj, repo, db)" by (cases q) auto
  obtain res h1 w1 where
    1: "buildFromHelmRepository x h obj repo db w = (Returns res, h1, w1)" "helm_ok h1"
      "cc_dir (h_cache h1) = cc_dir (h_cache h)"
      "plain_version (chart_reference obj) \<longrightarrow>
        (case res of Inl e \<Rightarrow> True | Inr b \<Rightarrow> directly_in (cc_dir (h_cache h)) (bld_Path b))"
    using buildFromHelmRepository_ok[OF Cons.prems] by metis
  from 1(4) have "served (cc_dir (h_cache h)) q (Returns res)"
    by (auto simp: served_def q plain_version_def chart_reference_def)
  with Cons.IH[OF 1(2), of w1] 1 show ?case by (auto simp: q split: prod.splits)
qed simp

lemma NewHelmBuilder_ok: "cc_wf (opt_Cache opts) \<Longrightarrow> cc_held (opt_Cache opts) = {} \<Longrightarrow>
    helm_ok (NewHelmBuilder u opts) \<and> h_cache (NewHelmBuilder u opts) = opt_Cache opts"
  by (simp add: NewHelmBuilder_def Let_def helm_ok_def repo_cache_ok_def mc.fresh_values mc.fresh_locks)

text \<open>
  C33. A builder with a new chart cache, of whatever type, builds any list of charts one after
  the other under any schedule of failures: no build waits for a lock that an earlier one has
  left behind, and every chart asked for in a version without a slash that is built lies directly
  in the directory of the cache. At the end nothing is locked, and the repository cache holds no
  repository, so every build has opened its own. (With a slash in the version the path may leave
  the directory; see \<open>version_escapes_cache_dir\<close>.)
\<close>

theorem builder_leaves_no_lock:
  assumes "NewCache cacheType cacheDir w0 = (Inr (opt_Cache opts), w1)"
  shows "case helm_builds x qs (NewHelmBuilder universal opts) w of (rs, h', w') \<Rightarrow>
    list_all2 (served (cc_dir (opt_Cache opts))) qs rs \<and>
    cc_held (h_cache h') = {} \<and> cache_locks (h_repoCache h') = {} \<and>
    ran (cache_values (h_repoCache h')) \<subseteq> {None}"
proof -
  have h: "helm_ok (NewHelmBuilder universal opts)"
    "h_cache (NewHelmBuilder universal opts) = opt_Cache opts"
    using NewHelmBuilder_ok NewCache_ok[OF assms(1)] by blast+
  from helm_builds_ok[OF h(1), where x = x and qs = qs and w = w] h(2) show ?thesis
    by (auto simp: helm_ok_def repo_cache_ok_def ran_def split: prod.split)
qed

definition sample_helm_ext :: "(string \<times> string, nat, nat option) helm_ext" where
  "sample_helm_ext =
     \<lparr>hx_kube = sample_kube, hx_values = sample_values, hx_auth = sample_auth, hx_services = sample_services,
      hx_chart = sample_chart_ext, hx_platform = Unix, providers_ByScheme = (\<lambda>ps s. Inr 0),
      GetChartValuesFiles = hc_ValuesFiles, name_ParseReference = (\<lambda>u. None),
      GetArtifactRegistryCredentials = (\<lambda>t p u. Inl EOF), IsOCI = (\<lambda>u. has_prefix u ''oci://'')\<rparr>"

definition sample_opts :: "chart_cache \<Rightarrow> helm_opts" where
  "sample_opts c =
     \<lparr>APIVersions = [], FailFast = False, opt_Cache = c, KubeVersion = \<lparr>kv_Version = ''1.31.0'', kv_Major = ''1'', kv_Minor = ''31''\<rparr>, Getters = None, Decoder = None,
      IncludeHelmHooks = False\<rparr>"

definition sample_helm_repository :: helm_repository where
  "sample_helm_repository =
     \<lparr>hrp_Name = ''charts'', hrp_Namespace = ''ns'', hrp_URL = ''https://charts.example.org/'', hrp_SecretRef = None,
      hrp_PassCredentials = False, hrp_Type = '''', hrp_Provider = ''''\<rparr>"

definition sample_chart :: "string \<Rightarrow> helm_chart" where
  "sample_chart n =
     \<lparr>hc_Chart = n, hc_Version = ''1.0'',
      hc_SourceRef = \<lparr>sr_APIVersion = '''', sr_Kind = ''HelmRepository'', sr_Name = ''charts'', sr_Namespace = ''''\<rparr>,
      hc_ValuesFiles = [], hc_Verify = None, Generation = 0\<rparr>"

definition sample_requests :: "(helm_chart \<times> helm_repository \<times> (string \<times> string) resource_index) list" where
  "sample_requests =
     [(sample_chart ''app'', sample_helm_repository, sample_index),
      (sample_chart ''web'', sample_helm_repository, sample_index),
      (sample_chart ''app'', sample_helm_repository, sample_index)]"

theorem builder_leaves_no_lock_witness:
  "case helm_builds sample_helm_ext sample_requests
      (NewHelmBuilder (Decode sample_kube) (sample_opts (projr (fst (NewCache ''fs'' ''/t'' small_world))))) small_world of
     (rs, h', w') \<Rightarrow> length rs = 3 \<and> Blocks \<notin> set rs \<and> cc_held (h_cache h') = {}"
proof -
  let ?c = "projr (fst (NewCache ''fs'' ''/t'' small_world))"
  have "isl (fst (NewCache ''fs'' ''/t'' small_world)) = False" by code_simp
  then have "NewCache ''fs'' ''/t'' small_world = (Inr ?c, snd (NewCache ''fs'' ''/t'' small_world))"
    by (metis prod.collapse sum.collapse(2))
  moreover have "opt_Cache (sample_opts ?c) = ?c" by (simp only: sample_opts_def helm_opts.select_convs)
  ultimately have "NewCache ''fs'' ''/t'' small_world =
      (Inr (opt_Cache (sample_opts ?c)), snd (NewCache ''fs'' ''/t'' small_world))"
    by (simp only:)
  then have "case helm_builds sample_helm_ext sample_requests
      (NewHelmBuilder (Decode sample_kube) (sample_opts ?c)) small_world of (rs, h', w') \<Rightarrow>
    list_all2 (served (cc_dir (opt_Cache (sample_opts ?c)))) sample_requests rs \<and>
    cc_held (h_cache h') = {} \<and> cache_locks (h_repoCache h') = {} \<and>
    ran (cache_values (h_repoCache h')) \<subseteq> {None}"
    by (rule builder_leaves_no_lock)
  moreover have "length sample_requests = 3" by (simp add: sample_requests_def)
  ultimately show ?thesis by (auto simp: case_prod_beta in_set_conv_nth list_all2_conv_all_nth served_def)
qed

section \<open>Signatures\<close>

text \<open>The same parameters with another answer of the signature verifiers.\<close>

definition with_verifier ::
    "(nat \<Rightarrow> nat \<Rightarrow> string \<Rightarrow> go_error + bool) \<Rightarrow> ('r, 'v, 'c) helm_ext \<Rightarrow> ('r, 'v, 'c) helm_ext" where
  "with_verifier f x =
     x\<lparr>hx_services := (hx_services x)\<lparr>sv_oci := (sv_oci (hx_services x))\<lparr>vf_Verify := f\<rparr>\<rparr>\<rparr>"

lemma h_services_verifier [simp]:
  "sv_http (h_services (with_verifier f x) h) = sv_http (h_services x h)"
  "sv_semver (h_services (with_verifier f x) h) = sv_semver (h_services x h)"
  "sv_oci (h_services (with_verifier f x) h) = (sv_oci (h_services x h))\<lparr>vf_Verify := f\<rparr>"
  by (simp_all add: h_services_def with_verifier_def)

lemma with_verifier_simps [simp]:
  "hx_kube (with_verifier f x) = hx_kube x" "hx_auth (with_verifier f x) = hx_auth x"
  "hx_chart (with_verifier f x) = hx_chart x" "hx_platform (with_verifier f x) = hx_platform x"
  "GetChartValuesFiles (with_verifier f x) = GetChartValuesFiles x"
  "name_ParseReference (with_verifier f x) = name_ParseReference x" "IsOCI (with_verifier f x) = IsOCI x"
  "GetArtifactRegistryCredentials (with_verifier f x) = GetArtifactRegistryCredentials x"
  by (simp_all add: with_verifier_def)

lemma oci_verifier_unused:
  "getTags (oe\<lparr>vf_Verify := f\<rparr>) = getTags oe"
  "getLastMatchingVersionOrConstraint (oe\<lparr>vf_Verify := f\<rparr>) = getLastMatchingVersionOrConstraint oe"
  "Login (oe\<lparr>vf_Verify := f\<rparr>) = Login oe"
proof -
  have o: "rc_Tags (oe\<lparr>vf_Verify := f\<rparr>) = rc_Tags oe" "sort_Sort (oe\<lparr>vf_Verify := f\<rparr>) = sort_Sort oe"
    "rc_Login (oe\<lparr>vf_Verify := f\<rparr>) = rc_Login oe" by simp_all
  show "getTags (oe\<lparr>vf_Verify := f\<rparr>) = getTags oe" and "Login (oe\<lparr>vf_Verify := f\<rparr>) = Login oe"
    "getLastMatchingVersionOrConstraint (oe\<lparr>vf_Verify := f\<rparr>) = getLastMatchingVersionOrConstraint oe"
    unfolding getTags_def getLastMatchingVersionOrConstraint_def Login_def o by (rule refl)+
qed

lemma get_other_verifier:
  "down_GetChartVersion (h_services (with_verifier f x) h) = down_GetChartVersion (h_services x h)"
  unfolding down_GetChartVersion_def oci_GetChartVersion_def oci_getChartVersion_def h_services_verifier
    oci_verifier_unused ..

lemma download_other_verifier:
  "down_DownloadChart (h_services (with_verifier f x) h) = down_DownloadChart (h_services x h)"
  unfolding down_DownloadChart_def h_services_verifier ..

lemma remote_Build_unverified:
  assumes "\<not> Verify opts"
  shows "remote_Build get download verify c sv os d ref p opts = remote_Build get download verify' c sv os d ref p opts"
proof -
  have "fetch_version download verify c sv d cv opts = fetch_version download verify' c sv d cv opts" for d cv
    using assms by (simp add: fetch_version_def)
  then have f: "downloadFromRepository get download verify c sv d r opts =
      downloadFromRepository get download verify' c sv d r opts" for r
    unfolding downloadFromRepository_def by presburger
  show ?thesis unfolding remote_Build_def f ..
qed

lemma build_chart_unverified:
  assumes "hc_Verify obj = None"
  shows "build_chart (with_verifier f x) h obj path u d = build_chart x h obj path u d"
proof -
  have o: "chart_options (with_verifier f x) obj path u = chart_options x obj path u"
    by (simp add: chart_options_def)
  have "\<not> Verify (chart_options x obj path u)"
    using assms by (simp add: chart_options_def Let_def)
  note v = remote_Build_unverified[OF this, of _ _ "down_VerifyChart (h_services (with_verifier f x) h)"
      _ _ _ _ _ _ "down_VerifyChart (h_services x h)"]
  show ?thesis by (simp add: build_chart_def o v Let_def get_other_verifier download_other_verifier)
qed

lemma open_repository_verifier:
  "open_repository (with_verifier f x) h repo db url u = open_repository x h repo db url u"
proof -
  have o: "oidcAuth (with_verifier f x) = oidcAuth x"
    unfolding oidcAuth_def cloud_credentials_def with_verifier_simps ..
  have k: "h_kube (with_verifier f x) h = h_kube x h" by (simp add: h_kube_def)
  show ?thesis
    unfolding open_repository_def repository_credentials_def open_oci_def open_http_def o k with_verifier_simps
      h_services_verifier oci_verifier_unused ..
qed

text \<open>
  Signatures of charts are never checked: whatever a release says, and whatever the
  verifiers would answer, the build of its chart is the same, because the verification settings
  are not carried over and no verifiers are made.
\<close>

theorem signatures_are_never_checked:
  "buildChart (with_verifier f x) h repository ct db w = buildChart x h repository ct db w"
proof -
  have run: "run_build (with_verifier f x) h' obj repo db url path u r = run_build x h' obj repo db url path u r"
    if "hc_Verify obj = None" for h' obj repo url path u r
    unfolding run_build_def open_repository_verifier build_chart_unverified[OF that] ..
  have wr: "with_repository (with_verifier f x) h' obj repo db url path u r m w' =
      with_repository x h' obj repo db url path u r m w'"
    if "hc_Verify obj = None" for h' obj repo url path u r m w'
    unfolding with_repository_def run[OF that] ..
  have cl: "with_chart_lock (with_verifier f x) h' obj repo db url path w' = with_chart_lock x h' obj repo db url path w'"
    if "hc_Verify obj = None" for h' obj repo url path w'
    unfolding with_chart_lock_def wr[OF that] ..
  have "buildFromHelmRepository (with_verifier f x) h obj repo db w = buildFromHelmRepository x h obj repo db w"
    if "hc_Verify obj = None" for obj repo
    unfolding buildFromHelmRepository_def cl[OF that] ..
  then show ?thesis by (simp add: buildChart_def split: kube_object.split)
qed

end
