(* ===== verification/ReleaseThreads.thy ===== *)
theory ReleaseThreads
  imports MemcacheThreads HelmRepo
begin

text \<open>
  Any number of workers that build releases at the same time, as far as the two caches they share
  see it (\<open>buildFromHelmRepository\<close> in \<open>internal/build/helm.go\<close> with the in-memory chart cache, the
  default): a worker locks its chart, then the repository, builds, and the deferred calls unlock
  both in the reverse order, whatever the build results in. Each cache is a system of threads of
  \<open>MemcacheThreads\<close>; here they are put together.
\<close>

section \<open>One worker on one cache\<close>

text \<open>A call of \<open>GetOrLock\<close>, the end of its wait, and the call of \<open>SetUnlock\<close>.\<close>

definition enter :: "'t \<Rightarrow> 'k \<Rightarrow> ('t, 'k, 'v) csys \<Rightarrow> ('t, 'k, 'v) csys" where
  "enter t k s =
     (case GetOrLock k (shared s) of
        (Locked, c) \<Rightarrow> goto t (Owner k (next_chan (shared s))) c s
      | (Found v, c) \<Rightarrow> goto t (Got k v) c s
      | (Blocked l, c) \<Rightarrow> goto t (Waiting k l) c s)"

definition resume :: "'t \<Rightarrow> 'k \<Rightarrow> ('t, 'k, 'v) csys \<Rightarrow> ('t, 'k, 'v) csys" where
  "resume t k s =
     (case GetOrLock_resume k (shared s) of
        Some v \<Rightarrow> goto t (Got k v) (shared s) s
      | None \<Rightarrow> goto t (Empty k) (shared s) s)"

definition set_unlock :: "'t \<Rightarrow> 'k \<Rightarrow> 'v \<Rightarrow> ('t, 'k, 'v) csys \<Rightarrow> ('t, 'k, 'v) csys" where
  "set_unlock t k v s =
     (case SetUnlock k v (shared s) of
        Some c \<Rightarrow> goto t Idle c s
      | None \<Rightarrow> s\<lparr>panicked := True\<rparr>)"

fun waits :: "('k, 'v) pc \<Rightarrow> bool" where
  "waits (Waiting k l) = True"
| "waits _ = False"

text \<open>What the deferred \<open>SetUnlock\<close> of the chart cache does: nothing without a key.\<close>

definition unlock_chart :: "'t \<Rightarrow> 'k \<Rightarrow> 'v \<Rightarrow> ('t, 'k, 'v) csys \<Rightarrow> ('t, 'k, 'v) csys" where
  "unlock_chart t k v s =
     (case pcs s t of
        Got k' p \<Rightarrow> goto t Idle (shared s) s
      | _ \<Rightarrow> set_unlock t k v s)"

section \<open>Workers\<close>

text \<open>Where a worker is: before the call, at the chart cache, at the repository cache, at the end.\<close>

datatype place = Queued | AtChart | AtRepo | RepoDone | Finished

record 't workers =
  charts :: "('t, cache_key, string) csys"
  repos :: "('t, string, downloader option) csys"
  place_of :: "'t \<Rightarrow> place"

type_synonym 't requests = "'t \<Rightarrow> string \<times> remote_reference"

definition chart_key :: "'t requests \<Rightarrow> 't \<Rightarrow> cache_key" where
  "chart_key req t = CacheKey (WithEscapedName (snd (req t))) (fst (req t))"

definition init_workers :: "'t workers" where
  "init_workers = \<lparr>charts = csys_init, repos = csys_init, place_of = (\<lambda>_. Queued)\<rparr>"

text \<open>The repository that was found, which the deferred call puts back as the build has left it.\<close>

definition found_repo :: "(string, downloader option) pc \<Rightarrow> downloader option" where
  "found_repo p = (case p of Got k r \<Rightarrow> r | _ \<Rightarrow> None)"

inductive worker_step :: "'t requests \<Rightarrow> 't workers \<Rightarrow> 't workers \<Rightarrow> bool" for req where
  lock_chart: "place_of s t = Queued \<Longrightarrow>
     worker_step req s (s\<lparr>charts := enter t (chart_key req t) (charts s), place_of := (place_of s)(t := AtChart)\<rparr>)"
| wake_chart: "place_of s t = AtChart \<Longrightarrow> pcs (charts s) t = Waiting k l \<Longrightarrow> l \<in> closed (shared (charts s)) \<Longrightarrow>
     worker_step req s (s\<lparr>charts := resume t k (charts s)\<rparr>)"
| lock_repo: "place_of s t = AtChart \<Longrightarrow> \<not> waits (pcs (charts s) t) \<Longrightarrow>
     worker_step req s (s\<lparr>repos := enter t (fst (req t)) (repos s), place_of := (place_of s)(t := AtRepo)\<rparr>)"
| wake_repo: "place_of s t = AtRepo \<Longrightarrow> pcs (repos s) t = Waiting k l \<Longrightarrow> l \<in> closed (shared (repos s)) \<Longrightarrow>
     worker_step req s (s\<lparr>repos := resume t k (repos s)\<rparr>)"
| unlock_repo: "place_of s t = AtRepo \<Longrightarrow> \<not> waits (pcs (repos s) t) \<Longrightarrow>
     worker_step req s (s\<lparr>repos := set_unlock t (fst (req t)) (kept (found_repo (pcs (repos s) t)) d) (repos s),
       place_of := (place_of s)(t := RepoDone)\<rparr>)"
| finish: "place_of s t = RepoDone \<Longrightarrow>
     worker_step req s (s\<lparr>charts := unlock_chart t (chart_key req t) path (charts s), place_of := (place_of s)(t := Finished)\<rparr>)"

inductive worker_reach :: "'t requests \<Rightarrow> 't workers \<Rightarrow> bool" for req where
  start: "worker_reach req init_workers"
| move: "worker_reach req s \<Longrightarrow> worker_step req s s' \<Longrightarrow> worker_reach req s'"

section \<open>Each cache is used by its protocol\<close>

lemma enter_step: "pcs s t = Idle \<Longrightarrow> cache_step False s (enter t k s)"
  by (auto simp: enter_def intro: cache_step.intros split: prod.split got.split)

lemma resume_step: "pcs s t = Waiting k l \<Longrightarrow> l \<in> closed (shared s) \<Longrightarrow> cache_step False s (resume t k s)"
  by (auto simp: resume_def intro: cache_step.intros split: option.split)

lemma set_unlock_step: "pcs s t = Owner k l \<or> pcs s t = Got k u \<Longrightarrow> cache_step False s (set_unlock t k v s)"
  unfolding set_unlock_def by (cases "SetUnlock k v (shared s)") (auto intro: cache_step.unlock cache_step.unlock_panic)

lemma unlock_chart_step: "pcs s t = Owner k l \<or> pcs s t = Got k u \<Longrightarrow> cache_step False s (unlock_chart t k v s)"
  unfolding unlock_chart_def using set_unlock_step[of s t k l u v] by (auto intro: cache_step.leave)

text \<open>A worker that is done with \<open>GetOrLock\<close> for a key.\<close>

definition holds :: "'k \<Rightarrow> ('k, 'v) pc \<Rightarrow> bool" where
  "holds k p \<longleftrightarrow> (\<exists>l. p = Owner k l) \<or> (\<exists>v. p = Got k v)"

lemma enter_pcs:
  "\<exists>p. pcs (enter t k s) = (pcs s)(t := p) \<and> (holds k p \<or> (\<exists>l. p = Waiting k l))"
  by (auto simp: enter_def holds_def split: prod.split got.split)

lemma resume_pcs:
  assumes "protocol_inv s" and "pcs s t = Waiting k l" and "l \<in> closed (shared s)"
  shows "\<exists>v. pcs (resume t k s) = (pcs s)(t := Got k v)"
proof -
  from protocol_inv_thread[OF assms(1), of t] assms(1,2,3) have "\<exists>v. items (shared s) k = Some (Val v)"
    by (auto simp: thread_ok_def protocol_inv_def csys_wf_def cache_wf_def)
  then show ?thesis by (auto simp: resume_def GetOrLock_resume_def)
qed

lemma set_unlock_ok:
  assumes "protocol_inv s"
  obtains c where "SetUnlock k v (shared s) = Some c" and "set_unlock t k v s = goto t Idle c s"
  using assms SetUnlock_no_panic[of "shared s" k v]
  by (auto simp: protocol_inv_def csys_wf_def set_unlock_def)

lemma set_unlock_pcs: "protocol_inv s \<Longrightarrow> pcs (set_unlock t k v s) = (pcs s)(t := Idle)"
  by (rule set_unlock_ok[of s k v t]) auto

lemma unlock_chart_pcs: "protocol_inv s \<Longrightarrow> pcs (unlock_chart t k v s) = (pcs s)(t := Idle)"
  unfolding unlock_chart_def by (simp add: set_unlock_pcs split: pc.split)

text \<open>A value in a cache stays a value.\<close>

lemma value_stays:
  assumes "cache_step False s s'" and "items (shared s) k = Some (Val v)"
  shows "\<exists>v. items (shared s') k = Some (Val v)"
  using assms by cases (auto simp: SetUnlock_items elim!: GetOrLock_cases)

text \<open>Where a worker is, and what it has to do with the two caches there.\<close>

fun at_place :: "'k \<Rightarrow> 'r \<Rightarrow> place \<Rightarrow> ('k, 'v) pc \<Rightarrow> ('r, 'w) pc \<Rightarrow> bool" where
  "at_place k r Queued p q \<longleftrightarrow> p = Idle \<and> q = Idle"
| "at_place k r AtChart p q \<longleftrightarrow> (holds k p \<or> (\<exists>l. p = Waiting k l)) \<and> q = Idle"
| "at_place k r AtRepo p q \<longleftrightarrow> holds k p \<and> (holds r q \<or> (\<exists>l. q = Waiting r l))"
| "at_place k r RepoDone p q \<longleftrightarrow> holds k p \<and> q = Idle"
| "at_place k r Finished p q \<longleftrightarrow> p = Idle \<and> q = Idle"

definition workers_inv :: "'t requests \<Rightarrow> 't workers \<Rightarrow> bool" where
  "workers_inv req s \<longleftrightarrow>
     protocol_inv (charts s) \<and> protocol_inv (repos s) \<and>
     (\<forall>t. at_place (chart_key req t) (fst (req t)) (place_of s t) (pcs (charts s) t) (pcs (repos s) t)) \<and>
     (\<forall>t. place_of s t = Finished \<longrightarrow> (\<exists>v. items (shared (charts s)) (chart_key req t) = Some (Val v)))"

lemma workers_inv_init: "workers_inv req init_workers"
  by (simp add: workers_inv_def init_workers_def protocol_inv_init) (simp add: csys_init_def)

text \<open>A step of one worker, with what it does to its own entry in either cache.\<close>

lemma workers_inv_update:
  assumes "workers_inv req s"
    and "charts s' = charts s \<or> cache_step False (charts s) (charts s')"
    and "repos s' = repos s \<or> cache_step False (repos s) (repos s')"
    and "pcs (charts s') = (pcs (charts s))(t := p)" and "pcs (repos s') = (pcs (repos s))(t := q)"
    and "place_of s' = (place_of s)(t := a)" and "at_place (chart_key req t) (fst (req t)) a p q"
    and "a = Finished \<Longrightarrow> \<exists>v. items (shared (charts s')) (chart_key req t) = Some (Val v)"
  shows "workers_inv req s'"
proof -
  have "protocol_inv (charts s')" "protocol_inv (repos s')"
    using assms(1-3) protocol_inv_step by (auto simp: workers_inv_def)
  moreover have "\<exists>v. items (shared (charts s')) (chart_key req t') = Some (Val v)" if "place_of s' t' = Finished" for t'
    using assms(1,2,6,8) that value_stays[of "charts s" "charts s'" "chart_key req t'"]
    by (cases "t' = t") (auto simp: workers_inv_def)
  ultimately show ?thesis
    using assms(1,4-7) by (auto simp: workers_inv_def)
qed

lemma holds_cases: "holds k p \<Longrightarrow> \<exists>l u. p = Owner k l \<or> p = Got k u"
  by (auto simp: holds_def)

lemma finished_value:
  assumes "protocol_inv s" and "holds k (pcs s t)"
  shows "\<exists>v. items (shared (unlock_chart t k p s)) k = Some (Val v)"
proof (cases "pcs s t")
  case (Got k' v)
  with assms protocol_inv_thread[OF assms(1), of t] show ?thesis
    by (auto simp: holds_def thread_ok_def unlock_chart_def)
next
  case (Owner k' l)
  obtain c where "SetUnlock k p (shared s) = Some c" "set_unlock t k p s = goto t Idle c s"
    using set_unlock_ok[OF assms(1)] .
  with Owner show ?thesis by (simp add: unlock_chart_def SetUnlock_items)
qed (use assms(2) in \<open>auto simp: holds_def\<close>)

lemma workers_inv_step:
  assumes "worker_step req s s'" and "workers_inv req s"
  shows "workers_inv req s'"
proof -
  have pc: "protocol_inv (charts s)" and pr: "protocol_inv (repos s)"
    and at: "at_place (chart_key req t) (fst (req t)) (place_of s t) (pcs (charts s) t) (pcs (repos s) t)" for t
    using assms(2) by (auto simp: workers_inv_def)
  note upd = workers_inv_update[OF assms(2)]
  from assms(1) show ?thesis
  proof cases
    case (lock_chart t)
    with at[of t] have i: "pcs (charts s) t = Idle" "pcs (repos s) t = Idle" by simp_all
    obtain p where "pcs (enter t (chart_key req t) (charts s)) = (pcs (charts s))(t := p)"
      "holds (chart_key req t) p \<or> (\<exists>l. p = Waiting (chart_key req t) l)" using enter_pcs by metis
    with lock_chart i enter_step[OF i(1)] show ?thesis
      by (intro upd[of s' t p Idle AtChart]) auto
  next
    case (wake_chart t k l)
    with at[of t] have k: "k = chart_key req t" "pcs (repos s) t = Idle" by (auto simp: holds_def)
    obtain v where "pcs (resume t k (charts s)) = (pcs (charts s))(t := Got k v)"
      using resume_pcs[OF pc wake_chart(3,4)] ..
    with wake_chart k resume_step[OF wake_chart(3,4)] show ?thesis
      by (intro upd[of s' t "Got k v" Idle AtChart]) (auto simp: holds_def)
  next
    case (lock_repo t)
    with at[of t] have i: "holds (chart_key req t) (pcs (charts s) t)" "pcs (repos s) t = Idle" by auto
    obtain q where "pcs (enter t (fst (req t)) (repos s)) = (pcs (repos s))(t := q)"
      "holds (fst (req t)) q \<or> (\<exists>l. q = Waiting (fst (req t)) l)" using enter_pcs by metis
    with lock_repo i enter_step[OF i(2)] show ?thesis
      by (intro upd[of s' t "pcs (charts s) t" q AtRepo]) auto
  next
    case (wake_repo t k l)
    with at[of t] have k: "k = fst (req t)" "holds (chart_key req t) (pcs (charts s) t)" by (auto simp: holds_def)
    obtain v where "pcs (resume t k (repos s)) = (pcs (repos s))(t := Got k v)"
      using resume_pcs[OF pr wake_repo(3,4)] ..
    with wake_repo k resume_step[OF wake_repo(3,4)] show ?thesis
      by (intro upd[of s' t "pcs (charts s) t" "Got k v" AtRepo]) (auto simp: holds_def)
  next
    case (unlock_repo t d)
    with at[of t] have i: "holds (chart_key req t) (pcs (charts s) t)" "holds (fst (req t)) (pcs (repos s) t)" by auto
    from holds_cases[OF i(2)] obtain l u where "pcs (repos s) t = Owner (fst (req t)) l \<or> pcs (repos s) t = Got (fst (req t)) u"
      by blast
    note st = set_unlock_step[OF this]
    from unlock_repo i st show ?thesis
      by (intro upd[of s' t "pcs (charts s) t" Idle RepoDone]) (auto simp: set_unlock_pcs[OF pr])
  next
    case (finish t path)
    with at[of t] have i: "holds (chart_key req t) (pcs (charts s) t)" "pcs (repos s) t = Idle" by auto
    from holds_cases[OF i(1)] obtain l u where "pcs (charts s) t = Owner (chart_key req t) l \<or> pcs (charts s) t = Got (chart_key req t) u"
      by blast
    note st = unlock_chart_step[OF this]
    from finish i st show ?thesis
      by (intro upd[of s' t Idle Idle Finished]) (auto simp: unlock_chart_pcs[OF pc] finished_value[OF pc i(1)])
  qed
qed

lemma workers_inv_reach: "worker_reach req s \<Longrightarrow> workers_inv req s"
  by (induction rule: worker_reach.induct) (auto intro: workers_inv_init workers_inv_step)

section \<open>Builds at the same time come to an end\<close>

lemma free_repo:
  assumes "place_of s t = AtRepo" and "\<not> waits (pcs (repos s) t)"
  shows "\<exists>s'. worker_step req s s'"
  using unlock_repo[OF assms] by blast

text \<open>A worker at the repository cache, or the one it waits for, can go on.\<close>

lemma repo_progress:
  assumes "workers_inv req s" and "place_of s t = AtRepo"
  shows "\<exists>s'. worker_step req s s'"
proof (cases "waits (pcs (repos s) t)")
  case True
  then obtain k l where w: "pcs (repos s) t = Waiting k l" by (cases "pcs (repos s) t") auto
  have inv: "protocol_inv (repos s)" using assms(1) by (simp add: workers_inv_def)
  show ?thesis
  proof (cases "l \<in> closed (shared (repos s))")
    case True
    from wake_repo[OF assms(2) w True] show ?thesis by blast
  next
    case False
    with protocol_inv_thread[OF inv, of t] w have "items (shared (repos s)) k = Some (ValueLock l)"
      by (simp add: thread_ok_def)
    from protocol_inv_owner[OF inv this] obtain o1 where o1: "pcs (repos s) o1 = Owner k l" by blast
    moreover from assms(1) have "at_place (chart_key req o1) (fst (req o1)) (place_of s o1) (pcs (charts s) o1) (pcs (repos s) o1)"
      by (simp add: workers_inv_def)
    ultimately have "place_of s o1 = AtRepo" by (cases "place_of s o1") auto
    with o1 show ?thesis by (intro free_repo[of s o1]) simp_all
  qed
qed (rule free_repo[OF assms(2)])

text \<open>A worker that is past the chart cache or need not wait there.\<close>

lemma chart_holder_progress:
  assumes "workers_inv req s" and "holds k (pcs (charts s) t)"
  shows "\<exists>s'. worker_step req s s'"
proof -
  have at: "at_place (chart_key req t) (fst (req t)) (place_of s t) (pcs (charts s) t) (pcs (repos s) t)"
    using assms(1) by (simp add: workers_inv_def)
  have n: "\<not> waits (pcs (charts s) t)" using assms(2) by (auto simp: holds_def)
  show ?thesis
  proof (cases "place_of s t")
    case AtChart
    from lock_repo[OF this n] show ?thesis by blast
  next
    case AtRepo
    then show ?thesis by (rule repo_progress[OF assms(1)])
  next
    case RepoDone
    from finish[OF this] show ?thesis by blast
  qed (use at assms(2) in \<open>auto simp: holds_def\<close>)
qed

lemma worker_progress:
  assumes "workers_inv req s" and "place_of s t \<noteq> Finished"
  shows "\<exists>s'. worker_step req s s'"
proof -
  have at: "at_place (chart_key req t) (fst (req t)) (place_of s t) (pcs (charts s) t) (pcs (repos s) t)"
    and inv: "protocol_inv (charts s)"
    using assms(1) by (simp_all add: workers_inv_def)
  consider "place_of s t = Queued" | k where "holds k (pcs (charts s) t)"
    | l where "place_of s t = AtChart" "pcs (charts s) t = Waiting (chart_key req t) l"
    using at assms(2) by (cases "place_of s t") auto
  then show ?thesis
  proof cases
    case 1
    from lock_chart[OF this] show ?thesis by blast
  next
    case 2
    then show ?thesis by (rule chart_holder_progress[OF assms(1)])
  next
    case (3 l)
    show ?thesis
    proof (cases "l \<in> closed (shared (charts s))")
      case True
      from wake_chart[OF 3 True] show ?thesis by blast
    next
      case False
      with protocol_inv_thread[OF inv, of t] 3(2) have "items (shared (charts s)) (chart_key req t) = Some (ValueLock l)"
        by (simp add: thread_ok_def)
      from protocol_inv_owner[OF inv this] obtain o1 where "pcs (charts s) o1 = Owner (chart_key req t) l" by blast
      then show ?thesis by (intro chart_holder_progress[OF assms(1), of "chart_key req t" o1]) (simp add: holds_def)
    qed
  qed
qed

fun place_weight :: "place \<Rightarrow> bool \<Rightarrow> bool \<Rightarrow> nat" where
  "place_weight Queued p q = 6"
| "place_weight AtChart p q = (if p then 5 else 4)"
| "place_weight AtRepo p q = (if q then 3 else 2)"
| "place_weight RepoDone p q = 1"
| "place_weight Finished p q = 0"

definition worker_weight :: "'t workers \<Rightarrow> 't \<Rightarrow> nat" where
  "worker_weight s t = place_weight (place_of s t) (waits (pcs (charts s) t)) (waits (pcs (repos s) t))"

lemma enter_others: "t' \<noteq> t \<Longrightarrow> pcs (enter t k s) t' = pcs s t'"
  by (auto simp: enter_def split: prod.split got.split)

lemma resume_others: "t' \<noteq> t \<Longrightarrow> pcs (resume t k s) t' = pcs s t'" "\<not> waits (pcs (resume t k s) t)"
  by (auto simp: resume_def split: option.split)

lemma unlock_others: "t' \<noteq> t \<Longrightarrow> pcs (set_unlock t k v s) t' = pcs s t'"
  "t' \<noteq> t \<Longrightarrow> pcs (unlock_chart t k v s) t' = pcs s t'"
  by (auto simp: set_unlock_def unlock_chart_def split: option.split pc.split)

lemma worker_step_weight:
  assumes "worker_step req s s'"
  shows "\<exists>t. worker_weight s' t < worker_weight s t \<and> (\<forall>t'. t' \<noteq> t \<longrightarrow> worker_weight s' t' = worker_weight s t')"
  using assms
proof cases
  case (lock_chart t)
  then show ?thesis by (intro exI[of _ t]) (auto simp: worker_weight_def enter_others resume_others unlock_others)
next
  case (wake_chart t k l)
  then show ?thesis by (intro exI[of _ t]) (auto simp: worker_weight_def enter_others resume_others unlock_others)
next
  case (lock_repo t)
  then show ?thesis by (intro exI[of _ t]) (auto simp: worker_weight_def enter_others resume_others unlock_others)
next
  case (wake_repo t k l)
  then show ?thesis by (intro exI[of _ t]) (auto simp: worker_weight_def enter_others resume_others unlock_others)
next
  case (unlock_repo t d)
  then show ?thesis by (intro exI[of _ t]) (auto simp: worker_weight_def enter_others resume_others unlock_others)
next
  case (finish t path)
  then show ?thesis by (intro exI[of _ t]) (auto simp: worker_weight_def enter_others resume_others unlock_others)
qed

lemma worker_step_wf: "wfp (\<lambda>s' s. worker_step req s s')" for req :: "('t :: finite) requests"
proof -
  have "sum (worker_weight s') UNIV < sum (worker_weight s) UNIV" if step: "worker_step req s s'" for s s'
  proof -
    obtain t where "worker_weight s' t < worker_weight s t" "\<forall>t'. t' \<noteq> t \<longrightarrow> worker_weight s' t' = worker_weight s t'"
      using worker_step_weight[OF step] by blast
    then show ?thesis by (intro sum_strict_mono_ex1) (auto intro: le_eq_less_or_eq[THEN iffD2])
  qed
  then show ?thesis by (rule wfp_if_convertible_to_nat)
qed

lemma no_lock_left:
  assumes "protocol_inv s" and "\<forall>t. pcs s t = Idle"
  shows "items (shared s) k \<noteq> Some (ValueLock l)"
proof
  assume "items (shared s) k = Some (ValueLock l)"
  from protocol_inv_owner[OF assms(1) this] assms(2) show False by auto
qed

text \<open>
  C11. Releases that are built at the same time never wait for each other for ever: as long as a
  worker has not finished, some worker can go on, since all lock their chart before the repository;
  there is no infinite run of finitely many workers; and when all have finished, no chart and no
  repository is locked, whatever the builds resulted in.
\<close>

theorem concurrent_builds_end:
  fixes req :: "('t :: finite) requests"
  assumes "worker_reach req s"
  shows "wfp (\<lambda>s' s. worker_step req s s') \<and>
    ((\<exists>s'. worker_step req s s') \<or>
     (\<forall>t. place_of s t = Finished) \<and> (\<forall>k l. items (shared (charts s)) k \<noteq> Some (ValueLock l)) \<and>
     (\<forall>k l. items (shared (repos s)) k \<noteq> Some (ValueLock l)))"
proof -
  have inv: "workers_inv req s" by (rule workers_inv_reach[OF assms])
  have "(\<forall>t. pcs (charts s) t = Idle) \<and> (\<forall>t. pcs (repos s) t = Idle)" if "\<forall>t. place_of s t = Finished"
    using inv that unfolding workers_inv_def by (metis at_place.simps(5))
  with inv have "(\<forall>k l. items (shared (charts s)) k \<noteq> Some (ValueLock l)) \<and>
      (\<forall>k l. items (shared (repos s)) k \<noteq> Some (ValueLock l))" if "\<forall>t. place_of s t = Finished"
    using that no_lock_left unfolding workers_inv_def by metis
  with worker_progress[OF inv] worker_step_wf[of req] show ?thesis by blast
qed

text \<open>
  C12. The first build of a chart is alone: while a worker owns the lock of a chart, every other
  worker that wants the same chart has not asked for it yet or waits for it, so none reads the
  chart's file before it is complete.
\<close>

theorem first_build_is_alone:
  assumes "worker_reach req s" and "pcs (charts s) t = Owner (chart_key req t') l" and "t' \<noteq> t"
  shows "place_of s t' = Queued \<or> place_of s t' = AtChart \<and> waits (pcs (charts s) t')"
proof -
  have inv: "workers_inv req s" by (rule workers_inv_reach[OF assms(1)])
  then have pc: "protocol_inv (charts s)" and at: "at_place (chart_key req t') (fst (req t')) (place_of s t')
      (pcs (charts s) t') (pcs (repos s) t')" by (simp_all add: workers_inv_def)
  have lock: "items (shared (charts s)) (chart_key req t') = Some (ValueLock l)"
    using protocol_inv_thread[OF pc, of t] assms(2) by (simp add: thread_ok_def)
  have "\<not> holds (chart_key req t') (pcs (charts s) t')"
  proof
    assume "holds (chart_key req t') (pcs (charts s) t')"
    then have "pcs (charts s) t' = Owner (chart_key req t') l"
      using protocol_inv_thread[OF pc, of t'] lock by (auto simp: holds_def thread_ok_def)
    with protocol_inv_owner[OF pc lock] assms(2,3) show False by blast
  qed
  moreover have "place_of s t' \<noteq> Finished" using inv lock by (auto simp: workers_inv_def)
  ultimately show ?thesis using at by (cases "place_of s t'") auto
qed

section \<open>Later builds\<close>

text \<open>Workers that all want one chart.\<close>

definition same_chart :: "'t requests" where
  "same_chart t = (''https://charts.example.org/'', \<lparr>ref_Name = ''c'', ref_Version = ''1.0''\<rparr>)"

definition the_key :: cache_key where
  "the_key = CacheKey (WithEscapedName \<lparr>ref_Name = ''c'', ref_Version = ''1.0''\<rparr>) ''https://charts.example.org/''"

lemma same_key [simp]: "chart_key same_chart t = the_key" "fst (same_chart t) = ''https://charts.example.org/''"
  by (simp_all add: chart_key_def same_chart_def the_key_def)

text \<open>A worker that comes when chart and repository have values passes both caches at once.\<close>

lemma later_worker:
  fixes s :: "'t workers"
  assumes "worker_reach same_chart s" and "place_of s t = Queued" and "items (shared (charts s)) the_key = Some (Val path)"
    and "items (shared (repos s)) ''https://charts.example.org/'' = Some (Val r)"
  obtains s' where "worker_reach same_chart s'" and "place_of s' = (place_of s)(t := AtRepo)"
    and "pcs (charts s') = (pcs (charts s))(t := Got the_key path)"
    and "pcs (repos s') = (pcs (repos s))(t := Got ''https://charts.example.org/'' r)"
    and "shared (charts s') = shared (charts s)" and "shared (repos s') = shared (repos s)"
proof -
  let ?url = "''https://charts.example.org/''"
  define u where "u = s\<lparr>charts := enter t the_key (charts s), place_of := (place_of s)(t := AtChart)\<rparr>"
  have c: "charts u = goto t (Got the_key path) (shared (charts s)) (charts s)"
    using assms(3) by (simp add: u_def enter_def GetOrLock_def)
  have ru: "worker_reach same_chart u" using move[OF assms(1) lock_chart[OF assms(2)]] by (simp add: u_def)
  have "worker_reach same_chart (u\<lparr>repos := enter t ?url (repos u), place_of := (place_of u)(t := AtRepo)\<rparr>)"
    using move[OF ru lock_repo[where t = t]] c by (simp add: u_def)
  then show ?thesis by (rule that) (use c assms(4) in \<open>simp_all add: u_def enter_def GetOrLock_def\<close>)
qed

text \<open>
  The first worker makes the path that the cache keeps when it unlocks; no file is there, and the
  workers that come after it get no lock. So two of them can be between the locks at the same time,
  both about to download the chart to the same path.
\<close>

lemma later_builds_overlap:
  "\<exists>s :: nat workers. worker_reach same_chart s \<and> place_of s 1 = AtRepo \<and> place_of s 2 = AtRepo \<and>
     \<not> waits (pcs (repos s) 1) \<and> \<not> waits (pcs (repos s) 2) \<and>
     pcs (charts s) 1 = Got the_key path \<and> pcs (charts s) 2 = Got the_key path"
proof -
  let ?url = "''https://charts.example.org/''"
  note d = init_workers_def csys_init_def New_def enter_def GetOrLock_def set_unlock_def unlock_chart_def SetUnlock_def
  define s1 :: "nat workers" where
    "s1 = init_workers\<lparr>charts := enter 0 the_key (charts init_workers), place_of := (place_of init_workers)(0 := AtChart)\<rparr>"
  have r1: "worker_reach same_chart s1"
    using move[OF worker_reach.start lock_chart[where t = 0 and req = same_chart]] by (simp add: s1_def init_workers_def)
  define s2 where "s2 = s1\<lparr>repos := enter 0 ?url (repos s1), place_of := (place_of s1)(0 := AtRepo)\<rparr>"
  have r2: "worker_reach same_chart s2"
    using move[OF r1 lock_repo[where t = 0]] by (simp add: s2_def s1_def d)
  define s3 where "s3 = s2\<lparr>repos := set_unlock 0 ?url (kept (found_repo (pcs (repos s2) 0)) None) (repos s2),
    place_of := (place_of s2)(0 := RepoDone)\<rparr>"
  have r3: "worker_reach same_chart s3"
    using move[OF r2 unlock_repo[where t = 0 and d = None]] by (simp add: s3_def s2_def s1_def d)
  define s4 where "s4 = s3\<lparr>charts := unlock_chart 0 the_key path (charts s3), place_of := (place_of s3)(0 := Finished)\<rparr>"
  have r4: "worker_reach same_chart s4"
    using move[OF r3 finish[where t = 0 and path = path]] by (simp add: s4_def s3_def)
  note e = s4_def s3_def s2_def s1_def d
  have 4: "place_of s4 = (\<lambda>t. if t = 0 then Finished else Queued)" "\<And>t. pcs (charts s4) t = Idle" "\<And>t. pcs (repos s4) t = Idle"
    "items (shared (charts s4)) the_key = Some (Val path)" "\<exists>r. items (shared (repos s4)) ?url = Some (Val r)"
    by (auto simp: e)
  then obtain r where r: "items (shared (repos s4)) ?url = Some (Val r)" by blast
  obtain s5 where 5: "worker_reach same_chart s5" "place_of s5 = (place_of s4)(1 := AtRepo)"
    "pcs (charts s5) = (pcs (charts s4))(1 := Got the_key path)" "pcs (repos s5) = (pcs (repos s4))(1 := Got ?url r)"
    "shared (charts s5) = shared (charts s4)" "shared (repos s5) = shared (repos s4)"
    by (rule later_worker[OF r4 _ 4(4) r, of 1]) (simp_all add: 4(1))
  obtain s6 where "worker_reach same_chart s6" "place_of s6 = (place_of s5)(2 := AtRepo)"
    "pcs (charts s6) = (pcs (charts s5))(2 := Got the_key path)" "pcs (repos s6) = (pcs (repos s5))(2 := Got ?url r)"
    by (rule later_worker[OF 5(1), of 2 path r]) (simp_all add: 4(1,4) 5 r)
  with 5 show ?thesis by (intro exI[of _ s6]) simp
qed

theorem concurrent_builds_end_witness:
  "\<exists>s' :: bool workers. worker_step same_chart init_workers s'"
  using concurrent_builds_end[OF worker_reach.start, of "same_chart :: bool requests"]
  by (auto simp: init_workers_def)

theorem first_build_is_alone_witness:
  "\<exists>s :: bool workers. worker_reach same_chart s \<and> pcs (charts s) True = Owner the_key 0 \<and>
     place_of s False = AtChart \<and> waits (pcs (charts s) False)"
proof -
  note d = init_workers_def csys_init_def New_def enter_def GetOrLock_def
  define s1 :: "bool workers" where
    "s1 = init_workers\<lparr>charts := enter True the_key (charts init_workers), place_of := (place_of init_workers)(True := AtChart)\<rparr>"
  have r1: "worker_reach same_chart s1"
    using move[OF worker_reach.start lock_chart[where t = True and req = same_chart]] by (simp add: s1_def init_workers_def)
  define s2 where "s2 = s1\<lparr>charts := enter False the_key (charts s1), place_of := (place_of s1)(False := AtChart)\<rparr>"
  have r2: "worker_reach same_chart s2"
    using move[OF r1 lock_chart[where t = False and req = same_chart]] by (simp add: s2_def s1_def init_workers_def)
  have o: "pcs (charts s2) True = Owner (chart_key same_chart False) 0" "place_of s2 False = AtChart"
    by (simp_all add: s2_def s1_def d)
  from first_build_is_alone[OF r2 o(1)] o r2 show ?thesis by auto
qed

end
