(* ===== verification/PostRender.thy ===== *)
theory PostRender
  imports Resources
begin

text \<open>
  Post renderers (\<open>internal/helm/postrenderer\<close>): the manifests of a release go through a chain
  of renderers, in the order they were added. Kustomize, its resources, its file system in
  memory and the JSON codec are parameters; a resource map is the list of its resources. The
  labels of the origin are set in the order of a Go map, which is a parameter as well.
\<close>

record kustomization =
  kz_APIVersion :: string
  kz_Kind :: string
  kz_Images :: "image list"
  kz_Resources :: "string list"
  kz_Patches :: "patch list"

record ('r, 'f) render_ext =
  NewResMapFromBytes :: "string \<Rightarrow> go_error + 'r list"
  resmap_AsYaml :: "'r list \<Rightarrow> go_error + string"
  GetNamespace :: "'r \<Rightarrow> string"
  SetNamespace :: "string \<Rightarrow> 'r \<Rightarrow> go_error + 'r"
  SetLabel :: "string \<times> string \<Rightarrow> 'r \<Rightarrow> go_error + 'r"
  map_order :: "(string \<times> string) list \<Rightarrow> (string \<times> string) list"
  MakeFsInMemory :: 'f
  fs_Create :: "string \<Rightarrow> 'f \<Rightarrow> go_error + 'f"
  fs_Write :: "string \<Rightarrow> string \<Rightarrow> 'f \<Rightarrow> go_error + 'f"
  fs_Close :: "string \<Rightarrow> 'f \<Rightarrow> go_error + 'f"
  json_Marshal :: "kustomization \<Rightarrow> go_error + string"
  render_Run :: "'f \<Rightarrow> string \<Rightarrow> go_error + 'r list"

section \<open>Patches and images\<close>

definition writeToFile :: "('r, 'f) render_ext \<Rightarrow> 'f \<Rightarrow> string \<Rightarrow> string \<Rightarrow> go_error + 'f" where
  "writeToFile x fs path content =
     bindE (fs_Create x path fs) (\<lambda>fs1.
     bindE (fs_Write x path content fs1) (\<lambda>fs2.
     fs_Close x path fs2))"

definition writeFile :: "('r, 'f) render_ext \<Rightarrow> 'f \<Rightarrow> string \<Rightarrow> string \<Rightarrow> go_error + 'f" where
  "writeFile x fs path content =
     bindE (fs_Create x path fs) (\<lambda>fs1.
     bindE (fs_Write x path content fs1) (\<lambda>fs2.
     fs_Close x path fs2))"

definition adaptImages :: "image list \<Rightarrow> image list" where
  "adaptImages images =
     map (\<lambda>i. \<lparr>img_Name = img_Name i, img_NewName = img_NewName i, img_NewTag = img_NewTag i,
                img_Digest = img_Digest i\<rparr>) images"

definition adaptSelector :: "selector option \<Rightarrow> selector option" where
  "adaptSelector s =
     (case s of
        None \<Rightarrow> None
      | Some t \<Rightarrow> Some \<lparr>sel_Group = sel_Group t, sel_Version = sel_Version t, sel_Kind = sel_Kind t,
                        sel_Namespace = sel_Namespace t, sel_Name = sel_Name t,
                        sel_AnnotationSelector = sel_AnnotationSelector t,
                        sel_LabelSelector = sel_LabelSelector t\<rparr>)"

fun adapt_patches :: "patch list \<Rightarrow> patch list" where
  "adapt_patches [] = []"
| "adapt_patches (m # ms) =
     (let p = trim_space (pt_Patch m) in
      if p = '''' then adapt_patches ms
      else \<lparr>pt_Patch = p, pt_Target = adaptSelector (pt_Target m)\<rparr> # adapt_patches ms)"

definition helm_output :: string where
  "helm_output = ''helm-output.yaml''"

definition kustomization_of :: "kustomize_spec \<Rightarrow> kustomization" where
  "kustomization_of spec =
     \<lparr>kz_APIVersion = ''kustomize.config.k8s.io/v1beta1'', kz_Kind = ''Kustomization'',
      kz_Images = adaptImages (ks_Images spec), kz_Resources = [helm_output],
      kz_Patches = adapt_patches (ks_Patches spec)\<rparr>"

definition buildKustomization :: "('r, 'f) render_ext \<Rightarrow> 'f \<Rightarrow> string \<Rightarrow> go_error + 'r list" where
  "buildKustomization x fs dirPath = render_Run x fs dirPath"

definition kustomize_Run :: "('r, 'f) render_ext \<Rightarrow> kustomize_spec \<Rightarrow> string \<Rightarrow> go_error + string" where
  "kustomize_Run x spec renderedManifests =
     bindE (writeFile x (MakeFsInMemory x) helm_output renderedManifests) (\<lambda>fs1.
     bindE (json_Marshal x (kustomization_of spec)) (\<lambda>k.
     bindE (writeToFile x fs1 ''kustomization.yaml'' k) (\<lambda>fs2.
     bindE (buildKustomization x fs2 ''.'') (\<lambda>resMap.
     resmap_AsYaml x resMap))))"

section \<open>Labels and namespaces\<close>

definition helm_group :: string where
  "helm_group = ''helm.toolkit.fluxcd.io''"

definition originLabels :: "string \<Rightarrow> string \<Rightarrow> (string \<times> string) list" where
  "originLabels name namespace =
     [(helm_group @ ''/name'', name), (helm_group @ ''/namespace'', namespace)]"

fun set_all :: "('l \<Rightarrow> 'r \<Rightarrow> go_error + 'r) \<Rightarrow> 'l list \<Rightarrow> 'r \<Rightarrow> go_error + 'r" where
  "set_all f [] r = Inr r"
| "set_all f (l # ls) r = bindE (f l r) (set_all f ls)"

fun each_resource :: "('r \<Rightarrow> go_error + 'r) \<Rightarrow> 'r list \<Rightarrow> go_error + 'r list" where
  "each_resource f [] = Inr []"
| "each_resource f (r # rs) =
     bindE (f r) (\<lambda>r'. bindE (each_resource f rs) (\<lambda>rs'. Inr (r' # rs')))"

definition origin_Run :: "('r, 'f) render_ext \<Rightarrow> string \<Rightarrow> string \<Rightarrow> string \<Rightarrow> go_error + string" where
  "origin_Run x name namespace renderedManifests =
     bindE (NewResMapFromBytes x renderedManifests) (\<lambda>resMap.
     bindE (each_resource (set_all (SetLabel x) (map_order x (originLabels name namespace))) resMap)
       (resmap_AsYaml x))"

definition set_namespace :: "('r, 'f) render_ext \<Rightarrow> string \<Rightarrow> 'r \<Rightarrow> go_error + 'r" where
  "set_namespace x ns r = (if GetNamespace x r = '''' then SetNamespace x ns r else Inr r)"

definition namespace_Run :: "('r, 'f) render_ext \<Rightarrow> string \<Rightarrow> string \<Rightarrow> go_error + string" where
  "namespace_Run x ns renderedManifests =
     bindE (NewResMapFromBytes x renderedManifests) (\<lambda>resMap.
     bindE (each_resource (set_namespace x ns) resMap) (resmap_AsYaml x))"

section \<open>The chain\<close>

datatype renderer =
    KustomizeRenderer kustomize_spec
  | OriginLabelsRenderer string string
  | NamespaceRenderer string

definition NewPostRendererKustomize :: "kustomize_spec \<Rightarrow> renderer" where
  "NewPostRendererKustomize spec = KustomizeRenderer spec"

definition NewPostRendererOriginLabels :: "helm_release \<Rightarrow> renderer" where
  "NewPostRendererOriginLabels hr = OriginLabelsRenderer (hr_Name hr) (hr_Namespace hr)"

definition NewPostRendererNamespace :: "helm_release \<Rightarrow> renderer" where
  "NewPostRendererNamespace hr =
     (let ns = GetReleaseNamespace hr in NamespaceRenderer (if ns = '''' then ''default'' else ns))"

definition renderer_Run :: "('r, 'f) render_ext \<Rightarrow> renderer \<Rightarrow> string \<Rightarrow> go_error + string" where
  "renderer_Run x r b =
     (case r of
        KustomizeRenderer spec \<Rightarrow> kustomize_Run x spec b
      | OriginLabelsRenderer name ns \<Rightarrow> origin_Run x name ns b
      | NamespaceRenderer ns \<Rightarrow> namespace_Run x ns b)"

type_synonym combined_renderer = "renderer list"

definition NewCombinedPostRenderer :: combined_renderer where
  "NewCombinedPostRenderer = []"

definition AddRenderer :: "combined_renderer \<Rightarrow> renderer \<Rightarrow> combined_renderer" where
  "AddRenderer c r = c @ [r]"

definition Len :: "combined_renderer \<Rightarrow> nat" where
  "Len c = length c"

fun combined_Run :: "('r, 'f) render_ext \<Rightarrow> combined_renderer \<Rightarrow> string \<Rightarrow> go_error + string" where
  "combined_Run x [] result = Inr result"
| "combined_Run x (r # rs) result = bindE (renderer_Run x r result) (combined_Run x rs)"

text \<open>\<open>postRenderers\<close> of \<open>internal/build/helm.go\<close>; the chain it returns is never empty.\<close>

definition add_kustomize :: "combined_renderer \<Rightarrow> kustomize_spec option \<Rightarrow> combined_renderer" where
  "add_kustomize c r = (case r of None \<Rightarrow> c | Some spec \<Rightarrow> AddRenderer c (NewPostRendererKustomize spec))"

definition postRenderers :: "helm_release \<Rightarrow> go_error + combined_renderer option" where
  "postRenderers hr =
     (let c1 = foldl add_kustomize NewCombinedPostRenderer (hr_PostRenderers hr);
          c2 = AddRenderer c1 (NewPostRendererOriginLabels hr);
          c3 = AddRenderer c2 (NewPostRendererNamespace hr) in
      if Len c3 = 0 then Inr None else Inr (Some c3))"

section \<open>Every manifest is labelled and has a namespace\<close>

text \<open>
  What the code relies on of kustomize: reading what was written gives the same resources, and
  setting a label or a namespace sets that and nothing else. \<open>label\<close> reads a label.
\<close>

definition render_laws :: "('r, 'f) render_ext \<Rightarrow> ('r \<Rightarrow> string \<rightharpoonup> string) \<Rightarrow> bool" where
  "render_laws x label \<longleftrightarrow>
     (\<forall>rs b. resmap_AsYaml x rs = Inr b \<longrightarrow> NewResMapFromBytes x b = Inr rs) \<and>
     (\<forall>l r r'. SetLabel x l r = Inr r' \<longrightarrow>
        label r' = (label r)(fst l \<mapsto> snd l) \<and> GetNamespace x r' = GetNamespace x r) \<and>
     (\<forall>ns r r'. SetNamespace x ns r = Inr r' \<longrightarrow> label r' = label r \<and> GetNamespace x r' = ns) \<and>
     (\<forall>ls. set (map_order x ls) = set ls \<and> length (map_order x ls) = length ls)"

lemma combined_Run_append:
  "combined_Run x (rs @ qs) b = bindE (combined_Run x rs b) (combined_Run x qs)"
  by (induction rs arbitrary: b) (auto simp: bindE_def split: sum.splits)

lemma each_resource_all:
  "each_resource f rs = Inr rs' \<Longrightarrow> list_all2 (\<lambda>r r'. f r = Inr r') rs rs'"
  by (induction rs arbitrary: rs') (auto simp: bindE_Inr_iff)

lemma set_all_labels:
  assumes "render_laws x label" and "set_all (SetLabel x) ls r = Inr r'" and "distinct (map fst ls)"
  shows "(\<forall>(k, v) \<in> set ls. label r' k = Some v) \<and> GetNamespace x r' = GetNamespace x r \<and>
    (\<forall>k. k \<notin> fst ` set ls \<longrightarrow> label r' k = label r k)"
  using assms(2,3)
proof (induction ls arbitrary: r)
  case (Cons l ls)
  then obtain r1 where r1: "SetLabel x l r = Inr r1" "set_all (SetLabel x) ls r1 = Inr r'"
    by (auto simp: bindE_Inr_iff)
  have "label r1 = (label r)(fst l \<mapsto> snd l)" "GetNamespace x r1 = GetNamespace x r"
    using assms(1) r1(1) unfolding render_laws_def by blast+
  with Cons.IH[OF r1(2)] Cons.prems(2) show ?case
    by (auto simp: image_iff split: prod.splits)
qed simp

lemma originLabels_distinct:
  assumes "render_laws x label" shows "distinct (map fst (map_order x (originLabels n ns)))"
proof -
  have s: "set (map_order x (originLabels n ns)) = set (originLabels n ns)"
    and l: "length (map_order x (originLabels n ns)) = 2"
    using assms unfolding render_laws_def by (auto simp: originLabels_def)
  have "card (set (map fst (map_order x (originLabels n ns)))) = 2"
    unfolding set_map s by (simp add: originLabels_def)
  with l show ?thesis by (intro card_distinct) simp
qed

definition has_origin :: "('r \<Rightarrow> string \<rightharpoonup> string) \<Rightarrow> helm_release \<Rightarrow> 'r \<Rightarrow> bool" where
  "has_origin label hr r \<longleftrightarrow>
     label r (helm_group @ ''/name'') = Some (hr_Name hr) \<and>
     label r (helm_group @ ''/namespace'') = Some (hr_Namespace hr)"

lemma origin_Run_labels:
  assumes laws: "render_laws x label" and run: "origin_Run x (hr_Name hr) (hr_Namespace hr) b = Inr b'"
  shows "\<exists>rs. NewResMapFromBytes x b' = Inr rs \<and> list_all (has_origin label hr) rs"
proof -
  let ?ls = "map_order x (originLabels (hr_Name hr) (hr_Namespace hr))"
  obtain rs rs' where e: "each_resource (set_all (SetLabel x) ?ls) rs = Inr rs'" and y: "resmap_AsYaml x rs' = Inr b'"
    using run by (auto simp: origin_Run_def bindE_Inr_iff)
  have s: "set ?ls = set (originLabels (hr_Name hr) (hr_Namespace hr))"
    using laws unfolding render_laws_def by blast
  have "has_origin label hr r'" if "set_all (SetLabel x) ?ls r = Inr r'" for r r'
    using set_all_labels[OF laws that originLabels_distinct[OF laws]]
    unfolding s by (simp add: has_origin_def originLabels_def)
  then have "list_all (has_origin label hr) rs'"
    using each_resource_all[OF e] by (auto simp: list_all2_conv_all_nth list_all_length)
  moreover have "NewResMapFromBytes x b' = Inr rs'" using laws y unfolding render_laws_def by blast
  ultimately show ?thesis by blast
qed

lemma namespace_Run_keeps:
  assumes laws: "render_laws x label" and run: "namespace_Run x ns b = Inr b'" and "ns \<noteq> ''''"
    and parse: "NewResMapFromBytes x b = Inr rs"
  shows "\<exists>rs'. NewResMapFromBytes x b' = Inr rs' \<and>
    list_all2 (\<lambda>r r'. label r' = label r \<and>
      GetNamespace x r' = (if GetNamespace x r = '''' then ns else GetNamespace x r)) rs rs'"
proof -
  obtain rs' where e: "each_resource (set_namespace x ns) rs = Inr rs'" and y: "resmap_AsYaml x rs' = Inr b'"
    using run parse by (auto simp: namespace_Run_def bindE_Inr_iff)
  have "label r' = label r \<and> GetNamespace x r' = (if GetNamespace x r = '''' then ns else GetNamespace x r)"
    if "set_namespace x ns r = Inr r'" for r r'
    using that laws unfolding set_namespace_def render_laws_def by (auto split: if_splits)
  with each_resource_all[OF e] have "list_all2 (\<lambda>r r'. label r' = label r \<and>
      GetNamespace x r' = (if GetNamespace x r = '''' then ns else GetNamespace x r)) rs rs'"
    by (auto elim: list_all2_mono)
  moreover have "NewResMapFromBytes x b' = Inr rs'" using laws y unfolding render_laws_def by blast
  ultimately show ?thesis by blast
qed

text \<open>
  C38. Whatever a chart renders and whatever the post renderers of the release do with it, every
  resource that comes out of the chain carries the labels of its release's name and namespace,
  and none is without a namespace.
\<close>

theorem rendered_manifests_are_labelled:
  assumes "render_laws x label" and "postRenderers hr = Inr (Some c)" and "combined_Run x c b = Inr b'"
  shows "\<exists>rs. NewResMapFromBytes x b' = Inr rs \<and>
    list_all (\<lambda>r. has_origin label hr r \<and> GetNamespace x r \<noteq> '''') rs"
proof -
  define ns where "ns = (if GetReleaseNamespace hr = '''' then ''default'' else GetReleaseNamespace hr)"
  let ?c1 = "foldl add_kustomize NewCombinedPostRenderer (hr_PostRenderers hr)"
  have "c = ?c1 @ [OriginLabelsRenderer (hr_Name hr) (hr_Namespace hr), NamespaceRenderer ns]"
    using assms(2) by (simp add: postRenderers_def AddRenderer_def Len_def NewPostRendererOriginLabels_def
        NewPostRendererNamespace_def Let_def ns_def)
  with assms(3) obtain b1 b2 where b1: "combined_Run x ?c1 b = Inr b1"
    and b2: "origin_Run x (hr_Name hr) (hr_Namespace hr) b1 = Inr b2" and b': "namespace_Run x ns b2 = Inr b'"
    by (auto simp: combined_Run_append bindE_Inr_iff renderer_Run_def)
  obtain rs where rs: "NewResMapFromBytes x b2 = Inr rs" "list_all (has_origin label hr) rs"
    using origin_Run_labels[OF assms(1) b2] by blast
  have "ns \<noteq> ''''" by (simp add: ns_def)
  with namespace_Run_keeps[OF assms(1) b' _ rs(1)] obtain rs' where rs': "NewResMapFromBytes x b' = Inr rs'"
    and all2: "list_all2 (\<lambda>r r'. label r' = label r \<and>
      GetNamespace x r' = (if GetNamespace x r = '''' then ns else GetNamespace x r)) rs rs'" by blast
  have "list_all (\<lambda>r. has_origin label hr r \<and> GetNamespace x r \<noteq> '''') rs'"
    using all2 rs(2) \<open>ns \<noteq> ''''\<close>
    by (induction rule: list_all2_induct) (auto simp: has_origin_def)
  with rs' show ?thesis by blast
qed

text \<open>
  An instance in which a resource is a letter: \<open>a\<close> has nothing, \<open>b\<close> the first label, \<open>c\<close> both
  and \<open>d\<close> a namespace too.
\<close>

definition letter_release :: helm_release where
  "letter_release =
     \<lparr>hr_Name = ''n'', hr_Namespace = ''m'', hr_Chart = None, hr_ChartRef = False, hr_ValuesFrom = [],
      hr_PostRenderers = [None, Some \<lparr>ks_Images = [], ks_Patches = []\<rparr>], GetValues = [], GetReleaseName = ''n'',
      GetReleaseNamespace = '''',
      GetInstall = \<lparr>SkipCRDs = False, CRDs = '''', DisableHooks = False, DisableOpenAPIValidation = False,
        DisableSchemaValidation = False, GetTimeout = 5\<rparr>\<rparr>"

definition letter_label :: "char \<Rightarrow> string \<rightharpoonup> string" where
  "letter_label r =
     (if r = CHR ''b'' then [helm_group @ ''/name'' \<mapsto> ''n'']
      else if r = CHR ''c'' \<or> r = CHR ''d'' then [helm_group @ ''/name'' \<mapsto> ''n'', helm_group @ ''/namespace'' \<mapsto> ''m'']
      else Map.empty)"

definition letter_ext :: "(char, string) render_ext" where
  "letter_ext =
     \<lparr>NewResMapFromBytes = Inr, resmap_AsYaml = Inr,
      GetNamespace = (\<lambda>r. if r = CHR ''d'' then ''default'' else ''''),
      SetNamespace = (\<lambda>ns r. if r = CHR ''c'' \<and> ns = ''default'' then Inr (CHR ''d'') else Inl EOF),
      SetLabel = (\<lambda>l r.
        if r = CHR ''a'' \<and> l = (helm_group @ ''/name'', ''n'') then Inr (CHR ''b'')
        else if r = CHR ''b'' \<and> l = (helm_group @ ''/namespace'', ''m'') then Inr (CHR ''c'')
        else Inl EOF),
      map_order = id, MakeFsInMemory = '''', fs_Create = (\<lambda>p f. Inr f),
      fs_Write = (\<lambda>p b f. Inr (if p = helm_output then b else f)), fs_Close = (\<lambda>p f. Inr f),
      json_Marshal = (\<lambda>k. Inr ''''), render_Run = (\<lambda>f p. Inr f)\<rparr>"

lemma letter_laws: "render_laws letter_ext letter_label"
  by (auto simp: render_laws_def letter_ext_def letter_label_def fun_eq_iff split: if_splits)

theorem rendered_manifests_are_labelled_witness:
  "\<exists>c rs. postRenderers letter_release = Inr (Some c) \<and> combined_Run letter_ext c ''aa'' = Inr ''dd'' \<and>
    NewResMapFromBytes letter_ext ''dd'' = Inr rs \<and>
    list_all (\<lambda>r. has_origin letter_label letter_release r \<and> GetNamespace letter_ext r \<noteq> '''') rs"
proof -
  let ?c = "[KustomizeRenderer \<lparr>ks_Images = [], ks_Patches = []\<rparr>, OriginLabelsRenderer ''n'' ''m'',
    NamespaceRenderer ''default'']"
  have c: "postRenderers letter_release = Inr (Some ?c)"
    by (simp add: postRenderers_def letter_release_def add_kustomize_def AddRenderer_def Len_def
        NewCombinedPostRenderer_def NewPostRendererKustomize_def NewPostRendererOriginLabels_def
        NewPostRendererNamespace_def)
  have "combined_Run letter_ext ?c ''aa'' = Inr ''dd''"
    by (simp add: renderer_Run_def kustomize_Run_def writeFile_def writeToFile_def buildKustomization_def
        origin_Run_def namespace_Run_def set_namespace_def letter_ext_def originLabels_def helm_output_def)
  with rendered_manifests_are_labelled[OF letter_laws c this] c show ?thesis by blast
qed

end
