(* ===== verification/Kustomize.thy ===== *)
theory Kustomize
  imports Fs
begin

text \<open>
  The kustomize runner (\<open>internal/build/kustomize.go\<close>): a directory without a kustomization
  file gets one for the run, which lists the resources found below it; a single file or the
  standard input is put into a temporary directory first. Kustomize itself, the YAML codec and
  the recognized file names are parameters; kustomize reads the file system and writes nothing.
  \<open>filepath.Walk\<close> of the standard library is modelled with its callback.
\<close>

section \<open>Walking a tree\<close>

text \<open>
  The callback gets the path, the node (none if it could not be read) and an error, and
  threads its own state. The depth of a tree is bounded by the length of paths, as in
  \<open>CopyDir\<close>.
\<close>

type_synonym 's walk_fn = "string \<Rightarrow> node option \<Rightarrow> go_error option \<Rightarrow> 's \<Rightarrow> (go_error option \<times> 's) io"

fun walk_from :: "nat \<Rightarrow> 's walk_fn \<Rightarrow> string \<Rightarrow> node \<Rightarrow> 's \<Rightarrow> (go_error option \<times> 's) io"
  and walk_names :: "nat \<Rightarrow> 's walk_fn \<Rightarrow> string \<Rightarrow> string list \<Rightarrow> 's \<Rightarrow> (go_error option \<times> 's) io" where
  "walk_from 0 fn path info s = io_return (Some ENAMETOOLONG, s)"
| "walk_from (Suc n) fn path info s =
     (if \<not> node_is_dir info then fn path (Some info) None s
      else
        io_try (os_ReadDir path) (\<lambda>r.
        io_bind (fn path (Some info) (case r of Inl e \<Rightarrow> Some e | Inr _ \<Rightarrow> None) s) (\<lambda>(err1, s1).
        case r of
          Inl _ \<Rightarrow> io_return (err1, s1)
        | Inr es \<Rightarrow>
            if err1 \<noteq> None then io_return (err1, s1)
            else walk_names n fn path (map fst es) s1)))"
| "walk_names n fn path [] s = io_return (None, s)"
| "walk_names n fn path (name # names) s =
     io_try (os_lstat (path_join [path, name])) (\<lambda>r. case r of
       Inl e \<Rightarrow>
         io_bind (fn (path_join [path, name]) None (Some e) s) (\<lambda>(err, s1).
         if err \<noteq> None \<and> err \<noteq> Some SkipDir then io_return (err, s1)
         else walk_names n fn path names s1)
     | Inr info \<Rightarrow>
         io_bind (walk_from n fn (path_join [path, name]) info s) (\<lambda>(err, s1).
         if err \<noteq> None \<and> (\<not> node_is_dir info \<or> err \<noteq> Some SkipDir) then io_return (err, s1)
         else walk_names n fn path names s1))"

definition Walk :: "string \<Rightarrow> 's walk_fn \<Rightarrow> 's \<Rightarrow> (go_error option \<times> 's) io" where
  "Walk root fn s =
     io_try (os_lstat root) (\<lambda>r.
     io_bind (case r of Inl e \<Rightarrow> fn root None (Some e) s | Inr info \<Rightarrow> walk_from max_depth fn root info s)
       (\<lambda>(err, s1). io_return (if err = Some SkipDir then None else err, s1)))"

section \<open>Running kustomize\<close>

record 'm kustomize_ext =
  RecognizedKustomizationFileNames :: "string list"
  SliceFromBytes :: "string \<Rightarrow> go_error option"
  MarshalKustomization :: "string list \<Rightarrow> go_error + string"
  kustomizer_Run :: "(string \<Rightarrow> node option) \<Rightarrow> string \<Rightarrow> go_error + 'm"

definition DefaultKustomizationFileName :: "'m kustomize_ext \<Rightarrow> string" where
  "DefaultKustomizationFileName k = hd (RecognizedKustomizationFileNames k)"

fun any_exists :: "string \<Rightarrow> string list \<Rightarrow> bool io" where
  "any_exists path [] = io_return False"
| "any_exists path (n # ns) =
     io_try (os_stat (path_join [path, n])) (\<lambda>r. case r of
       Inr _ \<Rightarrow> io_return True
     | Inl _ \<Rightarrow> any_exists path ns)"

definition detect_one :: "'m kustomize_ext \<Rightarrow> string \<Rightarrow> bool \<Rightarrow> string list walk_fn" where
  "detect_one k base singleFile path info err paths =
     (case err of
        Some e \<Rightarrow> io_return (Some e, paths)
      | None \<Rightarrow>
          (case path_rel base path of
             Inl e \<Rightarrow> io_return (Some e, paths)
           | Inr normalizedPath \<Rightarrow>
               if path = base then io_return (None, paths)
               else if node_is_dir (the info) then
                 io_bind (any_exists path (RecognizedKustomizationFileNames k)) (\<lambda>found.
                 if found then io_return (Some SkipDir, paths @ [normalizedPath])
                 else io_return (None, paths))
               else
                 io_try (os_ReadFile path) (\<lambda>r. case r of
                   Inl e \<Rightarrow> io_return (Some e, paths)
                 | Inr fContents \<Rightarrow>
                     (case SliceFromBytes k fContents of
                        Some e \<Rightarrow> io_return (if singleFile then Some e else None, paths)
                      | None \<Rightarrow> io_return (None, paths @ [normalizedPath])))))"

definition detectResources :: "'m kustomize_ext \<Rightarrow> string \<Rightarrow> bool \<Rightarrow> string list io" where
  "detectResources k base singleFile =
     io_bind (Walk base (detect_one k base singleFile) []) (\<lambda>(err, paths).
     case err of Some e \<Rightarrow> io_fail e | None \<Rightarrow> io_return paths)"

definition createKustomization :: "'m kustomize_ext \<Rightarrow> string \<Rightarrow> bool \<Rightarrow> unit io" where
  "createKustomization k path singleFile =
     io_bind (detectResources k path singleFile) (\<lambda>detected.
     io_bind (io_lift (MarshalKustomization k detected)) (\<lambda>kd.
     os_WriteFile (path_join [path, DefaultKustomizationFileName k]) kd))"

definition run_kustomizer :: "'m kustomize_ext \<Rightarrow> string \<Rightarrow> 'm io" where
  "run_kustomizer k path w = (kustomizer_Run k (nodes w) path, w)"

text \<open>The file that is removed at the end is the one beside the path the caller gave.\<close>

definition with_kustomization :: "'m kustomize_ext \<Rightarrow> string \<Rightarrow> string \<Rightarrow> bool \<Rightarrow> 'm io" where
  "with_kustomization k kfile path singleFile =
     io_defer
       (io_bind (io_err (wrap ''failed create kustomization'') (createKustomization k path singleFile)) (\<lambda>_.
        run_kustomizer k path))
       (io_drop (os_Remove kfile))"

definition from_stdin :: "'m kustomize_ext \<Rightarrow> go_error + string \<Rightarrow> string \<Rightarrow> 'm io" where
  "from_stdin k stdin kfile =
     io_bind (os_MkdirTemp '''' '''') (\<lambda>d.
     io_bind (os_create (path_join [d, ''stdin.yaml''])) (\<lambda>f.
     io_bind (io_lift stdin) (\<lambda>b.
     io_bind (os_write f b) (\<lambda>_.
     io_defer (with_kustomization k kfile d True) (io_drop (os_RemoveAll d))))))"

definition from_file :: "'m kustomize_ext \<Rightarrow> go_error + string \<Rightarrow> string \<Rightarrow> string \<Rightarrow> 'm io" where
  "from_file k cwd kfile path =
     io_bind (os_MkdirTemp '''' '''') (\<lambda>d.
     io_bind (io_lift (abs_path cwd path)) (\<lambda>fullPath.
     io_bind (os_Symlink fullPath (path_join [d, path_base path])) (\<lambda>_.
     io_defer (with_kustomization k kfile d True) (io_drop (os_RemoveAll d)))))"

definition Kustomize :: "'m kustomize_ext \<Rightarrow> go_error + string \<Rightarrow> go_error + string \<Rightarrow> string \<Rightarrow> 'm io" where
  "Kustomize k stdin cwd path =
     (let kfile = path_join [path, DefaultKustomizationFileName k] in
      io_try (os_stat kfile) (\<lambda>r. case r of
        Inr _ \<Rightarrow> run_kustomizer k path
      | Inl _ \<Rightarrow>
          io_bind (os_stat path) (\<lambda>st.
          if path = ''/dev/stdin'' \<or> path = ''-'' then from_stdin k stdin kfile
          else if \<not> node_is_dir st then from_file k cwd kfile path
          else with_kustomization k kfile path False)))"

section \<open>The directory is left as it was\<close>

lemma reads_walk:
  "(\<And>p i e s. reads (fn p i e s)) \<Longrightarrow> reads (walk_from n fn path info s)"
  "(\<And>p i e s. reads (fn p i e s)) \<Longrightarrow> reads (walk_names n fn path names s)"
  by (induction n fn path info s and n fn path names s rule: walk_from_walk_names.induct)
    (auto intro!: inv_intros split: sum.splits)

lemma keeps_env_walk:
  "(\<And>p i e s. keeps_env (fn p i e s)) \<Longrightarrow> keeps_env (walk_from n fn path info s)"
  "(\<And>p i e s. keeps_env (fn p i e s)) \<Longrightarrow> keeps_env (walk_names n fn path names s)"
  by (induction n fn path info s and n fn path names s rule: walk_from_walk_names.induct)
    (auto intro!: inv_intros split: sum.splits)

lemma any_exists_quiet [inv_intros]: "reads (any_exists path ns)" "keeps_env (any_exists path ns)"
  by (induction ns) (auto intro!: inv_intros)

lemma detect_quiet [inv_intros]:
  "reads (detectResources k base single)" "keeps_env (detectResources k base single)"
proof -
  have 1: "reads (detect_one k base single path info err paths)"
    and 2: "keeps_env (detect_one k base single path info err paths)" for path info err paths
    unfolding detect_one_def by (intro inv_intros)+
  show "reads (detectResources k base single)"
    unfolding detectResources_def Walk_def by (intro inv_intros reads_walk 1)
  show "keeps_env (detectResources k base single)"
    unfolding detectResources_def Walk_def by (intro inv_intros keeps_env_walk 2)
qed

lemma os_WriteFile_wrote:
  assumes "plain_target w (path_clean p)" and "os_WriteFile p b w = (r, w')"
  shows "wrote_file (path_clean p) w w'"
  using assms(2)[unfolded os_WriteFile_def]
proof (cases rule: io_bind_cases)
  case (fail e)
  from os_create_plain[OF assms(1) fail(1)] show ?thesis by (auto simp: wrote_file_def)
next
  case (ok q w1)
  from os_create_plain[OF assms(1) ok(1)]
  have q: "q = path_clean p" and w1: "nodes w1 = (nodes w)(q := Some (File []))" by auto
  obtain r2 w2 where wr: "os_write q b w1 = (r2, w2)" by fastforce
  from os_write_file[OF _ wr] w1 obtain k where w2: "nodes w2 = (nodes w)(q := Some (File (take k b)))" by auto
  have "w' = snd (os_close q w2)"
    using ok(2) wr by (cases "os_close q w2") (auto simp: io_try_def io_lift_def)
  moreover have "nodes (snd (os_close q w2)) = nodes w2"
    using reads_calls(5)[of q] by (simp add: reads_def)
  ultimately show ?thesis using w2 q by (auto simp: wrote_file_def)
qed

lemma keeps_env_WriteFile [inv_intros]: "keeps_env (os_WriteFile p b)"
  unfolding os_WriteFile_def by (intro inv_intros)

lemma createKustomization_wrote:
  assumes "plain_target w (path_clean (path_join [path, DefaultKustomizationFileName k]))"
    and "createKustomization k path single w = (r, w')"
  shows "wrote_file (path_clean (path_join [path, DefaultKustomizationFileName k])) w w'"
  using assms(2)[unfolded createKustomization_def]
proof (cases rule: io_bind_cases)
  case (fail e)
  with readsD[OF detect_quiet(1) fail(1)] show ?thesis by (simp add: wrote_file_def)
next
  case (ok paths w1)
  have w1: "nodes w1 = nodes w" using readsD[OF detect_quiet(1) ok(1)] .
  from ok(2) show ?thesis
  proof (cases rule: io_bind_cases)
    case (fail e)
    with w1 show ?thesis by (auto simp: wrote_file_def io_lift_def)
  next
    case (ok kd w2)
    then have w2: "w2 = w1" by (simp add: io_lift_def)
    have "plain_target w1 (path_clean (path_join [path, DefaultKustomizationFileName k]))"
      using assms(1) plain_target_cong[OF w1] by simp
    from os_WriteFile_wrote[OF this ok(2)[unfolded w2]] w1 show ?thesis by (simp add: wrote_file_def)
  qed
qed

lemma keeps_env_create [inv_intros]: "keeps_env (createKustomization k path single)"
  unfolding createKustomization_def by (intro inv_intros)

lemma os_Remove_undoes:
  assumes "wrote_file q w w'" and "nodes w q = None" and "q = path_clean p" and "no_faults w'"
  shows "nodes (snd (os_Remove p w')) = nodes w"
proof -
  consider "nodes w' = nodes w" | c where "nodes w' = (nodes w)(q := Some (File c))"
    using assms(1) by (auto simp: wrote_file_def)
  then show ?thesis
  proof cases
    case 1
    with assms show ?thesis by (simp add: os_Remove_def syscall_def no_faults_def Let_def)
  next
    case 2
    then have "nodes w' (path_clean p) = Some (File c)" using assms(3) by simp
    from os_Remove_file[OF this assms(4), of "fst (os_Remove p w')" "snd (os_Remove p w')"] 2 assms(2,3)
    show ?thesis by (auto simp: fun_upd_idem)
  qed
qed

lemma with_kustomization_undone:
  assumes "nodes w (path_clean (path_join [path, DefaultKustomizationFileName k])) = None" and "no_faults w"
  shows "nodes (snd (with_kustomization k (path_join [path, DefaultKustomizationFileName k]) path single w)) = nodes w"
proof -
  let ?kf = "path_join [path, DefaultKustomizationFileName k]"
  obtain r1 w1 where c: "createKustomization k path single w = (r1, w1)" by fastforce
  have wr: "wrote_file (path_clean ?kf) w w1"
    by (rule createKustomization_wrote[OF _ c]) (simp add: plain_target_def assms(1))
  have nf: "no_faults w1" by (rule no_faults_step[OF keeps_env_create c assms(2)])
  obtain r2 where b: "io_bind (io_err (wrap ''failed create kustomization'') (createKustomization k path single))
      (\<lambda>_. run_kustomizer k path) w = (r2, w1)"
    using c by (cases r1) (auto simp: io_bind_def io_err_def run_kustomizer_def)
  show ?thesis
    using os_Remove_undoes[OF wr assms(1) refl nf]
    by (simp add: with_kustomization_def io_defer_def io_drop_def b)
qed

text \<open>
  C32. Building an overlay directory leaves the file system as it found it, whether the build
  succeeds or fails and whether the directory has a kustomization file or not: the file that
  is generated for the run is removed again. (No system call fails, and nothing but a regular
  kustomization file, not a dangling link for instance, is at its place.)
\<close>

theorem overlay_directory_is_left_alone:
  assumes "no_faults w" and "stat_node w path = Inr Directory" and "path \<noteq> ''/dev/stdin''" and "path \<noteq> ''-''"
    and "case nodes w (path_clean (path_join [path, DefaultKustomizationFileName k])) of
           None \<Rightarrow> True | Some nd \<Rightarrow> node_is_regular nd"
  shows "nodes (snd (Kustomize k stdin cwd path w)) = nodes w"
proof -
  let ?kf = "path_join [path, DefaultKustomizationFileName k]"
  let ?w1 = "w\<lparr>clock := Suc (clock w)\<rparr>"
  have pt: "plain_target (w\<lparr>clock := c\<rparr>) (path_clean ?kf)" for c using assms(5) by (simp add: plain_target_def)
  have st: "os_stat ?kf w = (case nodes w (path_clean ?kf) of
      None \<Rightarrow> (Inl (PathError ''stat'' ?kf ErrNotExist), ?w1) | Some nd \<Rightarrow> (Inr nd, ?w1))"
    using assms(1) resolve_plain[OF pt]
    by (simp add: os_stat_def syscall_def no_faults_def stat_node_def split: option.split)
  show ?thesis
  proof (cases "nodes w (path_clean ?kf)")
    case (Some nd)
    with st show ?thesis by (simp add: Kustomize_def Let_def io_try_def run_kustomizer_def)
  next
    case None
    let ?w2 = "w\<lparr>clock := Suc (Suc (clock w))\<rparr>"
    have "os_stat path ?w1 = (Inr Directory, ?w2)"
      using assms(1,2) by (simp add: os_stat_def syscall_def no_faults_def stat_node_def resolve_def)
    then have "Kustomize k stdin cwd path w = with_kustomization k ?kf path False ?w2"
      using None st assms(3,4) by (simp add: Kustomize_def Let_def io_try_def io_bind_def)
    moreover have "no_faults ?w2" using assms(1) by (simp add: no_faults_def)
    ultimately show ?thesis using with_kustomization_undone[of ?w2 path k False] None by simp
  qed
qed

definition sample_kustomize :: "string list kustomize_ext" where
  "sample_kustomize =
     \<lparr>RecognizedKustomizationFileNames = [''kustomization.yaml'', ''kustomization.yml'', ''Kustomization''],
      SliceFromBytes = (\<lambda>b. None), MarshalKustomization = (\<lambda>ps. Inr (concat ps)),
      kustomizer_Run = (\<lambda>fs p. Inr [p])\<rparr>"

theorem overlay_directory_is_left_alone_witness:
  "nodes (snd (Kustomize sample_kustomize (Inr '''') (Inr ''/'') ''/o'' small_world)) = nodes small_world"
proof (rule overlay_directory_is_left_alone)
  have "path_clean (path_join [''/o'', DefaultKustomizationFileName sample_kustomize]) = ''/o/kustomization.yaml''"
    by code_simp
  then show "case nodes small_world (path_clean (path_join [''/o'', DefaultKustomizationFileName sample_kustomize])) of
      None \<Rightarrow> True | Some nd \<Rightarrow> node_is_regular nd"
    by (simp add: small_world_def)
  show "stat_node small_world ''/o'' = Inr Directory" by code_simp
qed (simp_all add: no_faults_def small_world_def)

text \<open>
  The name \<open>-\<close> for the standard input is looked up as a file before it is recognized, so it
  works only where a file of that name exists.
\<close>

lemma dash_is_not_stdin:
  assumes "no_faults w" and "nodes w ''-'' = None" and "nodes w (path_clean (path_join [''-'', DefaultKustomizationFileName k])) = None"
  shows "fst (Kustomize k stdin cwd ''-'' w) = Inl (PathError ''stat'' ''-'' ErrNotExist)"
proof -
  have c: "path_clean ''-'' = ''-''" by code_simp
  have 1: "resolve (w\<lparr>clock := n\<rparr>) ''-'' = Inr ''-''" for n
    using resolve_plain[of "w\<lparr>clock := n\<rparr>" "''-''"] assms(2) unfolding c by (simp add: plain_target_def)
  have 2: "resolve (w\<lparr>clock := n\<rparr>) (path_join [''-'', DefaultKustomizationFileName k]) =
      Inr (path_clean (path_join [''-'', DefaultKustomizationFileName k]))" for n
    by (rule resolve_plain) (use assms(3) in \<open>simp add: plain_target_def\<close>)
  show ?thesis
    using assms by (simp add: Kustomize_def Let_def io_try_def io_bind_def os_stat_def syscall_def no_faults_def
        stat_node_def 1 2)
qed

end
