(* ===== verification/HelmBuild.thy ===== *)
theory HelmBuild
  imports HelmRepo PostRender Kustomize
begin

text \<open>
  Building a HelmRelease (\<open>Build\<close>, \<open>getRepository\<close> and \<open>renderRelease\<close> in
  \<open>internal/build/helm.go\<close>): decode it, find its repository in the index, build the chart,
  compose the values, render, and hand the manifests to kustomize through a temporary directory.
  Helm's loader and its install action are parameters; the action is given the whole
  configuration that the code makes for it.
\<close>

section \<open>Rendering\<close>

record install_client =
  ReleaseName :: string
  ic_Namespace :: string
  DryRun :: bool
  IncludeCRDs :: bool
  ic_KubeVersion :: kube_version
  ClientOnly :: bool
  Timeout :: nat
  ic_DisableHooks :: bool
  ic_DisableOpenAPIValidation :: bool
  SkipSchemaValidation :: bool
  Devel :: bool
  EnableDNS :: bool
  ic_APIVersions :: "string list"
  PostRenderer :: "(string \<Rightarrow> go_error + string) option"

record release =
  Manifest :: string
  Hooks :: "string list"

record ('q, 'f, 'm) build_ext =
  bx_kustomize :: "'m kustomize_ext"
  bx_render :: "('q, 'f) render_ext"
  bx_stdin :: "go_error + string"
  bx_cwd :: "go_error + string"
  loader_Load :: "(string \<Rightarrow> node option) \<Rightarrow> string \<Rightarrow> go_error + chart"
  DefaultVersionSet :: "string list"
  RunInstall :: "install_client \<Rightarrow> chart \<Rightarrow> values \<Rightarrow> go_error + release"

definition CRDsSkip :: string where "CRDsSkip = ''Skip''"
definition CRDsCreate :: string where "CRDsCreate = ''Create''"
definition CRDsCreateReplace :: string where "CRDsCreateReplace = ''CreateReplace''"

definition validateCRDsPolicy :: "string \<Rightarrow> string \<Rightarrow> go_error + string" where
  "validateCRDsPolicy policy defaultValue =
     (if policy = '''' then Inr defaultValue
      else if policy = CRDsSkip then Inr policy
      else if policy = CRDsCreate then Inr policy
      else if policy = CRDsCreateReplace then Inr policy
      else Inl (ErrorString (''invalid CRD policy '' @ sq policy @
             '' defined in field CRDsPolicy, valid values are '' @ sq CRDsSkip @ '', '' @ sq CRDsCreate @
             '' or '' @ sq CRDsCreateReplace)))"

definition install_config ::
    "('q, 'f, 'm) build_ext \<Rightarrow> helm_opts \<Rightarrow> helm_release \<Rightarrow> combined_renderer option \<Rightarrow> install_client" where
  "install_config bx opts hr renderer =
     (let ns = (if GetReleaseNamespace hr = '''' then ''default'' else GetReleaseNamespace hr);
          ins = GetInstall hr in
      \<lparr>ReleaseName = GetReleaseName hr, ic_Namespace = ns, DryRun = True,
       IncludeCRDs = (if SkipCRDs ins \<or> CRDs ins = CRDsSkip then False else True),
       ic_KubeVersion = KubeVersion opts, ClientOnly = True, Timeout = GetTimeout ins,
       ic_DisableHooks = DisableHooks ins, ic_DisableOpenAPIValidation = DisableOpenAPIValidation ins,
       SkipSchemaValidation = DisableSchemaValidation ins, Devel = True, EnableDNS = True,
       ic_APIVersions = DefaultVersionSet bx @ APIVersions opts,
       PostRenderer = map_option (combined_Run (bx_render bx)) renderer\<rparr>)"

definition renderRelease ::
    "('q, 'f, 'm) build_ext \<Rightarrow> helm_opts \<Rightarrow> helm_release \<Rightarrow> values \<Rightarrow> build \<Rightarrow> release io" where
  "renderRelease bx opts hr values b w =
     (bindE (loader_Load bx (nodes w) (bld_Path b)) (\<lambda>ch.
      bindE (postRenderers hr) (\<lambda>renderer.
      let ins = GetInstall hr; legacyCRDsPolicy = (if SkipCRDs ins then CRDsSkip else CRDsCreate) in
      bindE (validateCRDsPolicy (CRDs ins) legacyCRDsPolicy) (\<lambda>_.
      RunInstall bx (install_config bx opts hr renderer) ch values))), w)"

section \<open>The manifests on their way to kustomize\<close>

definition hook_name :: "nat \<Rightarrow> string" where
  "hook_name i = ''hook_'' @ dec_of_nat i @ ''.yaml''"

fun write_hooks :: "string \<Rightarrow> nat \<Rightarrow> string list \<Rightarrow> unit io" where
  "write_hooks d i [] = io_return ()"
| "write_hooks d i (hook # hooks) =
     io_bind (os_WriteFile (path_join [d, hook_name i]) hook) (\<lambda>_.
     write_hooks d (Suc i) hooks)"

definition write_release :: "bool \<Rightarrow> release \<Rightarrow> string io" where
  "write_release includeHooks rel =
     io_bind (os_MkdirTemp '''' ''helmrelease'') (\<lambda>ksDir.
     io_bind (os_WriteFile (path_join [ksDir, ''manifest.yaml'']) (Manifest rel)) (\<lambda>_.
     io_bind (if includeHooks then write_hooks ksDir 0 (Hooks rel) else io_return ()) (\<lambda>_.
     io_return ksDir)))"

section \<open>Build\<close>

definition source_group :: string where
  "source_group = ''source.toolkit.fluxcd.io''"

definition getRepository :: "'r kube_ext \<Rightarrow> 'r \<Rightarrow> go_error + kube_object" where
  "getRepository k repository =
     (let copy = SetGvk k repository \<lparr>Group = source_group, Kind = ''HelmRepository'', gvk_Version = ''v1beta2''\<rparr> in
      bindE (mapErr (wrap ''failed marshal repository as yaml'') (AsYAML k copy)) (\<lambda>b.
      mapErr (wrap ''failed to decode into helmrepository'') (Decode k b)))"

definition decode_release :: "'r kube_ext \<Rightarrow> 'r \<Rightarrow> go_error + helm_release" where
  "decode_release k r =
     (let r' = SetGvk k r \<lparr>Group = helm_group, Kind = ''HelmRelease'', gvk_Version = ''v2''\<rparr> in
      bindE (mapErr (wrap ''failed to marshal helmrelease as yaml'') (AsYAML k r')) (\<lambda>raw.
      bindE (mapErr (wrap ''failed to substitute envs'') (EvalEnv k raw)) (\<lambda>substituted.
      bindE (mapErr (wrap ''failed decode resource to helmrelease'') (Decode k substituted)) (\<lambda>obj.
      case obj of
        HelmReleaseObj hr \<Rightarrow> Inr hr
      | _ \<Rightarrow> Inl (ErrorString ''expected type v2.HelmRelease'')))))"

definition inline_chart :: "helm_release \<Rightarrow> go_error + chart_template" where
  "inline_chart hr =
     (case hr_Chart hr of
        Some ct \<Rightarrow> Inr ct
      | None \<Rightarrow>
          Inl (ErrorString (''helmrelease '' @ namespaced_name (hr_Namespace hr) (hr_Name hr) @
            (if hr_ChartRef hr
             then '' uses spec.chartRef, which flux-build does not support; use spec.chart (inline HelmChart template)''
             else '': spec.chart is required''))))"

definition source_key :: "helm_release \<Rightarrow> chart_template \<Rightarrow> obj_ref" where
  "source_key hr ct =
     (let s = ct_SourceRef ct; namespace = (if sr_Namespace s = '''' then hr_Namespace hr else sr_Namespace s) in
      obj_reference source_group (sr_Kind s) (sr_Name s) namespace)"

definition find_source :: "helm_release \<Rightarrow> chart_template \<Rightarrow> 'r resource_index \<Rightarrow> go_error + 'r" where
  "find_source hr ct db =
     (case db (source_key hr ct) of
        Some source \<Rightarrow> Inr source
      | None \<Rightarrow>
          Inl (ErrorString (''no source '' @ bq (ref_String (source_key hr ct)) @ '' found for helmrelease '' @
            bq (namespaced_name (hr_Namespace hr) (hr_Name hr)))))"

text \<open>What happens before the chart is built reads nothing but the resource and the index.\<close>

definition plan_build ::
    "'r kube_ext \<Rightarrow> 'r \<Rightarrow> 'r resource_index \<Rightarrow> go_error + (helm_release \<times> chart_template \<times> kube_object)" where
  "plan_build k r db =
     bindE (decode_release k r) (\<lambda>hr.
     bindE (inline_chart hr) (\<lambda>ct.
     bindE (find_source hr ct db) (\<lambda>source.
     bindE (getRepository k source) (\<lambda>repository.
     Inr (hr, ct, repository)))))"

definition finish_build ::
    "('r, 'v, 'c) helm_ext \<Rightarrow> ('q, 'f, 'm) build_ext \<Rightarrow> helm_opts \<Rightarrow> helm_release \<Rightarrow> values \<Rightarrow> build \<Rightarrow> 'm io" where
  "finish_build x bx opts hr values b =
     io_bind (renderRelease bx opts hr values b) (\<lambda>rel.
     io_bind (write_release (IncludeHelmHooks opts) rel) (\<lambda>ksDir.
     Kustomize (bx_kustomize bx) (bx_stdin bx) (bx_cwd bx) ksDir))"

definition Build ::
    "('r, 'v, 'c) helm_ext \<Rightarrow> ('q, 'f, 'm) build_ext \<Rightarrow> helm \<Rightarrow> 'r \<Rightarrow> 'r resource_index \<Rightarrow> world \<Rightarrow>
     'm outcome \<times> helm \<times> 'r resource_index \<times> world" where
  "Build x bx h r db w =
     (case plan_build (h_kube x h) r db of
        Inl e \<Rightarrow> (Returns (Inl e), h, db, w)
      | Inr (hr, ct, repository) \<Rightarrow>
          (case buildChart x h repository ct db w of
             (Blocks, h1, w1) \<Rightarrow> (Blocks, h1, db, w1)
           | (Returns (Inl e), h1, w1) \<Rightarrow> (Returns (Inl e), h1, db, w1)
           | (Returns (Inr b), h1, w1) \<Rightarrow>
               (case composeValues (h_kube x h) (hx_values x) hr db of
                  (Inl e, db') \<Rightarrow> (Returns (Inl e), h1, db', w1)
                | (Inr values, db') \<Rightarrow>
                    (case finish_build x bx (h_opts h) hr values b w1 of
                       (res, w2) \<Rightarrow> (Returns res, h1, db', w2)))))"

section \<open>What kustomize gets\<close>

lemma WriteFile_ok:
  assumes "plain_target w (path_clean p)" and "os_WriteFile p b w = (Inr (), w')"
  shows "nodes w' = (nodes w)(path_clean p := Some (File b))"
proof -
  obtain q w1 where c: "os_create p w = (Inr q, w1)"
    and r: "io_try (os_write q b) (\<lambda>r. io_try (os_close q) (\<lambda>r'. io_lift (case r of Inl e \<Rightarrow> Inl e | Inr _ \<Rightarrow> r'))) w1 = (Inr (), w')"
    using assms(2)[unfolded os_WriteFile_def] by (rule io_bind_InrE)
  from os_create_plain[OF assms(1) c] have q: "q = path_clean p"
    and w1: "nodes w1 = (nodes w)(q := Some (File []))" by auto
  obtain r2 w2 where wr: "os_write q b w1 = (r2, w2)" by fastforce
  obtain r3 where cl: "os_close q w2 = (r3, w')" and ok: "\<exists>x. r2 = Inr x"
    using r wr by (cases r2) (auto simp: io_try_def io_lift_def split: prod.splits)
  have "nodes w2 = (nodes w1)(q := Some (File b))"
    using os_write_file[OF _ wr, of "[]"] w1 ok by simp
  moreover have "nodes w' = nodes w2" using readsD[OF reads_calls(5) cl] .
  ultimately show ?thesis using w1 q by simp
qed

fun hook_files :: "string \<Rightarrow> nat \<Rightarrow> string list \<Rightarrow> (string \<Rightarrow> node option) \<Rightarrow> string \<Rightarrow> node option" where
  "hook_files d i [] fs = fs"
| "hook_files d i (hook # hooks) fs =
     hook_files d (Suc i) hooks (fs(path_join [d, hook_name i] \<mapsto> File hook))"

text \<open>A file system with the manifest of a release and, if they are wanted, its hooks in a directory.\<close>

definition release_files ::
    "bool \<Rightarrow> release \<Rightarrow> string \<Rightarrow> (string \<Rightarrow> node option) \<Rightarrow> string \<Rightarrow> node option" where
  "release_files includeHooks rel d fs =
     (let fs1 = fs(d \<mapsto> Directory, path_join [d, ''manifest.yaml''] \<mapsto> File (Manifest rel)) in
      if includeHooks then hook_files d 0 (Hooks rel) fs1 else fs1)"

lemma plain_hook [simp]: "plain_elem (hook_name i)"
  using slash_dec_of_nat[of i] by (auto simp: plain_elem_def hook_name_def slash_def)

lemma plain_names [simp]: "plain_elem ''manifest.yaml''" "plain_elem ''kustomization.yaml''"
  by code_simp+

lemma join_clean [simp]: "plain_elem n \<Longrightarrow> path_clean (path_join [d, n]) = path_join [d, n]"
  by (rule path_join_clean) (auto simp: plain_elem_def)

lemma write_hooks_ok:
  assumes "write_hooks d i hooks w = (Inr (), w')" and "\<And>j. plain_target w (path_join [d, hook_name j])"
  shows "nodes w' = hook_files d i hooks (nodes w)"
  using assms
proof (induction hooks arbitrary: i w)
  case Nil
  then show ?case by (simp add: io_return_def)
next
  case (Cons hook hooks)
  obtain w1 where w1: "os_WriteFile (path_join [d, hook_name i]) hook w = (Inr (), w1)"
    and rest: "write_hooks d (Suc i) hooks w1 = (Inr (), w')"
    using Cons.prems(1) by (auto elim: io_bind_InrE)
  have n1: "nodes w1 = (nodes w)(path_join [d, hook_name i] := Some (File hook))"
    using WriteFile_ok[OF _ w1] Cons.prems(2) by simp
  have "plain_target w1 (path_join [d, hook_name j])" for j
    using Cons.prems(2)[of j] by (simp add: plain_target_def n1)
  from Cons.IH[OF rest this] show ?case by (simp add: n1 del: fun_upd_apply)
qed

lemma hook_files_other:
  "(\<And>j. q \<noteq> path_join [d, hook_name j]) \<Longrightarrow> hook_files d i hooks fs q = fs q"
proof (induction hooks arbitrary: i fs)
  case (Cons hook hooks)
  define fs' where "fs' = fs(path_join [d, hook_name i] \<mapsto> File hook)"
  have "fs' q = fs q" using Cons.prems[of i] by (simp add: fs'_def)
  with Cons.IH[OF Cons.prems, of "Suc i" fs'] show ?case by (simp add: fs'_def[symmetric])
qed simp

text \<open>Nothing lies below a path that is not there, and random names hold no slash.\<close>

definition tree_closed :: "world \<Rightarrow> bool" where
  "tree_closed w \<longleftrightarrow>
     (\<forall>d n. nodes w d = None \<longrightarrow> path_clean d = d \<longrightarrow> plain_elem n \<longrightarrow> nodes w (path_join [d, n]) = None)"

definition rand_plain :: "world \<Rightarrow> bool" where
  "rand_plain w \<longleftrightarrow> (\<forall>k. slash \<notin> set (rand w k))"

lemma join_neq_dir: "plain_elem n \<Longrightarrow> path_join [d, n] \<noteq> d"
  by (metis append_self_conv list.distinct(1) path_join_elem(1))

lemma MkdirTemp_name:
  assumes "os_MkdirTemp '''' ''helmrelease'' w = (Inr d, w')" and "rand_plain w"
  shows "\<exists>b x. path_elems d = b @ [''helmrelease'' @ x]"
proof -
  have t: "temp_pattern ''helmrelease'' = (''helmrelease'', '''')" by code_simp
  obtain v where "temp_name 10000 v (tempdir w) ''helmrelease'' = Some d" and "rand v = rand w"
    using assms(1)
    by (auto simp: os_MkdirTemp_def make_temp_def elim!: syscall_cases split: option.splits)
  then obtain k where d: "d = path_join [tempdir w, ''helmrelease'' @ rand w k]"
    using temp_name_new t by fastforce
  have "plain_elem (''helmrelease'' @ rand w k)"
    using assms(2) by (auto simp: rand_plain_def plain_elem_def slash_def)
  from path_join_elem(1)[OF this, of "tempdir w"] show ?thesis unfolding d by blast
qed

lemma write_release_ok:
  assumes run: "write_release inc rel w = (Inr d, w')" and tc: "tree_closed w" and rp: "rand_plain w"
  shows "nodes w d = None \<and> path_clean d = d \<and> nodes w' = release_files inc rel d (nodes w) \<and>
    (\<exists>b x. path_elems d = b @ [''helmrelease'' @ x])"
proof -
  have stem: "temp_stem ''helmrelease''" by code_simp
  obtain w1 w2 where mk: "os_MkdirTemp '''' ''helmrelease'' w = (Inr d, w1)"
    and wf: "os_WriteFile (path_join [d, ''manifest.yaml'']) (Manifest rel) w1 = (Inr (), w2)"
    and hk: "(if inc then write_hooks d 0 (Hooks rel) else io_return ()) w2 = (Inr (), w')"
    using run by (auto simp: write_release_def io_return_def elim!: io_bind_InrE)
  from os_MkdirTemp_cases[OF mk stem] have d: "nodes w d = None" "path_clean d = d"
    and n1: "nodes w1 = (nodes w)(d := Some Directory)" by auto
  have none: "nodes w1 (path_join [d, n]) = None" if "plain_elem n" for n
    using tc d that join_neq_dir[OF that, of d] by (simp add: tree_closed_def n1)
  have n2: "nodes w2 = (nodes w)(d \<mapsto> Directory, path_join [d, ''manifest.yaml''] \<mapsto> File (Manifest rel))"
    using WriteFile_ok[OF _ wf] none[of "''manifest.yaml''"] n1 by (simp add: plain_target_def)
  have pt: "plain_target w2 (path_join [d, hook_name j])" for j
    using none[of "hook_name j"] join_neq_dir[of "hook_name j" d] n1 by (simp add: plain_target_def n2)
  have "nodes w' = release_files inc rel d (nodes w)"
    using hk write_hooks_ok[OF _ pt, of 0 "Hooks rel" w'] n2
    by (cases inc) (simp_all add: release_files_def io_return_def Let_def del: fun_upd_apply)
  with d MkdirTemp_name[OF mk rp] show ?thesis by blast
qed

lemma hook_name_neq [simp]: "hook_name j \<noteq> ''kustomization.yaml''" "hook_name j \<noteq> ''manifest.yaml''"
  by (simp_all add: hook_name_def)

lemma resolve_dir: "nodes w (path_clean p) = Some Directory \<Longrightarrow> resolve w p = Inr (path_clean p)"
  by (simp add: resolve_def numeral_eq_Suc)

lemma Kustomize_fresh_directory:
  assumes run: "Kustomize k stdin cwd d w = (Inr m, w')" and d: "nodes w d = Some Directory" "path_clean d = d"
    and name: "path_elems d = b @ [''helmrelease'' @ x]"
    and kf: "DefaultKustomizationFileName k = ''kustomization.yaml''"
    and none: "nodes w (path_join [d, ''kustomization.yaml'']) = None"
  shows "\<exists>kd. let fs = (nodes w)(path_join [d, ''kustomization.yaml''] \<mapsto> File kd) in
    kustomizer_Run k fs d = Inr m \<and> (nodes w' = nodes w \<or> nodes w' = fs)"
proof -
  let ?kf = "path_join [d, ''kustomization.yaml'']"
  have "path_elems ''-'' = [''-'']" "path_elems ''/dev/stdin'' = [''dev'', ''stdin'']" by code_simp+
  with name have d': "d \<noteq> ''-''" "d \<noteq> ''/dev/stdin''" by (auto simp: append_eq_Cons_conv)
  have pt: "plain_target v (path_clean ?kf)" if "nodes v = nodes w" for v
    using none by (simp add: plain_target_def that)
  obtain r1 w1 where st0: "os_stat ?kf w = (r1, w1)" by fastforce
  then obtain e1 where st1: "os_stat ?kf w = (Inl e1, w1)"
    using none resolve_plain[OF pt, of "w\<lparr>clock := Suc (clock w)\<rparr>"]
    by (auto simp: os_stat_def stat_node_def elim!: syscall_cases)
  have n1: "nodes w1 = nodes w" using readsD[OF reads_calls(1) st1] .
  have "io_bind (os_stat d) (\<lambda>st.
          if d = ''/dev/stdin'' \<or> d = ''-'' then from_stdin k stdin ?kf
          else if \<not> node_is_dir st then from_file k cwd ?kf d
          else with_kustomization k ?kf d False) w1 = (Inr m, w')"
    using run st1 by (simp add: Kustomize_def io_try_def kf Let_def)
  then obtain st w2 where st2: "os_stat d w1 = (Inr st, w2)"
    and rest: "(if d = ''/dev/stdin'' \<or> d = ''-'' then from_stdin k stdin ?kf
          else if \<not> node_is_dir st then from_file k cwd ?kf d
          else with_kustomization k ?kf d False) w2 = (Inr m, w')" by (rule io_bind_InrE)
  have n2: "nodes w2 = nodes w" using readsD[OF reads_calls(1) st2] n1 by simp
  have "st = Directory"
    using st2 d n1 resolve_dir[of "w1\<lparr>clock := Suc (clock w1)\<rparr>" d]
    by (auto simp: os_stat_def stat_node_def elim!: syscall_cases)
  with rest d' have wk: "with_kustomization k ?kf d False w2 = (Inr m, w')" by simp
  obtain r3 w3 where c: "createKustomization k d False w2 = (r3, w3)" by fastforce
  from wk c obtain u where r3: "r3 = Inr u" and m: "kustomizer_Run k (nodes w3) d = Inr m"
    and w': "w' = snd (io_drop (os_Remove ?kf) w3)"
    by (cases r3) (auto simp: with_kustomization_def io_defer_def io_bind_def io_err_def run_kustomizer_def)
  have "\<exists>kd. nodes w3 = (nodes w)(?kf \<mapsto> File kd)"
  proof -
    obtain ds w4 where dt: "detectResources k d False w2 = (Inr ds, w4)"
      and r4: "io_bind (io_lift (MarshalKustomization k ds)) (\<lambda>kd. os_WriteFile ?kf kd) w4 = (Inr u, w3)"
      using c unfolding r3 createKustomization_def kf by (rule io_bind_InrE)
    have n4: "nodes w4 = nodes w" using readsD[OF detect_quiet(1) dt] n2 by simp
    obtain kd where "os_WriteFile ?kf kd w4 = (Inr (), w3)"
      using r4 by (auto simp: io_lift_def elim: io_bind_InrE)
    from WriteFile_ok[OF pt[OF n4] this] n4 show ?thesis by auto
  qed
  then obtain kd where n3: "nodes w3 = (nodes w)(?kf \<mapsto> File kd)" by blast
  have "nodes w' = nodes w3 \<or> nodes w' = (nodes w3)(?kf := None)"
    unfolding w' io_drop_def
    by (cases "os_Remove ?kf w3") (auto simp: os_Remove_def Let_def elim!: syscall_cases split: option.splits if_splits)
  with n3 m none show ?thesis by (auto simp: Let_def fun_upd_idem)
qed

text \<open>
  C36. A release that is built was rendered, and kustomize saw exactly what was rendered: a new
  directory that holds the manifest, the hooks if they are to be included, the kustomization
  file that is made for the run, and nothing else, while no other file is touched. This holds
  under any schedule of failures. The directory itself is not removed.
\<close>

theorem kustomize_gets_the_release:
  assumes "finish_build x bx opts hr values b w = (Inr m, w')" and "tree_closed w" and "rand_plain w"
    and "DefaultKustomizationFileName (bx_kustomize bx) = ''kustomization.yaml''"
  shows "\<exists>rel d kd. let fs = release_files (IncludeHelmHooks opts) rel d (nodes w);
      fs' = fs(path_join [d, ''kustomization.yaml''] \<mapsto> File kd) in
    fst (renderRelease bx opts hr values b w) = Inr rel \<and> nodes w d = None \<and>
    kustomizer_Run (bx_kustomize bx) fs' d = Inr m \<and> (nodes w' = fs \<or> nodes w' = fs')"
proof -
  obtain rel w1 d w2 where rr: "renderRelease bx opts hr values b w = (Inr rel, w1)"
    and wr: "write_release (IncludeHelmHooks opts) rel w1 = (Inr d, w2)"
    and ku: "Kustomize (bx_kustomize bx) (bx_stdin bx) (bx_cwd bx) d w2 = (Inr m, w')"
    using assms(1) by (auto simp: finish_build_def elim!: io_bind_InrE)
  have w1: "w1 = w" using rr by (simp add: renderRelease_def)
  from write_release_ok[OF wr[unfolded w1] assms(2,3)] obtain c y where d: "nodes w d = None" "path_clean d = d"
    and n2: "nodes w2 = release_files (IncludeHelmHooks opts) rel d (nodes w)"
    and nm: "path_elems d = c @ [''helmrelease'' @ y]" by blast
  have other: "release_files inc rel d (nodes w) q = ((nodes w)(d \<mapsto> Directory)) q"
    if "\<And>j. q \<noteq> path_join [d, hook_name j]" "q \<noteq> path_join [d, ''manifest.yaml'']" for q inc
  proof -
    have "hook_files d 0 (Hooks rel) fs q = fs q" for fs by (rule hook_files_other[OF that(1)])
    then show ?thesis
      by (cases inc) (simp_all only: release_files_def Let_def if_True if_False, simp_all add: that(2))
  qed
  have "nodes w2 d = Some Directory"
    unfolding n2 by (subst other) (use join_neq_dir in \<open>auto dest: sym\<close>)
  moreover have "nodes w2 (path_join [d, ''kustomization.yaml'']) = None"
  proof -
    have "path_join [d, ''kustomization.yaml''] \<noteq> path_join [d, hook_name j]" for j
      by (metis hook_name_neq(1) path_join_elem_inject plain_hook plain_names(2))
    moreover have "path_join [d, ''kustomization.yaml''] \<noteq> path_join [d, ''manifest.yaml'']"
      by (simp add: path_join_elem_inject)
    ultimately show ?thesis
      using assms(2) d join_neq_dir[of "''kustomization.yaml''" d]
      unfolding n2 tree_closed_def by (subst other) auto
  qed
  ultimately show ?thesis
    using Kustomize_fresh_directory[OF ku _ d(2) nm assms(4)] rr d(1) by (auto simp: n2 Let_def)
qed

subsection \<open>An example\<close>

lemma WriteFile_runs:
  assumes "no_faults w" and "plain_target w (path_clean p)" and "parent_ok w (path_clean p) = None"
  shows "\<exists>w'. os_WriteFile p b w = (Inr (), w') \<and> nodes w' = (nodes w)(path_clean p := Some (File b)) \<and> same_env w w'"
proof -
  have nf: "fault w t = None" for t using assms(1) by (simp add: no_faults_def)
  have "parent_ok (w\<lparr>clock := c\<rparr>) q = parent_ok w q" for c q
    by (simp add: parent_ok_def stat_node_def resolve_def)
  then have "\<exists>w1. os_create p w = (Inr (path_clean p), w1) \<and> nodes w1 (path_clean p) = Some (File []) \<and>
      same_env w w1"
    using assms(2,3) resolve_plain[of "w\<lparr>clock := Suc (clock w)\<rparr>" p]
    by (cases "nodes w (path_clean p)")
      (auto simp: os_create_def syscall_def nf Let_def plain_target_def node_is_regular_iff same_env_def)
  then obtain w1 where c: "os_create p w = (Inr (path_clean p), w1)" and e1: "same_env w w1"
    and n1: "nodes w1 (path_clean p) = Some (File [])" by blast
  have nf1: "fault w1 t = None" for t using e1 nf by (simp add: same_env_def)
  have "\<exists>w'. os_WriteFile p b w = (Inr (), w')"
    using c by (simp add: os_WriteFile_def io_bind_def io_try_def os_write_def nf1 Let_def append_data_def n1
        os_close_def syscall_def io_lift_def)
  then obtain w' where w': "os_WriteFile p b w = (Inr (), w')" ..
  have "same_env w w'" using keeps_envD[OF keeps_env_WriteFile w'] .
  with w' WriteFile_ok[OF assms(2) w'] show ?thesis by blast
qed

definition letter_build_ext :: "(char, string, string list) build_ext" where
  "letter_build_ext =
     \<lparr>bx_kustomize = sample_kustomize, bx_render = letter_ext, bx_stdin = Inr '''', bx_cwd = Inr ''/'',
      loader_Load = (\<lambda>fs p. Inr (Chart empty_metadata [] [] [] [] None)), DefaultVersionSet = [''v1''],
      RunInstall = (\<lambda>c ch vs. bindE (the (PostRenderer c) ''aa'') (\<lambda>m. Inr \<lparr>Manifest = m, Hooks = [''h'']\<rparr>))\<rparr>"

definition plain_world :: world where
  "plain_world = small_world\<lparr>rand := (\<lambda>_. ''x''), nodes := [''/'' \<mapsto> Directory, ''/t'' \<mapsto> Directory]\<rparr>"

definition hook_opts :: helm_opts where
  "hook_opts = (sample_opts (NullCache \<lparr>null_dir = ''/t''\<rparr>))\<lparr>IncludeHelmHooks := True\<rparr>"

lemma plain_world_closed: "tree_closed plain_world" "rand_plain plain_world"
proof -
  show "rand_plain plain_world" by (simp add: rand_plain_def plain_world_def slash_def)
  show "tree_closed plain_world"
    unfolding tree_closed_def
  proof (intro allI impI)
    fix d n assume d: "nodes plain_world d = None" "path_clean d = d" and n: "plain_elem n"
    have e: "path_elems ''/'' = []" "path_elems ''/t'' = [''t'']" by code_simp+
    have "path_join [d, n] \<noteq> ''/''" using path_join_elem(1)[OF n, of d] e(1) by auto
    moreover have "path_join [d, n] \<noteq> ''/t''"
    proof
      assume j: "path_join [d, n] = ''/t''"
      then have "path_elems d = []" "is_abs d" using path_join_elem[OF n, of d] e(2) by (auto simp: is_abs_def)
      then have "path_clean d = ''/''" by (cases d) (simp_all add: path_clean_def render_path_def slash_def is_abs_def)
      with d(2) have "d = ''/''" by simp
      with d(1) show False by (simp add: plain_world_def)
    qed
    ultimately show "nodes plain_world (path_join [d, n]) = None" by (simp add: plain_world_def)
  qed
qed

definition ks_dir :: string where
  "ks_dir = ''/t/helmreleasex''"

lemma ks_paths:
  "path_clean ks_dir = ks_dir" "path_dir ks_dir = ''/t''" "path_clean ''/t'' = ''/t''"
  "path_join [ks_dir, ''manifest.yaml''] = ks_dir @ ''/manifest.yaml''"
  "path_join [ks_dir, hook_name 0] = ks_dir @ ''/hook_0.yaml''"
  "path_join [ks_dir, ''kustomization.yaml''] = ks_dir @ ''/kustomization.yaml''"
  "path_clean (ks_dir @ ''/manifest.yaml'') = ks_dir @ ''/manifest.yaml''"
  "path_clean (ks_dir @ ''/hook_0.yaml'') = ks_dir @ ''/hook_0.yaml''"
  "path_clean (ks_dir @ ''/kustomization.yaml'') = ks_dir @ ''/kustomization.yaml''"
  "path_dir (ks_dir @ ''/manifest.yaml'') = ks_dir" "path_dir (ks_dir @ ''/hook_0.yaml'') = ks_dir"
  "path_dir (ks_dir @ ''/kustomization.yaml'') = ks_dir"
  "path_rel ks_dir ks_dir = Inr ''.''"
  by code_simp+

lemma parent_dir_ok: "nodes w (path_clean (path_dir p)) = Some Directory \<Longrightarrow> parent_ok w p = None"
  by (simp add: parent_ok_def stat_node_def resolve_dir)

lemma MkdirTemp_example:
  "\<exists>w. os_MkdirTemp '''' ''helmrelease'' plain_world = (Inr ks_dir, w) \<and>
     nodes w = (nodes plain_world)(ks_dir \<mapsto> Directory) \<and> same_env plain_world w"
proof -
  let ?w = "plain_world\<lparr>clock := Suc (clock plain_world)\<rparr>"
  have t: "temp_pattern ''helmrelease'' = (''helmrelease'', '''')" by code_simp
  have j: "path_join [''/t'', ''helmreleasex''] = ks_dir" by code_simp
  have n: "nodes plain_world ks_dir = None" and r: "rand plain_world k = ''x''" for k
    by (simp_all add: plain_world_def ks_dir_def)
  have "temp_name 10000 ?w ''/t'' ''helmrelease'' = Some ks_dir"
    by (subst temp_name.simps) (simp add: t j n r Let_def)
  moreover have "parent_ok ?w ks_dir = None"
    by (rule parent_dir_ok) (simp add: ks_paths, simp add: plain_world_def)
  moreover have "fault plain_world k = None" "tempdir plain_world = ''/t''" for k
    by (simp_all add: plain_world_def small_world_def)
  ultimately show ?thesis
    by (simp add: os_MkdirTemp_def make_temp_def syscall_def Let_def same_env_def)
qed

lemma Kustomize_example:
  assumes env: "same_env plain_world w" and dir: "nodes w ks_dir = Some Directory"
    and none: "nodes w (ks_dir @ ''/kustomization.yaml'') = None"
  shows "\<exists>m w'. Kustomize sample_kustomize stdin cwd ks_dir w = (Inr m, w')"
proof -
  let ?kf = "ks_dir @ ''/kustomization.yaml''"
  have nf: "fault w t = None" and en: "entries w fs p = []" for t fs p
    using env by (simp_all add: same_env_def plain_world_def small_world_def)
  have kn: "DefaultKustomizationFileName sample_kustomize = ''kustomization.yaml''" by code_simp
  have pt: "plain_target v (path_clean ?kf)" if "nodes v = nodes w" for v
    using none by (simp add: plain_target_def that ks_paths)
  have rk: "resolve (w\<lparr>clock := c\<rparr>) ?kf = Inr ?kf" and rd: "resolve (w\<lparr>clock := c\<rparr>) ks_dir = Inr ks_dir" for c
    using resolve_plain[OF pt, of "w\<lparr>clock := c\<rparr>"] resolve_dir[of "w\<lparr>clock := c\<rparr>" ks_dir] dir
    by (simp_all add: ks_paths)
  have ls: "lstat_node (w\<lparr>clock := c\<rparr>) ks_dir = Inr Directory" for c by (simp add: lstat_node_def ks_paths dir)
  obtain n where md: "max_depth = Suc n" by (cases max_depth) (simp_all add: max_depth_def)
  have "\<exists>c. detectResources sample_kustomize ks_dir False (w\<lparr>clock := Suc (Suc (clock w))\<rparr>) = (Inr [], w\<lparr>clock := c\<rparr>)"
    by (simp add: detectResources_def Walk_def os_lstat_def syscall_def nf Let_def ls md os_ReadDir_def rd dir en
        detect_one_def ks_paths io_try_def io_bind_def io_return_def, rule exI, rule refl)
  then obtain c where dt: "detectResources sample_kustomize ks_dir False (w\<lparr>clock := Suc (Suc (clock w))\<rparr>) =
      (Inr [], w\<lparr>clock := c\<rparr>)" ..
  have "parent_ok (w\<lparr>clock := c\<rparr>) (path_clean ?kf) = None"
    by (rule parent_dir_ok) (simp add: ks_paths dir)
  then obtain w3 where wf: "os_WriteFile ?kf [] (w\<lparr>clock := c\<rparr>) = (Inr (), w3)"
    using WriteFile_runs[of "w\<lparr>clock := c\<rparr>" ?kf "[]"] pt nf by (auto simp: no_faults_def)
  have st: "stat_node (w\<lparr>clock := k\<rparr>) ?kf = Inl ErrNotExist" "stat_node (w\<lparr>clock := k\<rparr>) ks_dir = Inr Directory" for k
    by (simp_all add: stat_node_def rk rd none dir)
  have "ks_dir \<noteq> ''-''" "ks_dir \<noteq> ''/dev/stdin''" by (simp_all add: ks_dir_def)
  moreover have "MarshalKustomization sample_kustomize [] = Inr []"
    "run_kustomizer sample_kustomize d v = (Inr [d], v)" for d v
    by (simp_all add: sample_kustomize_def run_kustomizer_def)
  ultimately show ?thesis
    using wf dt
    by (simp add: Kustomize_def kn ks_paths Let_def io_try_def io_bind_def os_stat_def syscall_def nf st
        with_kustomization_def io_defer_def io_err_def createKustomization_def io_lift_def)
qed

theorem kustomize_gets_the_release_witness:
  "\<exists>rel d kd fs w' m. finish_build sample_helm_ext letter_build_ext hook_opts letter_release [] empty_build plain_world = (Inr m, w') \<and>
    fs = release_files True rel d (nodes plain_world) \<and> rel = \<lparr>Manifest = ''dd'', Hooks = [''h'']\<rparr> \<and>
    kustomizer_Run sample_kustomize (fs(path_join [d, ''kustomization.yaml''] \<mapsto> File kd)) d = Inr m"
proof -
  let ?rel = "\<lparr>Manifest = ''dd'', Hooks = [''h'']\<rparr>"
  have rr: "renderRelease letter_build_ext hook_opts letter_release [] empty_build plain_world = (Inr ?rel, plain_world)"
    by (simp add: renderRelease_def letter_build_ext_def install_config_def postRenderers_def letter_release_def
        add_kustomize_def AddRenderer_def Len_def NewCombinedPostRenderer_def NewPostRendererKustomize_def
        NewPostRendererOriginLabels_def NewPostRendererNamespace_def validateCRDsPolicy_def renderer_Run_def
        kustomize_Run_def writeFile_def writeToFile_def buildKustomization_def origin_Run_def namespace_Run_def
        set_namespace_def letter_ext_def originLabels_def helm_output_def)
  obtain w1 where mk: "os_MkdirTemp '''' ''helmrelease'' plain_world = (Inr ks_dir, w1)"
    and n1: "nodes w1 = (nodes plain_world)(ks_dir \<mapsto> Directory)" and e1: "same_env plain_world w1"
    using MkdirTemp_example by blast
  have nf: "no_faults plain_world" by (simp add: no_faults_def plain_world_def small_world_def)
  have p: "nodes plain_world (ks_dir @ s) = None" for s by (simp add: plain_world_def ks_dir_def)
  have "parent_ok w1 (ks_dir @ ''/manifest.yaml'') = None"
    by (rule parent_dir_ok) (simp add: ks_paths n1)
  then obtain w2 where wf: "os_WriteFile (ks_dir @ ''/manifest.yaml'') ''dd'' w1 = (Inr (), w2)"
    and n2: "nodes w2 = (nodes w1)(ks_dir @ ''/manifest.yaml'' \<mapsto> File ''dd'')" and e2: "same_env w1 w2"
    using WriteFile_runs[of w1 "ks_dir @ ''/manifest.yaml''" "''dd''"] no_faults_env[OF e1 nf] p
    by (auto simp: plain_target_def ks_paths n1)
  have "parent_ok w2 (ks_dir @ ''/hook_0.yaml'') = None"
    by (rule parent_dir_ok) (simp add: ks_paths n1 n2)
  then obtain w3 where wh: "os_WriteFile (ks_dir @ ''/hook_0.yaml'') ''h'' w2 = (Inr (), w3)"
    and n3: "nodes w3 = (nodes w2)(ks_dir @ ''/hook_0.yaml'' \<mapsto> File ''h'')" and e3: "same_env w2 w3"
    using WriteFile_runs[of w2 "ks_dir @ ''/hook_0.yaml''" "''h''"] no_faults_env[OF same_env_trans[OF e1 e2] nf] p
    by (auto simp: plain_target_def ks_paths n1 n2)
  have "same_env plain_world w3" using e1 e2 e3 same_env_trans by blast
  then obtain m w' where ku: "Kustomize sample_kustomize (Inr '''') (Inr ''/'') ks_dir w3 = (Inr m, w')"
    using Kustomize_example[of w3 "Inr ''''" "Inr ''/''"] p by (auto simp: n1 n2 n3)
  have run: "finish_build sample_helm_ext letter_build_ext hook_opts letter_release [] empty_build plain_world = (Inr m, w')"
    using rr mk wf wh ku
    by (simp add: finish_build_def write_release_def io_bind_def io_return_def ks_paths hook_opts_def)
      (simp add: letter_build_ext_def)
  have kn: "DefaultKustomizationFileName (bx_kustomize letter_build_ext) = ''kustomization.yaml''" by code_simp
  from kustomize_gets_the_release[OF run plain_world_closed kn] rr run show ?thesis
    by (auto simp: Let_def hook_opts_def letter_build_ext_def)
qed

end
