(* ===== verification/Action.thy ===== *)
theory Action
  imports Resources "HOL-Library.Multiset"
begin

text \<open>
  The action (\<open>internal/action/action.go\<close>): overlays are built concurrently, their resources
  are indexed, the HelmReleases among them are built by a pool of workers, and one writer
  prints what both produce. The goroutines and channels are a step relation: one rule per
  communication, so every interleaving is a run.

  What a build or an encoding results in is not determined here (\<open>HelmBuild\<close> and \<open>Kustomize\<close>
  model it, \<open>Program\<close> puts them in); but a build may set the version of a resource it takes values
  from, so it may change the resources of the index, never its keys. The library for worker pools
  is not part of the repository; what is used of it is that submitting never waits, that at most
  so many tasks run at a time, that tasks which have not begun may be dropped once the context is
  cancelled, and that \<open>StopAndWait\<close> waits for all the others. A task of the first and the third pool may panic; then a goroutine of its own
  sends the error (\<open>submit\<close>). Tasks of the writer and the indexer are taken to have begun and not
  to panic.
\<close>

section \<open>State\<close>

record ('r, 'm) action =
  AllowFailure :: bool
  act_FailFast :: bool
  Workers :: nat
  Paths :: "string list"
  act_kube :: "'r kube_ext"
  Resources_of :: "'m \<Rightarrow> 'r list"
  is_HelmRelease :: "'r \<Rightarrow> bool"
  act_AsYaml :: "'m \<Rightarrow> go_error + string"

text \<open>What a task of the two pools that build will do next.\<close>

datatype 'm kjob = KRun string | KFail go_error | KManifest 'm | KResource 'm

datatype ('r, 'm) hjob = HQueued 'r | HRun 'r | HFail go_error | HManifest 'm

datatype worker = Recv | Fail go_error | Done

datatype collector = CRecv | CHave go_error | CDone

text \<open>Where \<open>Run\<close> itself is; \<open>Submitting\<close> has the entries of the index it still has to visit.\<close>

datatype main_pc = Kustomizing | Indexing | Submitting "obj_ref set" | Building | Draining
  | Forwarding | Exiting | Exited nat

text \<open>
  The last five fields are no state of the program: they record what was sent to the writer by
  either pool, what the writer took and whether it wrote it, what the builds have made, and the
  errors that were raised and those that the collector received.
\<close>

record ('r, 'm) run =
  main :: main_pc
  kjobs :: "'m kjob multiset"
  hjobs :: "('r, 'm) hjob multiset"
  indexer :: worker
  writer :: worker
  collector :: collector
  forwards :: "go_error multiset"
  resources_ch :: "'m list"
  manifests_ch :: "'m list"
  index :: "'r resource_index"
  cancelled :: bool
  lastErr :: "go_error option"
  printed :: "string list"
  overlays :: "'m list"
  releases :: "'m list"
  taken :: "('m \<times> bool) list"
  made :: "'m multiset"
  received :: "go_error list"

definition init_run :: "('r, 'm) action \<Rightarrow> ('r, 'm) run" where
  "init_run a =
     \<lparr>main = Kustomizing, kjobs = image_mset KRun (mset (Paths a)), hjobs = {#}, indexer = Recv, writer = Recv,
      collector = CRecv, forwards = {#}, resources_ch = [], manifests_ch = [], index = Map.empty,
      cancelled = False, lastErr = None, printed = [], overlays = [], releases = [], taken = [], made = {#},
      received = []\<rparr>"

definition resources_closed :: "('r, 'm) run \<Rightarrow> bool" where
  "resources_closed s \<longleftrightarrow> main s \<noteq> Kustomizing"

definition manifests_closed :: "('r, 'm) run \<Rightarrow> bool" where
  "manifests_closed s \<longleftrightarrow> (case main s of Draining \<Rightarrow> True | Forwarding \<Rightarrow> True | Exiting \<Rightarrow> True | Exited n \<Rightarrow> True | _ \<Rightarrow> False)"

definition errs_closed :: "('r, 'm) run \<Rightarrow> bool" where
  "errs_closed s \<longleftrightarrow> (case main s of Exiting \<Rightarrow> True | Exited n \<Rightarrow> True | _ \<Rightarrow> False)"

text \<open>A send on the channel of errors, which has no buffer: the collector takes the error.\<close>

definition send_err :: "go_error \<Rightarrow> ('r, 'm) run \<Rightarrow> ('r, 'm) run" where
  "send_err e s = s\<lparr>collector := CHave e, received := received s @ [e]\<rparr>"

definition running :: "('r, 'm) hjob \<Rightarrow> bool" where
  "running j = (case j of HQueued r \<Rightarrow> False | _ \<Rightarrow> True)"

definition document :: "string \<Rightarrow> string" where
  "document y = ''---'' @ [CHR 0x0A] @ y"

definition exit_status :: "('r, 'm) action \<Rightarrow> ('r, 'm) run \<Rightarrow> nat" where
  "exit_status a s = (if lastErr s \<noteq> None \<and> \<not> AllowFailure a then 1 else 0)"

section \<open>Steps\<close>

inductive run_step :: "('r, 'm) action \<Rightarrow> ('r, 'm) run \<Rightarrow> ('r, 'm) run \<Rightarrow> bool" for a where
  collect: "collector s = CHave e \<Longrightarrow>
     run_step a s (s\<lparr>collector := CRecv, lastErr := Some e, cancelled := cancelled s \<or> act_FailFast a\<rparr>)"
| collector_done: "collector s = CRecv \<Longrightarrow> errs_closed s \<Longrightarrow> run_step a s (s\<lparr>collector := CDone\<rparr>)"
| kustomize_ok: "kjobs s = add_mset (KRun p) J \<Longrightarrow>
     run_step a s (s\<lparr>kjobs := add_mset (KManifest m) J, made := add_mset m (made s)\<rparr>)"
| kustomize_error: "kjobs s = add_mset (KRun p) J \<Longrightarrow> run_step a s (s\<lparr>kjobs := add_mset (KFail e) J\<rparr>)"
| kustomize_panic: "kjobs s = add_mset (KRun p) J \<Longrightarrow>
     run_step a s (s\<lparr>kjobs := J, forwards := add_mset e (forwards s)\<rparr>)"
| kustomize_drop: "kjobs s = add_mset (KRun p) J \<Longrightarrow> cancelled s \<Longrightarrow> run_step a s (s\<lparr>kjobs := J\<rparr>)"
| kustomize_report: "kjobs s = add_mset (KFail e) J \<Longrightarrow> collector s = CRecv \<Longrightarrow>
     run_step a s (send_err e (s\<lparr>kjobs := J\<rparr>))"
| kustomize_manifest: "kjobs s = add_mset (KManifest m) J \<Longrightarrow> length (manifests_ch s) < Workers a \<Longrightarrow>
     run_step a s (s\<lparr>kjobs := add_mset (KResource m) J, manifests_ch := manifests_ch s @ [m],
                    overlays := overlays s @ [m]\<rparr>)"
| kustomize_resource: "kjobs s = add_mset (KResource m) J \<Longrightarrow> length (resources_ch s) < length (Paths a) \<Longrightarrow>
     run_step a s (s\<lparr>kjobs := J, resources_ch := resources_ch s @ [m]\<rparr>)"
| index_push: "indexer s = Recv \<Longrightarrow> resources_ch s = m # ms \<Longrightarrow>
     Push (act_kube a) (Resources_of a m) (index s) = (None, idx) \<Longrightarrow>
     run_step a s (s\<lparr>resources_ch := ms, index := idx\<rparr>)"
| index_error: "indexer s = Recv \<Longrightarrow> resources_ch s = m # ms \<Longrightarrow>
     Push (act_kube a) (Resources_of a m) (index s) = (Some e, idx) \<Longrightarrow>
     run_step a s (s\<lparr>resources_ch := ms, index := idx, indexer := Fail e\<rparr>)"
| index_report: "indexer s = Fail e \<Longrightarrow> collector s = CRecv \<Longrightarrow>
     run_step a s (send_err e (s\<lparr>indexer := Recv\<rparr>))"
| index_done: "indexer s = Recv \<Longrightarrow> resources_ch s = [] \<Longrightarrow> resources_closed s \<Longrightarrow>
     run_step a s (s\<lparr>indexer := Done\<rparr>)"
| write_ok: "writer s = Recv \<Longrightarrow> manifests_ch s = m # ms \<Longrightarrow> act_AsYaml a m = Inr y \<Longrightarrow>
     run_step a s (s\<lparr>manifests_ch := ms, printed := printed s @ [document y], taken := taken s @ [(m, True)]\<rparr>)"
| write_error: "writer s = Recv \<Longrightarrow> manifests_ch s = m # ms \<Longrightarrow>
     run_step a s (s\<lparr>manifests_ch := ms, writer := Fail e, taken := taken s @ [(m, False)]\<rparr>)"
| write_report: "writer s = Fail e \<Longrightarrow> collector s = CRecv \<Longrightarrow>
     run_step a s (send_err e (s\<lparr>writer := Recv\<rparr>))"
| write_done: "writer s = Recv \<Longrightarrow> manifests_ch s = [] \<Longrightarrow> manifests_closed s \<Longrightarrow>
     run_step a s (s\<lparr>writer := Done\<rparr>)"
| kustomized: "main s = Kustomizing \<Longrightarrow> kjobs s = {#} \<Longrightarrow> run_step a s (s\<lparr>main := Indexing\<rparr>)"
| indexed: "main s = Indexing \<Longrightarrow> indexer s = Done \<Longrightarrow>
     run_step a s (s\<lparr>main := Submitting (dom (index s))\<rparr>)"
| skip: "main s = Submitting R \<Longrightarrow> q \<in> R \<Longrightarrow> index s q = Some r \<Longrightarrow> \<not> is_HelmRelease a r \<Longrightarrow>
     run_step a s (s\<lparr>main := Submitting (R - {q})\<rparr>)"
| submit_release: "main s = Submitting R \<Longrightarrow> q \<in> R \<Longrightarrow> index s q = Some r \<Longrightarrow> is_HelmRelease a r \<Longrightarrow>
     \<not> cancelled s \<Longrightarrow>
     run_step a s (s\<lparr>main := Submitting (R - {q}), hjobs := add_mset (HQueued r) (hjobs s)\<rparr>)"
| break: "main s = Submitting R \<Longrightarrow> q \<in> R \<Longrightarrow> index s q = Some r \<Longrightarrow> is_HelmRelease a r \<Longrightarrow> cancelled s \<Longrightarrow>
     run_step a s (s\<lparr>main := Building\<rparr>)"
| submitted: "main s = Submitting {} \<Longrightarrow> run_step a s (s\<lparr>main := Building\<rparr>)"
| helm_start: "hjobs s = add_mset (HQueued r) J \<Longrightarrow> size (filter_mset running J) < Workers a \<Longrightarrow>
     run_step a s (s\<lparr>hjobs := add_mset (HRun r) J\<rparr>)"
| helm_drop: "hjobs s = add_mset (HQueued r) J \<Longrightarrow> cancelled s \<Longrightarrow> run_step a s (s\<lparr>hjobs := J\<rparr>)"
| helm_ok: "hjobs s = add_mset (HRun r) J \<Longrightarrow> dom idx = dom (index s) \<Longrightarrow>
     run_step a s (s\<lparr>hjobs := add_mset (HManifest m) J, made := add_mset m (made s), index := idx\<rparr>)"
| helm_error: "hjobs s = add_mset (HRun r) J \<Longrightarrow> dom idx = dom (index s) \<Longrightarrow>
     run_step a s (s\<lparr>hjobs := add_mset (HFail e) J, index := idx\<rparr>)"
| helm_panic: "hjobs s = add_mset (HRun r) J \<Longrightarrow> dom idx = dom (index s) \<Longrightarrow>
     run_step a s (s\<lparr>hjobs := J, forwards := add_mset e (forwards s), index := idx\<rparr>)"
| helm_report: "hjobs s = add_mset (HFail e) J \<Longrightarrow> collector s = CRecv \<Longrightarrow>
     run_step a s (send_err e (s\<lparr>hjobs := J\<rparr>))"
| helm_manifest: "hjobs s = add_mset (HManifest m) J \<Longrightarrow> length (manifests_ch s) < Workers a \<Longrightarrow>
     run_step a s (s\<lparr>hjobs := J, manifests_ch := manifests_ch s @ [m], releases := releases s @ [m]\<rparr>)"
| built: "main s = Building \<Longrightarrow> hjobs s = {#} \<Longrightarrow> run_step a s (s\<lparr>main := Draining\<rparr>)"
| drained: "main s = Draining \<Longrightarrow> writer s = Done \<Longrightarrow> run_step a s (s\<lparr>main := Forwarding\<rparr>)"
| forward: "forwards s = add_mset e F \<Longrightarrow> collector s = CRecv \<Longrightarrow>
     run_step a s (send_err e (s\<lparr>forwards := F\<rparr>))"
| forwarded: "main s = Forwarding \<Longrightarrow> forwards s = {#} \<Longrightarrow> run_step a s (s\<lparr>main := Exiting\<rparr>)"
| exit: "main s = Exiting \<Longrightarrow> run_step a s (s\<lparr>main := Exited (exit_status a s)\<rparr>)"

inductive run_reach :: "('r, 'm) action \<Rightarrow> ('r, 'm) run \<Rightarrow> bool" for a where
  start: "run_reach a (init_run a)"
| move: "run_reach a s \<Longrightarrow> run_step a s s' \<Longrightarrow> run_reach a s'"

lemma run_reach_inv:
  assumes "run_reach a s" and "P (init_run a)"
    and "\<And>u u'. run_reach a u \<Longrightarrow> P u \<Longrightarrow> run_step a u u' \<Longrightarrow> P u'"
  shows "P s"
  using assms(1) by induction (auto intro: assms(2,3))

section \<open>Invariants\<close>

fun phase :: "main_pc \<Rightarrow> nat" where
  "phase Kustomizing = 0"
| "phase Indexing = 1"
| "phase (Submitting R) = 2"
| "phase Building = 3"
| "phase Draining = 4"
| "phase Forwarding = 5"
| "phase Exiting = 6"
| "phase (Exited n) = 7"

lemma closed_phases [simp]:
  "resources_closed s \<longleftrightarrow> 1 \<le> phase (main s)"
  "manifests_closed s \<longleftrightarrow> 4 \<le> phase (main s)"
  "errs_closed s \<longleftrightarrow> 6 \<le> phase (main s)"
  by (cases "main s"; simp add: resources_closed_def manifests_closed_def errs_closed_def)+

text \<open>Which tasks and which contents of channels there can be in which phase.\<close>

definition overlays_inv :: "('r, 'm) action \<Rightarrow> ('r, 'm) run \<Rightarrow> bool" where
  "overlays_inv a s \<longleftrightarrow>
     length (resources_ch s) + size (kjobs s) \<le> length (Paths a) \<and>
     (1 \<le> phase (main s) \<longrightarrow> kjobs s = {#}) \<and>
     (indexer s = Done \<longrightarrow> resources_ch s = [] \<and> 1 \<le> phase (main s)) \<and>
     (2 \<le> phase (main s) \<longrightarrow> indexer s = Done) \<and>
     finite (dom (index s)) \<and>
     (case main s of Submitting R \<Rightarrow> R \<subseteq> dom (index s) | _ \<Rightarrow> True)"

definition releases_inv :: "('r, 'm) run \<Rightarrow> bool" where
  "releases_inv s \<longleftrightarrow>
     (phase (main s) \<le> 1 \<longrightarrow> hjobs s = {#} \<and> releases s = []) \<and>
     (4 \<le> phase (main s) \<longrightarrow> hjobs s = {#}) \<and>
     (writer s = Done \<longrightarrow> manifests_ch s = [] \<and> 4 \<le> phase (main s)) \<and>
     (5 \<le> phase (main s) \<longrightarrow> writer s = Done) \<and>
     (6 \<le> phase (main s) \<longrightarrow> forwards s = {#}) \<and>
     (collector s = CDone \<longrightarrow> 6 \<le> phase (main s))"

lemma Push_finite: "finite (dom idx) \<Longrightarrow> finite (dom (snd (Push k rs idx)))"
  by (induction rs arbitrary: idx) (auto split: sum.split)

lemma Push_finite_eq: "Push k rs idx = (r, idx') \<Longrightarrow> finite (dom idx) \<Longrightarrow> finite (dom idx')"
  using Push_finite[of idx k rs] by simp

lemma overlays_inv_step:
  assumes "run_step a s s'" and "overlays_inv a s" and "releases_inv s"
  shows "overlays_inv a s'"
  using assms
  by (induction rule: run_step.induct)
    (auto simp: overlays_inv_def releases_inv_def send_err_def Push_finite_eq split: main_pc.splits)

lemma releases_inv_step:
  assumes "run_step a s s'" and "releases_inv s" and "overlays_inv a s"
  shows "releases_inv s'"
  using assms
  by (induction rule: run_step.induct) (auto simp: releases_inv_def overlays_inv_def send_err_def)

lemma run_invs: "run_reach a s \<Longrightarrow> overlays_inv a s \<and> releases_inv s"
proof (induction rule: run_reach.induct)
  case start
  show ?case by (simp add: overlays_inv_def releases_inv_def init_run_def)
next
  case (move s s')
  then show ?case using overlays_inv_step releases_inv_step by blast
qed

section \<open>A run neither hangs nor goes on for ever\<close>

lemma add_msetE: "M \<noteq> {#} \<Longrightarrow> (\<And>x N. M = add_mset x N \<Longrightarrow> P) \<Longrightarrow> P"
  by (meson multiset_cases)

lemma kjob_progress:
  assumes "kjobs s \<noteq> {#}" and "collector s = CRecv" and "length (manifests_ch s) < Workers a"
    and "length (resources_ch s) + size (kjobs s) \<le> length (Paths a)"
  shows "\<exists>s'. run_step a s s'"
proof -
  obtain j J where j: "kjobs s = add_mset j J" using assms(1) by (rule add_msetE)
  with assms(4) have "length (resources_ch s) < length (Paths a)" by simp
  with j assms(2,3) show ?thesis
    by (cases j) (blast intro: kustomize_error kustomize_report kustomize_manifest kustomize_resource)+
qed

lemma hjob_progress:
  assumes "hjobs s \<noteq> {#}" and "collector s = CRecv" and "length (manifests_ch s) < Workers a"
  shows "\<exists>s'. run_step a s s'"
proof (cases "\<exists>j. j \<in># hjobs s \<and> running j")
  case True
  then obtain j J where "hjobs s = add_mset j J" "running j" by (meson multi_member_split)
  with assms(2,3) show ?thesis
    by (cases j) (auto simp: running_def intro: helm_error helm_report helm_manifest)
next
  case False
  obtain j J where j: "hjobs s = add_mset j J" using assms(1) by (rule add_msetE)
  with False obtain r where r: "j = HQueued r" by (cases j) (auto simp: running_def)
  have "filter_mset running J = filter_mset (\<lambda>_. False) J" using False j by (intro filter_mset_cong) auto
  then have e: "filter_mset running J = {#}" by simp
  have "size (filter_mset running J) < Workers a" unfolding e using assms(3) by simp
  with j r show ?thesis by (blast intro: helm_start)
qed

lemma index_any:
  assumes "indexer s = Recv" and "resources_ch s = m # ms"
  shows "\<exists>s'. run_step a s s'"
proof -
  obtain e idx where "Push (act_kube a) (Resources_of a m) (index s) = (e, idx)" by fastforce
  with assms show ?thesis by (cases e) (blast intro: index_push index_error)+
qed

lemma submit_progress:
  assumes "main s = Submitting R" and "R \<subseteq> dom (index s)"
  shows "\<exists>s'. run_step a s s'"
proof (cases "R = {}")
  case True
  with assms(1) show ?thesis by (blast intro: submitted)
next
  case False
  then obtain q r where "q \<in> R" "index s q = Some r" using assms(2) by blast
  with assms(1) show ?thesis
    by (cases "is_HelmRelease a r"; cases "cancelled s") (blast intro: skip submit_release break)+
qed

lemma progress:
  assumes o: "overlays_inv a s" and r: "releases_inv s" and w: "0 < Workers a" and m: "phase (main s) < 7"
  shows "\<exists>s'. run_step a s s'"
proof -
  consider (busy) e where "collector s = CHave e" | (gone) "collector s = CDone"
    | (fail) e where "collector s = CRecv" "indexer s = Fail e \<or> writer s = Fail e"
    | (full) x xs where "manifests_ch s = x # xs" "writer s = Recv"
    | (overlay) "collector s = CRecv" "manifests_ch s = []" "kjobs s \<noteq> {#}"
    | (release) "collector s = CRecv" "manifests_ch s = []" "hjobs s \<noteq> {#}"
    | (quiet) "collector s = CRecv" "manifests_ch s = []" "kjobs s = {#}" "hjobs s = {#}"
        "indexer s \<in> {Recv, Done}" "writer s \<in> {Recv, Done}"
    using r by (cases "collector s"; cases "indexer s"; cases "writer s"; cases "manifests_ch s";
      auto simp: releases_inv_def)
  then show ?thesis
  proof cases
    case busy
    then show ?thesis by (blast intro: collect)
  next
    case gone
    with r m have "main s = Exiting" by (cases "main s") (auto simp: releases_inv_def)
    then show ?thesis by (blast intro: exit)
  next
    case fail
    then show ?thesis by (blast intro: index_report write_report)
  next
    case full
    then show ?thesis by (blast intro: write_error)
  next
    case overlay
    with o w kjob_progress[of s a] show ?thesis by (simp add: overlays_inv_def)
  next
    case release
    with w hjob_progress[of s a] show ?thesis by simp
  next
    case quiet
    show ?thesis
    proof (cases "main s")
      case Indexing
      then have "resources_closed s" by simp
      with Indexing quiet(5) show ?thesis
        by (cases "resources_ch s") (blast intro: index_done indexed index_any)+
    next
      case (Submitting R)
      with o show ?thesis by (intro submit_progress) (auto simp: overlays_inv_def)
    next
      case Draining
      then have "manifests_closed s" by simp
      with Draining quiet show ?thesis by (blast intro: drained write_done)
    next
      case Forwarding
      then show ?thesis
        using quiet(1) by (cases "forwards s = {#}") (blast intro: forwarded, blast intro: forward elim: add_msetE)
    qed (use m quiet in \<open>auto intro: kustomized built exit\<close>)
  qed
qed

text \<open>
  Every step of the main function begins a later phase or leaves fewer entries to submit; every
  other step uses up some of the work that is left, which these weights count.
\<close>

fun kjob_weight :: "'m kjob \<Rightarrow> nat" where
  "kjob_weight (KRun p) = 9"
| "kjob_weight (KManifest m) = 8"
| "kjob_weight (KResource m) = 4"
| "kjob_weight (KFail e) = 2"

fun hjob_weight :: "('r, 'm) hjob \<Rightarrow> nat" where
  "hjob_weight (HQueued r) = 6"
| "hjob_weight (HRun r) = 5"
| "hjob_weight (HManifest m) = 4"
| "hjob_weight (HFail e) = 2"

fun worker_weight :: "worker \<Rightarrow> nat" where
  "worker_weight Recv = 1"
| "worker_weight (Fail e) = 3"
| "worker_weight Done = 0"

fun collector_weight :: "collector \<Rightarrow> nat" where
  "collector_weight CRecv = 1"
| "collector_weight (CHave e) = 2"
| "collector_weight CDone = 0"

definition entries_left :: "main_pc \<Rightarrow> nat" where
  "entries_left m = (case m of Submitting R \<Rightarrow> card R | _ \<Rightarrow> 0)"

definition weight :: "('r, 'm) run \<Rightarrow> nat" where
  "weight s =
     sum_mset (image_mset kjob_weight (kjobs s)) + sum_mset (image_mset hjob_weight (hjobs s)) +
     worker_weight (indexer s) + worker_weight (writer s) + collector_weight (collector s) +
     2 * size (forwards s) + 3 * length (resources_ch s) + 3 * length (manifests_ch s) +
     7 * entries_left (main s)"

lemma weight_step:
  assumes "run_step a s s'" and "overlays_inv a s"
  shows "phase (main s) < phase (main s') \<or> main s' = main s \<and> weight s' < weight s \<or>
    phase (main s') = phase (main s) \<and> weight s' < weight s"
proof -
  have fin: "finite R" if "main s = Submitting R" for R
    using assms(2) that by (auto simp: overlays_inv_def intro: finite_subset)
  have card: "card (R - {q}) < card R" if "main s = Submitting R" "q \<in> R" for R q
    using fin[OF that(1)] that(2) by (meson card_Diff1_less)
  show ?thesis
    using assms(1)
    by cases (auto simp: weight_def send_err_def entries_left_def dest: card)
qed

lemma phase_le: "phase m \<le> 7"
  by (cases m) simp_all

lemma run_step_wf: "wfp (\<lambda>s' s. run_reach a s \<and> run_step a s s')"
proof -
  have "(s', s) \<in> measures [\<lambda>s. 7 - phase (main s), weight]"
    if "run_reach a s \<and> run_step a s s'" for s s' :: "('a, 'b) run"
    using weight_step[of a s s'] run_invs[of a s] that phase_le[of "main s'"] by auto
  then show ?thesis
    unfolding wfp_def by (intro wf_subset[OF wf_measures[of "[\<lambda>s. 7 - phase (main s), weight]"]]) auto
qed

lemma run_not_stuck:
  assumes "run_reach a s" and "0 < Workers a"
  shows "(\<exists>s'. run_step a s s') \<or> (\<exists>n. main s = Exited n)"
proof -
  have "overlays_inv a s" "releases_inv s" using run_invs[OF assms(1)] by blast+
  with progress[OF _ _ assms(2)] show ?thesis by (cases "main s") auto
qed

lemma run_can_exit:
  assumes "run_reach a s" and "0 < Workers a"
  shows "\<exists>s' n. run_reach a s' \<and> main s' = Exited n"
  using run_step_wf[of a] assms(1)
proof (induction s rule: wfp_induct_rule)
  case (less s)
  from run_not_stuck[OF less.prems assms(2)] less.prems show ?case by (blast intro: less.IH move)
qed

text \<open>
  \<open>Run\<close> always comes to its end: with at least one worker no reachable state is stuck before
  the process has exited, whichever goroutine moves and whatever the builds result in, and there
  is no infinite run.
\<close>

theorem run_always_ends:
  assumes "0 < Workers a"
  shows "wfp (\<lambda>s' s. run_reach a s \<and> run_step a s s') \<and>
    (run_reach a s \<longrightarrow> (\<exists>s'. run_step a s s') \<or> (\<exists>n. main s = Exited n))"
  using run_step_wf run_not_stuck[OF _ assms] by blast

section \<open>What is printed\<close>

fun kpending :: "'m kjob \<Rightarrow> 'm multiset" where
  "kpending (KManifest m) = {#m#}"
| "kpending _ = {#}"

fun hpending :: "('r, 'm) hjob \<Rightarrow> 'm multiset" where
  "hpending (HManifest m) = {#m#}"
| "hpending _ = {#}"

definition failing :: "worker \<Rightarrow> nat" where
  "failing w = (case w of Fail e \<Rightarrow> 1 | _ \<Rightarrow> 0)"

definition print_inv :: "('r, 'm) action \<Rightarrow> ('r, 'm) run \<Rightarrow> bool" where
  "print_inv a s \<longleftrightarrow>
     map fst (taken s) @ manifests_ch s = overlays s @ releases s \<and>
     made s = mset (overlays s) + mset (releases s) + sum_mset (image_mset kpending (kjobs s)) +
       sum_mset (image_mset hpending (hjobs s)) \<and>
     map Inr (printed s) = map (\<lambda>t. map_sum id document (act_AsYaml a (fst t))) (filter snd (taken s)) \<and>
     length (filter (Not \<circ> snd) (taken s)) \<le> length (received s) + failing (writer s)"

lemma print_inv_step:
  assumes "run_step a s s'" and "print_inv a s" and "overlays_inv a s" and "releases_inv s"
  shows "print_inv a s'"
  using assms(1)
proof cases
  case (kustomize_manifest m J)
  then have "releases s = []" using assms(3,4) by (cases "main s") (auto simp: overlays_inv_def releases_inv_def)
  with kustomize_manifest assms(2) show ?thesis by (auto simp: print_inv_def)
qed (use assms(2) in \<open>auto simp: print_inv_def send_err_def failing_def split: worker.splits\<close>)

lemma print_inv_reach: "run_reach a s \<Longrightarrow> print_inv a s"
proof (induction rule: run_reach.induct)
  case start
  have "sum_mset (image_mset kpending (image_mset KRun (mset ps))) = {#}" for ps :: "string list"
    by (induction ps) simp_all
  then show ?case by (simp add: print_inv_def init_run_def failing_def)
next
  case (move s s')
  then show ?case using print_inv_step run_invs by blast
qed

text \<open>
  C15. At the end of a run everything that the builds have made went to the writer exactly once,
  all overlays before all releases; what is printed are these manifests in this order, each
  after a line of three dashes, but for those that could not be encoded or written, and for each
  of those an error was raised.
\<close>

theorem manifests_are_printed_in_order:
  assumes "run_reach a s" and "main s = Exited n"
  shows "map fst (taken s) = overlays s @ releases s \<and> mset (map fst (taken s)) = made s \<and>
    map Inr (printed s) = map (\<lambda>t. map_sum id document (act_AsYaml a (fst t))) (filter snd (taken s)) \<and>
    length (filter (Not \<circ> snd) (taken s)) \<le> length (received s)"
proof -
  have i: "overlays_inv a s" "releases_inv s" "print_inv a s"
    using run_invs[OF assms(1)] print_inv_reach[OF assms(1)] by blast+
  with assms(2) have "kjobs s = {#}" "hjobs s = {#}" "manifests_ch s = []" "writer s = Done"
    by (simp_all add: overlays_inv_def releases_inv_def)
  with i(3) show ?thesis by (auto simp: print_inv_def failing_def)
qed

section \<open>Errors and the exit status\<close>

text \<open>The errors that the collector has stored, and the invariant of its variable.\<close>

definition stored :: "('r, 'm) run \<Rightarrow> go_error list" where
  "stored s = (case collector s of CHave e \<Rightarrow> butlast (received s) | _ \<Rightarrow> received s)"

definition errors_inv :: "('r, 'm) action \<Rightarrow> ('r, 'm) run \<Rightarrow> bool" where
  "errors_inv a s \<longleftrightarrow>
     lastErr s = (if stored s = [] then None else Some (last (stored s))) \<and>
     (case collector s of CHave e \<Rightarrow> received s \<noteq> [] \<and> last (received s) = e | _ \<Rightarrow> True) \<and>
     (case main s of
        Exited n \<Rightarrow>
          (if AllowFailure a then n = 0
           else if received s = [] then n = 0
           else if length (received s) = 1 then n \<le> 1
           else n = 1)
      | _ \<Rightarrow> True)"

lemma errors_inv_step:
  assumes "run_step a s s'" and "errors_inv a s" and "overlays_inv a s" and "releases_inv s"
  shows "errors_inv a s'"
proof -
  have quiet: "kjobs s = {#}" "hjobs s = {#}" "forwards s = {#}" "indexer s = Done" "writer s = Done"
    if "main s = Exited n" for n
    using assms(3,4) that by (auto simp: overlays_inv_def releases_inv_def)
  have st: "length (stored s) \<le> length (received s)" "length (received s) \<le> Suc (length (stored s))"
    by (auto simp: stored_def split: collector.split)
  have bl: "length (received s) = Suc 0" if "butlast (received s) = []" "received s \<noteq> []"
    using that by (metis append_butlast_last_id append_Nil length_Cons list.size(3))
  show ?thesis
    using assms(1)
    by cases
      (use assms(2) st bl in \<open>auto simp: errors_inv_def stored_def send_err_def exit_status_def quiet
          split: collector.splits main_pc.splits if_splits\<close>)
qed

lemma errors_inv_reach: "run_reach a s \<Longrightarrow> errors_inv a s"
proof (induction rule: run_reach.induct)
  case start
  show ?case by (simp add: errors_inv_def stored_def init_run_def)
next
  case (move s s')
  then show ?case using errors_inv_step run_invs by blast
qed

text \<open>
  C16. The exit status tells whether there were errors, with one gap: it is zero when failures are
  allowed or when there was no error, and one when there were two or more. With exactly one
  error it can be either.
\<close>

theorem exit_status_of_a_run:
  assumes "run_reach a s" and "main s = Exited n"
  shows "n \<le> 1 \<and> (AllowFailure a \<or> received s = [] \<longrightarrow> n = 0) \<and>
    (\<not> AllowFailure a \<and> 2 \<le> length (received s) \<longrightarrow> n = 1)"
  using errors_inv_reach[OF assms(1)] assms(2) by (auto simp: errors_inv_def split: if_splits)

text \<open>An action with one path, for examples: an overlay without resources, or one that fails.\<close>

definition sample_action :: "(string \<times> string, string) action" where
  "sample_action =
     \<lparr>AllowFailure = False, act_FailFast = False, Workers = 1, Paths = [''o''], act_kube =
        \<lparr>GetMeta = (\<lambda>r. Inl EOF), SetGvk = (\<lambda>r g. r), AsYAML = (\<lambda>r. Inl EOF),
         FromAPIVersionAndKind = (\<lambda>v k. \<lparr>Group = v, Kind = k, gvk_Version = v\<rparr>), EvalEnv = Inr, Decode = (\<lambda>s. Inl EOF)\<rparr>,
      Resources_of = (\<lambda>m. []), is_HelmRelease = (\<lambda>r. False), act_AsYaml = Inr\<rparr>"

text \<open>The rest of a run whose overlays are done, with no release in the index.\<close>

lemma run_tail:
  assumes "run_reach a s" and "main s = Kustomizing" and "kjobs s = {#}" and "hjobs s = {#}"
    and "resources_ch s = []" and "manifests_ch s = []" and "indexer s = Recv" and "writer s = Recv"
    and "forwards s = {#}" and "index s = Map.empty"
  shows "run_reach a (s\<lparr>indexer := Done, writer := Done, main := Exited (exit_status a s)\<rparr>)"
proof -
  have r1: "run_reach a (s\<lparr>main := Indexing\<rparr>)"
    using assms(1) kustomized[OF assms(2,3)] by (rule move)
  have r2: "run_reach a (s\<lparr>main := Indexing, indexer := Done\<rparr>)"
    using move[OF r1 index_done] assms by simp
  have r3: "run_reach a (s\<lparr>indexer := Done, main := Submitting {}\<rparr>)"
    using move[OF r2 indexed] assms by simp
  have r4: "run_reach a (s\<lparr>indexer := Done, main := Building\<rparr>)"
    using move[OF r3 submitted] by simp
  have r5: "run_reach a (s\<lparr>indexer := Done, main := Draining\<rparr>)"
    using move[OF r4 built] assms by simp
  have r6: "run_reach a (s\<lparr>indexer := Done, main := Draining, writer := Done\<rparr>)"
    using move[OF r5 write_done] assms by simp
  have r7: "run_reach a (s\<lparr>indexer := Done, writer := Done, main := Forwarding\<rparr>)"
    using move[OF r6 drained] by simp
  have r8: "run_reach a (s\<lparr>indexer := Done, writer := Done, main := Exiting\<rparr>)"
    using move[OF r7 forwarded] assms by simp
  show ?thesis
    using move[OF r8 exit] by (simp add: exit_status_def)
qed

text \<open>The only overlay fails: its error is with the collector, or stored.\<close>

lemma failed_overlay:
  assumes "Paths a = [p]"
  shows "run_reach a (send_err e (init_run a\<lparr>kjobs := {#}\<rparr>))"
    and "run_reach a ((send_err e (init_run a\<lparr>kjobs := {#}\<rparr>))
      \<lparr>collector := CRecv, lastErr := Some e, cancelled := act_FailFast a\<rparr>)"
proof -
  have j0: "kjobs (init_run a) = add_mset (KRun p) {#}" using assms by (simp add: init_run_def)
  have "run_reach a (init_run a\<lparr>kjobs := {#KFail e#}\<rparr>)" by (rule move[OF start kustomize_error[OF j0]])
  from move[OF this kustomize_report[of _ e "{#}"]]
  show 1: "run_reach a (send_err e (init_run a\<lparr>kjobs := {#}\<rparr>))" by (simp add: init_run_def send_err_def)
  from move[OF 1 collect[of _ e]]
  show "run_reach a ((send_err e (init_run a\<lparr>kjobs := {#}\<rparr>))
      \<lparr>collector := CRecv, lastErr := Some e, cancelled := act_FailFast a\<rparr>)"
    by (simp add: init_run_def send_err_def)
qed

text \<open>
  C40. A single error is reported or lost, as a race decides: with one path, whose overlay fails,
  and failures not allowed, the runs that have handed just this error to the collector end with
  status one or with status zero, and both do occur, for every action and error. It is zero when
  \<open>Run\<close> looks for the error before the collector, which has taken it, has stored it.
\<close>

theorem an_error_can_be_lost:
  assumes "\<not> AllowFailure a" and "Paths a = [p]"
  shows "{n. \<exists>s. run_reach a s \<and> received s = [e] \<and> main s = Exited n} = {0, 1}" (is "?N = _")
proof -
  let ?s = "send_err e (init_run a\<lparr>kjobs := {#}\<rparr>)"
  let ?t = "?s\<lparr>collector := CRecv, lastErr := Some e, cancelled := act_FailFast a\<rparr>"
  let ?fin = "\<lambda>u. u\<lparr>indexer := Done, writer := Done, main := Exited (exit_status a u)\<rparr>"
  have s: "run_reach a (?fin ?s)"
    by (rule run_tail[OF failed_overlay(1)[OF assms(2)]]) (simp_all add: send_err_def init_run_def)
  have t: "run_reach a (?fin ?t)"
    by (rule run_tail[OF failed_overlay(2)[OF assms(2)]]) (simp_all add: send_err_def init_run_def)
  have "exit_status a ?s = 0" "exit_status a ?t = 1"
    using assms(1) by (simp_all add: exit_status_def send_err_def init_run_def)
  then have st: "main (?fin ?s) = Exited 0" "main (?fin ?t) = Exited 1"
    "received (?fin ?s) = [e]" "received (?fin ?t) = [e]" by (simp_all add: send_err_def init_run_def)
  have "n = 0 \<or> n = 1" if "run_reach a s" "main s = Exited n" for s n
    using errors_inv_reach[OF that(1)] that(2) by (auto simp: errors_inv_def split: if_splits)
  then have le: "?N \<subseteq> {0, 1}" by blast
  have "0 \<in> ?N" using s st(1,3) by blast
  moreover have "1 \<in> ?N" using t st(2,4) by blast
  ultimately show ?thesis using le by (intro equalityI) simp_all
qed

theorem an_error_can_be_lost_witness:
  "\<exists>s s'. run_reach sample_action s \<and> received s = [EOF] \<and> main s = Exited 0 \<and>
     run_reach sample_action s' \<and> received s' = [EOF] \<and> main s' = Exited 1"
proof -
  have "\<not> AllowFailure sample_action" and "Paths sample_action = [''o'']" by (simp_all add: sample_action_def)
  from an_error_can_be_lost[OF this, of EOF] have
    "0 \<in> {n. \<exists>s. run_reach sample_action s \<and> received s = [EOF] \<and> main s = Exited n}"
    "1 \<in> {n. \<exists>s. run_reach sample_action s \<and> received s = [EOF] \<and> main s = Exited n}" by auto
  then show ?thesis by blast
qed

section \<open>Examples\<close>

text \<open>A run in which the only overlay is printed, and its last state.\<close>

definition sample_end :: "(string \<times> string, string) run" where
  "sample_end =
     \<lparr>main = Exited 0, kjobs = {#}, hjobs = {#}, indexer = Done, writer = Done, collector = CRecv,
      forwards = {#}, resources_ch = [], manifests_ch = [], index = Map.empty, cancelled = False,
      lastErr = None, printed = [document ''a: 1''], overlays = [''a: 1''], releases = [],
      taken = [(''a: 1'', True)], made = {#''a: 1''#}, received = []\<rparr>"

lemma sample_run: "run_reach sample_action sample_end"
proof -
  note d = init_run_def sample_action_def
  define s0 where "s0 = init_run sample_action"
  have "run_reach sample_action s0" by (simp add: s0_def start)
  from move[OF this kustomize_ok[of _ "''o''" "{#}" _ "''a: 1''"]]
  have r1: "run_reach sample_action (s0\<lparr>kjobs := {#KManifest ''a: 1''#}, made := {#''a: 1''#}\<rparr>)"
    by (simp add: s0_def d)
  from move[OF r1 kustomize_manifest[of _ "''a: 1''" "{#}"]]
  have r2: "run_reach sample_action (s0\<lparr>kjobs := {#KResource ''a: 1''#}, made := {#''a: 1''#},
      manifests_ch := [''a: 1''], overlays := [''a: 1'']\<rparr>)"
    by (simp add: s0_def d)
  from move[OF r2 kustomize_resource[of _ "''a: 1''" "{#}"]]
  have r3: "run_reach sample_action (s0\<lparr>kjobs := {#}, made := {#''a: 1''#}, manifests_ch := [''a: 1''],
      overlays := [''a: 1''], resources_ch := [''a: 1'']\<rparr>)"
    by (simp add: s0_def d)
  from move[OF r3 write_ok[of _ "''a: 1''" "[]" _ "''a: 1''"]]
  have r4: "run_reach sample_action (s0\<lparr>kjobs := {#}, made := {#''a: 1''#}, manifests_ch := [],
      overlays := [''a: 1''], resources_ch := [''a: 1''], printed := [document ''a: 1''],
      taken := [(''a: 1'', True)]\<rparr>)"
    by (simp add: s0_def d)
  from move[OF r4 index_push[of _ "''a: 1''" "[]" _ Map.empty]]
  have r5: "run_reach sample_action (s0\<lparr>kjobs := {#}, made := {#''a: 1''#}, manifests_ch := [],
      overlays := [''a: 1''], resources_ch := [], printed := [document ''a: 1''],
      taken := [(''a: 1'', True)]\<rparr>)"
    by (simp add: s0_def d)
  show ?thesis
    using run_tail[OF r5] by (simp add: s0_def sample_end_def exit_status_def d)
qed

theorem run_always_ends_witness:
  "wfp (\<lambda>s' s. run_reach sample_action s \<and> run_step sample_action s s') \<and>
   (\<exists>s'. run_step sample_action (init_run sample_action) s')"
  using run_always_ends[of sample_action "init_run sample_action"]
  by (simp add: start) (simp add: sample_action_def init_run_def)

theorem manifests_are_printed_in_order_witness:
  "main sample_end = Exited 0 \<and> mset (map fst (taken sample_end)) = {#''a: 1''#} \<and>
   printed sample_end = [''---'' @ [CHR 0x0A] @ ''a: 1'']"
  using manifests_are_printed_in_order[OF sample_run, of 0] by (simp add: sample_end_def document_def)

theorem exit_status_of_a_run_witness:
  "main sample_end = Exited (if AllowFailure sample_action \<or> received sample_end = [] then 0 else 1)"
  using exit_status_of_a_run[OF sample_run, of 0] by (simp add: sample_end_def)

end
