(* ===== verification/CommandLine.thy ===== *)
theory CommandLine
  imports HelmBuild Action
begin

text \<open>
  The command line (\<open>main.go\<close>): the configuration is made of the defaults of the flags, then of the
  environment, then of the flags; then the action is set up and run. The libraries for environment
  variables, flags and logging are parameters.
\<close>

section \<open>Configuration\<close>

record config =
  Log_Level :: string
  Log_Encoding :: string
  cfg_Output :: string
  cfg_FailFast :: bool
  cfg_IncludeHelmHooks :: bool
  cfg_AllowFailure :: bool
  cfg_Workers :: int
  cfg_APIVersions :: "string list"
  cfg_KubeVersion :: string
  CacheEnabled :: bool
  CacheDir :: string
  cfg_Cache :: string

text \<open>
  The libraries: \<open>flag.Parse\<close> gives the arguments that are left, or ends the process with a status;
  \<open>UnmarshalLevel\<close> and \<open>BuildZap\<close> are the two steps of zap that may fail.
\<close>

record main_ext =
  envconfig_Process :: "(string \<Rightarrow> string option) \<Rightarrow> config \<Rightarrow> go_error + config"
  flag_Parse :: "string list \<Rightarrow> config \<Rightarrow> nat + config \<times> string list"
  NumCPU :: nat
  UnmarshalLevel :: "string \<Rightarrow> go_error option"
  BuildZap :: "string \<Rightarrow> string \<Rightarrow> go_error option"
  ParseKubeVersion :: "string \<Rightarrow> go_error + kube_version"

definition Getenv :: "(string \<Rightarrow> string option) \<Rightarrow> string \<Rightarrow> string" where
  "Getenv env k = (case env k of None \<Rightarrow> '''' | Some v \<Rightarrow> v)"

text \<open>\<open>os.UserHomeDir\<close>.\<close>

definition UserHomeDir :: "platform \<Rightarrow> (string \<Rightarrow> string option) \<Rightarrow> go_error + string" where
  "UserHomeDir os env =
     (let v = Getenv env (if is_windows os then ''USERPROFILE'' else ''HOME'') in
      if v \<noteq> '''' then Inr v
      else Inl (ErrorString ((if is_windows os then ''%userprofile%'' else ''$HOME'') @ '' is not defined'')))"

definition getDefaultCacheDir :: "platform \<Rightarrow> (string \<Rightarrow> string option) \<Rightarrow> string \<Rightarrow> string" where
  "getDefaultCacheDir os env tmp =
     (case UserHomeDir os env of
        Inl e \<Rightarrow> path_join [tmp, ''flux-build'']
      | Inr homeDir \<Rightarrow> path_join [homeDir, ''.cache'', ''flux-build''])"

text \<open>Registering a flag stores its default value.\<close>

definition init_config :: "main_ext \<Rightarrow> platform \<Rightarrow> (string \<Rightarrow> string option) \<Rightarrow> string \<Rightarrow> config" where
  "init_config x os env tmp =
     \<lparr>Log_Level = '''', Log_Encoding = '''', cfg_Output = '''', cfg_FailFast = False, cfg_IncludeHelmHooks = False,
      cfg_AllowFailure = False, cfg_Workers = int (NumCPU x), cfg_APIVersions = [], cfg_KubeVersion = '''',
      CacheEnabled = False, CacheDir = getDefaultCacheDir os env tmp, cfg_Cache = ''inmemory''\<rparr>"

definition buildLogger :: "main_ext \<Rightarrow> config \<Rightarrow> go_error option" where
  "buildLogger x c =
     (case UnmarshalLevel x (Log_Level c) of
        Some e \<Rightarrow> Some e
      | None \<Rightarrow> BuildZap x (Log_Level c) (Log_Encoding c))"

text \<open>The first step of \<open>main\<close>: how the process ends early, or the configuration and the paths given.\<close>

datatype early = LogFatal go_error | FlagExit nat

definition load_config ::
    "main_ext \<Rightarrow> platform \<Rightarrow> (string \<Rightarrow> string option) \<Rightarrow> string list \<Rightarrow> string \<Rightarrow> early + config \<times> string list" where
  "load_config x os env args tmp =
     (case envconfig_Process x env (init_config x os env tmp) of
        Inl e \<Rightarrow> Inl (LogFatal e)
      | Inr c \<Rightarrow>
          (case flag_Parse x args c of
             Inl n \<Rightarrow> Inl (FlagExit n)
           | Inr (c', rest) \<Rightarrow>
               Inr (if cfg_Workers c' < 1 then c'\<lparr>cfg_Workers := int (NumCPU x)\<rparr> else c', rest)))"

definition main_paths :: "(string \<Rightarrow> string option) \<Rightarrow> string list \<Rightarrow> go_error + string list" where
  "main_paths env args =
     (if args \<noteq> [] then Inr args
      else if Getenv env ''PATHS'' \<noteq> '''' then Inr (split_char CHR '','' (Getenv env ''PATHS''))
      else Inl (ErrorString ''path to kustomize overlay required''))"

definition default_kube_version :: kube_version where
  "default_kube_version = \<lparr>kv_Version = ''1.31.0'', kv_Major = ''1'', kv_Minor = ''31''\<rparr>"

definition main_kube_version :: "main_ext \<Rightarrow> config \<Rightarrow> go_error + kube_version" where
  "main_kube_version x c =
     (if cfg_KubeVersion c \<noteq> '''' then ParseKubeVersion x (cfg_KubeVersion c) else Inr default_kube_version)"

section \<open>Starting the action\<close>

text \<open>Opening a file to append to it, which is created if there is none.\<close>

definition os_open_append :: "string \<Rightarrow> string io" where
  "os_open_append p = syscall (PathError ''open'' p) (\<lambda>w.
     case resolve w p of
       Inl e \<Rightarrow> (Inl e, w)
     | Inr q \<Rightarrow>
         (case nodes w q of
            Some Directory \<Rightarrow> (Inl EISDIR, w)
          | Some n \<Rightarrow> (Inr q, w)
          | None \<Rightarrow>
              (case parent_ok w q of
                 Some e \<Rightarrow> (Inl e, w)
               | None \<Rightarrow> (Inr q, w\<lparr>nodes := (nodes w)(q := Some (File []))\<rparr>))))"

text \<open>
  An action that is about to run: the part that \<open>Action\<close> models, and the fields that it hands on
  to the builder of releases.
\<close>

record ('r, 'm) started =
  st_action :: "('r, 'm) action"
  st_Output :: string
  st_Cache :: chart_cache
  st_APIVersions :: "string list"
  st_KubeVersion :: kube_version
  st_IncludeHelmHooks :: bool

datatype ('r, 'm) main_end = Early early | Panics go_error | Runs "('r, 'm) started"

definition must :: "'a io \<Rightarrow> ('a \<Rightarrow> ('r, 'm) main_end io) \<Rightarrow> ('r, 'm) main_end io" where
  "must m k = io_try m (\<lambda>r. case r of Inl e \<Rightarrow> io_return (Panics e) | Inr y \<Rightarrow> k y)"

definition main_action :: "('r, 'm) action \<Rightarrow> config \<Rightarrow> string list \<Rightarrow> ('r, 'm) action" where
  "main_action lib c paths =
     lib\<lparr>AllowFailure := cfg_AllowFailure c, act_FailFast := cfg_FailFast c, Workers := nat (cfg_Workers c), Paths := paths\<rparr>"

definition start_action ::
    "main_ext \<Rightarrow> ('r, 'm) action \<Rightarrow> (string \<Rightarrow> string option) \<Rightarrow> config \<Rightarrow> string list \<Rightarrow> ('r, 'm) main_end io" where
  "start_action x lib env c args =
     must (io_lift (case buildLogger x c of Some e \<Rightarrow> Inl e | None \<Rightarrow> Inr ())) (\<lambda>_.
     must (io_lift (main_paths env args)) (\<lambda>paths.
     must (io_lift (main_kube_version x c)) (\<lambda>kubeVersion.
     must (NewCache (cfg_Cache c) (CacheDir c)) (\<lambda>cache.
     must (os_open_append (cfg_Output c)) (\<lambda>out.
     io_return (Runs
       \<lparr>st_action = main_action lib c paths, st_Output = out, st_Cache = cache,
        st_APIVersions = cfg_APIVersions c, st_KubeVersion = kubeVersion,
        st_IncludeHelmHooks = cfg_IncludeHelmHooks c\<rparr>))))))"

definition main_start ::
    "main_ext \<Rightarrow> ('r, 'm) action \<Rightarrow> platform \<Rightarrow> (string \<Rightarrow> string option) \<Rightarrow> string list \<Rightarrow> ('r, 'm) main_end io" where
  "main_start x lib os env args w =
     (case load_config x os env args (tempdir w) of
        Inl early \<Rightarrow> (Inr (Early early), w)
      | Inr (c, rest) \<Rightarrow> start_action x lib env c rest w)"

text \<open>What \<open>Run\<close> gives the builder of releases.\<close>

definition helm_options :: "('r, 'm) started \<Rightarrow> helm_opts" where
  "helm_options s =
     \<lparr>APIVersions = st_APIVersions s, FailFast = False, opt_Cache = st_Cache s, KubeVersion = st_KubeVersion s,
      Getters = None, Decoder = None, IncludeHelmHooks = st_IncludeHelmHooks s\<rparr>"

text \<open>The statuses the process may exit with: 1 after \<open>log.Fatal\<close>, 2 after a panic.\<close>

fun early_status :: "early \<Rightarrow> nat" where
  "early_status (LogFatal e) = 1"
| "early_status (FlagExit n) = n"

inductive main_exits ::
    "main_ext \<Rightarrow> ('r, 'm) action \<Rightarrow> platform \<Rightarrow> (string \<Rightarrow> string option) \<Rightarrow> string list \<Rightarrow> world \<Rightarrow> nat \<Rightarrow> bool"
  for x lib os env args w where
  early: "main_start x lib os env args w = (Inr (Early e), w') \<Longrightarrow> main_exits x lib os env args w (early_status e)"
| panics: "main_start x lib os env args w = (Inr (Panics e), w') \<Longrightarrow> main_exits x lib os env args w 2"
| runs: "main_start x lib os env args w = (Inr (Runs s), w') \<Longrightarrow> run_reach (st_action s) r \<Longrightarrow> main r = Exited n \<Longrightarrow>
    main_exits x lib os env args w n"

section \<open>What is started\<close>

lemma must_runs:
  assumes "must m k w = (Inr (Runs s), w')"
  obtains y w1 where "m w = (Inr y, w1)" and "k y w1 = (Inr (Runs s), w')"
  using assms by (auto simp: must_def io_try_def io_return_def split: prod.splits sum.splits)

lemma must_total:
  assumes "\<And>y w. \<exists>e w'. k y w = (Inr e, w')"
  shows "\<exists>e w'. must m k w = (Inr e, w')"
proof -
  obtain r w1 where "m w = (r, w1)" by fastforce
  with assms show ?thesis by (cases r) (auto simp: must_def io_try_def io_return_def)
qed

lemma start_action_total: "\<exists>e w'. start_action x lib env c args w = (Inr e, w')"
  unfolding start_action_def by (intro must_total) (simp add: io_return_def)

lemma main_start_total: "\<exists>e w'. main_start x lib os env args w = (Inr e, w')"
  using start_action_total by (auto simp: main_start_def split: sum.splits)

lemma open_append_file:
  assumes "os_open_append p w = (Inr q, w')"
  shows "\<exists>n. nodes w' q = Some n \<and> n \<noteq> Directory"
  using assms
  by (auto simp: os_open_append_def syscall_def mapErr_Inr_iff Let_def split: option.splits sum.splits node.splits if_splits)

lemma start_action_runs:
  assumes "start_action x lib env c args w = (Inr (Runs s), w')"
  shows "\<exists>paths w1 w2. main_paths env args = Inr paths \<and> main_kube_version x c = Inr (st_KubeVersion s) \<and>
    NewCache (cfg_Cache c) (CacheDir c) w = (Inr (st_Cache s), w1) \<and>
    os_open_append (cfg_Output c) w1 = (Inr (st_Output s), w') \<and> st_action s = main_action lib c paths \<and>
    buildLogger x c = None"
  using assms unfolding start_action_def
  by (elim must_runs) (auto simp: io_lift_def io_return_def split: option.splits)

lemma load_config_workers:
  assumes "load_config x os env args tmp = Inr (c, rest)" and "0 < NumCPU x"
  shows "1 \<le> cfg_Workers c"
  using assms by (auto simp: load_config_def split: sum.splits prod.splits if_splits)

lemma main_paths_nonempty: "main_paths env args = Inr paths \<Longrightarrow> paths \<noteq> []"
  by (auto simp: main_paths_def split: if_splits)

lemma main_start_runs:
  assumes "main_start x lib os env args w = (Inr (Runs s), w')"
  obtains c rest paths w1 where "load_config x os env args (tempdir w) = Inr (c, rest)"
    and "main_paths env rest = Inr paths" and "st_action s = main_action lib c paths"
    and "NewCache (cfg_Cache c) (CacheDir c) w = (Inr (st_Cache s), w1)"
    and "os_open_append (cfg_Output c) w1 = (Inr (st_Output s), w')"
  using assms start_action_runs by (fastforce simp: main_start_def split: sum.splits)

lemma started_workers:
  assumes "main_start x lib os env args w = (Inr (Runs s), w')" and "0 < NumCPU x"
  shows "0 < Workers (st_action s)"
  using assms(1)
proof (rule main_start_runs)
  fix c rest paths
  assume "load_config x os env args (tempdir w) = Inr (c, rest)" and "st_action s = main_action lib c paths"
  with load_config_workers[OF _ assms(2)] show ?thesis by (fastforce simp: main_action_def)
qed

text \<open>
  C14. An action that \<open>main\<close> starts is well formed, whatever the environment and the flags say: it
  has a worker and a path, its output is an open file, and the builder of releases that it makes
  is ready: no chart is locked and no repository is open.
\<close>

theorem started_action_is_well_formed:
  assumes "main_start x lib os env args w = (Inr (Runs s), w')" and "0 < NumCPU x"
  shows "0 < Workers (st_action s) \<and> Paths (st_action s) \<noteq> [] \<and>
    (\<exists>n. nodes w' (st_Output s) = Some n \<and> n \<noteq> Directory) \<and>
    helm_ok (NewHelmBuilder universal (helm_options s)) \<and>
    h_cache (NewHelmBuilder universal (helm_options s)) = st_Cache s"
proof -
  from assms(1) obtain c rest paths w1 where p: "main_paths env rest = Inr paths" "st_action s = main_action lib c paths"
    and cache: "NewCache (cfg_Cache c) (CacheDir c) w = (Inr (st_Cache s), w1)"
    and out: "os_open_append (cfg_Output c) w1 = (Inr (st_Output s), w')"
    by (rule main_start_runs)
  from NewCache_ok[OF cache] NewHelmBuilder_ok[of "helm_options s" universal]
  have "helm_ok (NewHelmBuilder universal (helm_options s)) \<and> h_cache (NewHelmBuilder universal (helm_options s)) = st_Cache s"
    by (simp add: helm_options_def)
  moreover have "Paths (st_action s) \<noteq> []" using p main_paths_nonempty by (simp add: main_action_def)
  ultimately show ?thesis using started_workers[OF assms] open_append_file[OF out] by blast
qed

text \<open>
  The action always ends: some exit status is possible for every environment and every
  command line, and once the action runs, its goroutines are never all stuck before the exit and
  do not go on for ever.
\<close>

theorem program_always_ends:
  assumes "0 < NumCPU x"
  shows "(\<exists>n. main_exits x lib os env args w n) \<and>
    (\<forall>s w'. main_start x lib os env args w = (Inr (Runs s), w') \<longrightarrow>
       wfp (\<lambda>r' r. run_reach (st_action s) r \<and> run_step (st_action s) r r') \<and>
       (\<forall>r. run_reach (st_action s) r \<longrightarrow> (\<exists>r'. run_step (st_action s) r r') \<or> (\<exists>n. main r = Exited n)))"
proof (intro conjI allI impI)
  obtain e w' where m: "main_start x lib os env args w = (Inr e, w')" using main_start_total by blast
  show "\<exists>n. main_exits x lib os env args w n"
  proof (cases e)
    case (Early y)
    with m show ?thesis by (blast intro: early)
  next
    case (Panics y)
    with m show ?thesis by (blast intro: panics)
  next
    case (Runs s)
    with m have s: "main_start x lib os env args w = (Inr (Runs s), w')" by simp
    from run_can_exit[OF start started_workers[OF s assms]] s show ?thesis by (blast intro: runs)
  qed
next
  fix s w' assume s: "main_start x lib os env args w = (Inr (Runs s), w')"
  show "wfp (\<lambda>r' r. run_reach (st_action s) r \<and> run_step (st_action s) r r')" by (rule run_step_wf)
  show "(\<exists>r'. run_step (st_action s) r r') \<or> (\<exists>n. main r = Exited n)" if "run_reach (st_action s) r" for r
    using run_not_stuck[OF that started_workers[OF s assms]] .
qed

section \<open>The environment\<close>

text \<open>
  The documented behaviour of \<open>envconfig\<close> for fields without the option \<open>overwrite\<close>: a field that
  is not zero keeps its value.
\<close>

definition keeps_set_fields :: "main_ext \<Rightarrow> bool" where
  "keeps_set_fields x \<longleftrightarrow>
     (\<forall>env c c'. envconfig_Process x env c = Inr c' \<longrightarrow>
        (cfg_Workers c \<noteq> 0 \<longrightarrow> cfg_Workers c' = cfg_Workers c) \<and>
        (CacheDir c \<noteq> '''' \<longrightarrow> CacheDir c' = CacheDir c) \<and>
        (cfg_Cache c \<noteq> '''' \<longrightarrow> cfg_Cache c' = cfg_Cache c))"

text \<open>
  C39. The documented variables \<open>WORKERS\<close>, \<open>CACHE\<close> and \<open>CACHE_DIR\<close> have no effect: the defaults of
  the flags are in the configuration before the environment is read, so without flags there are as
  many workers as processors and the cache is in memory, whatever the environment says.
\<close>

theorem environment_does_not_choose_the_cache:
  assumes "keeps_set_fields x" and "0 < NumCPU x"
    and "load_config x os env args tmp = Inr (c, rest)" and "\<forall>c. flag_Parse x args c = Inr (c, rest)"
  shows "cfg_Workers c = int (NumCPU x) \<and> cfg_Cache c = ''inmemory'' \<and> CacheDir c = getDefaultCacheDir os env tmp"
proof -
  let ?c0 = "init_config x os env tmp"
  from assms(3,4) obtain c1 where p: "envconfig_Process x env ?c0 = Inr c1"
    and c: "c = (if cfg_Workers c1 < 1 then c1\<lparr>cfg_Workers := int (NumCPU x)\<rparr> else c1)"
    by (auto simp: load_config_def split: sum.splits)
  have "CacheDir ?c0 \<noteq> ''''"
    by (simp add: init_config_def getDefaultCacheDir_def path_join_def split: sum.split)
  with p assms(1,2) have "cfg_Workers c1 = int (NumCPU x) \<and> cfg_Cache c1 = ''inmemory'' \<and>
      CacheDir c1 = getDefaultCacheDir os env tmp"
    unfolding keeps_set_fields_def by (fastforce simp: init_config_def)
  with c show ?thesis by simp
qed

section \<open>Examples\<close>

text \<open>Libraries that read one variable and know one flag.\<close>

definition sample_main_ext :: main_ext where
  "sample_main_ext =
     \<lparr>envconfig_Process = (\<lambda>env c. Inr (c\<lparr>cfg_Output := (if cfg_Output c = '''' then ''/o/out'' else cfg_Output c),
        cfg_Cache := (if cfg_Cache c = '''' then Getenv env ''CACHE'' else cfg_Cache c)\<rparr>)),
      flag_Parse = (\<lambda>args c. Inr (if args = [''--cache=fs''] then (c\<lparr>cfg_Cache := ''fs''\<rparr>, []) else (c, args))), NumCPU = 4, UnmarshalLevel = (\<lambda>l. None), BuildZap = (\<lambda>l e. None),
      ParseKubeVersion = (\<lambda>v. Inl EOF)\<rparr>"

definition sample_env :: "string \<Rightarrow> string option" where
  "sample_env = map_of [(''HOME'', ''/t''), (''CACHE'', ''none''), (''PATHS'', ''a,b'')]"

theorem environment_does_not_choose_the_cache_witness:
  "\<exists>c rest. load_config sample_main_ext Unix sample_env [] ''/t'' = Inr (c, rest) \<and>
     cfg_Workers c = 4 \<and> cfg_Cache c = ''inmemory'' \<and> CacheDir c = ''/t/.cache/flux-build''"
proof -
  have k: "keeps_set_fields sample_main_ext" by (simp add: keeps_set_fields_def sample_main_ext_def)
  have n: "0 < NumCPU sample_main_ext" by (simp add: sample_main_ext_def)
  obtain c where l: "load_config sample_main_ext Unix sample_env [] ''/t'' = Inr (c, [])"
    by (simp add: load_config_def sample_main_ext_def split: sum.split)
  have f: "\<forall>c. flag_Parse sample_main_ext [] c = Inr (c, [])" by (simp add: sample_main_ext_def)
  have "getDefaultCacheDir Unix sample_env ''/t'' = ''/t/.cache/flux-build''" by code_simp
  with environment_does_not_choose_the_cache[OF k n l f] l show ?thesis by (simp add: sample_main_ext_def)
qed

lemma sample_start:
  "\<exists>s w'. main_start sample_main_ext sample_action Unix sample_env [''--cache=fs''] small_world = (Inr (Runs s), w') \<and>
     Paths (st_action s) = [''a'', ''b''] \<and> Workers (st_action s) = 4 \<and> st_Output s = ''/o/out''"
proof -
  let ?m = "main_start sample_main_ext sample_action Unix sample_env [''--cache=fs''] small_world"
  have "(case fst ?m of Inr (Runs s) \<Rightarrow>
      Paths (st_action s) = [''a'', ''b''] \<and> Workers (st_action s) = 4 \<and> st_Output s = ''/o/out'' | _ \<Rightarrow> False)"
    by code_simp
  then show ?thesis by (cases ?m) (auto split: sum.splits main_end.splits)
qed

theorem started_action_is_well_formed_witness:
  "\<exists>s w'. main_start sample_main_ext sample_action Unix sample_env [''--cache=fs''] small_world = (Inr (Runs s), w') \<and>
     Workers (st_action s) = 4 \<and> st_Output s = ''/o/out'' \<and>
     helm_ok (NewHelmBuilder (\<lambda>s. Inl EOF) (helm_options s)) \<and>
     (\<exists>n. nodes w' ''/o/out'' = Some n \<and> n \<noteq> Directory)"
proof -
  have n: "0 < NumCPU sample_main_ext" by (simp add: sample_main_ext_def)
  obtain s w' where s: "main_start sample_main_ext sample_action Unix sample_env [''--cache=fs''] small_world = (Inr (Runs s), w')"
    and o: "Workers (st_action s) = 4" "st_Output s = ''/o/out''"
    using sample_start by blast
  from started_action_is_well_formed[OF s n] s o show ?thesis by metis
qed

theorem program_always_ends_witness:
  "\<exists>s w' r. main_start sample_main_ext sample_action Unix sample_env [''--cache=fs''] small_world = (Inr (Runs s), w') \<and>
     run_step (st_action s) (init_run (st_action s)) r"
proof -
  have n: "0 < NumCPU sample_main_ext" by (simp add: sample_main_ext_def)
  obtain s w' where s: "main_start sample_main_ext sample_action Unix sample_env [''--cache=fs''] small_world = (Inr (Runs s), w')"
    using sample_start by blast
  have "main (init_run (st_action s)) \<noteq> Exited n" for n by (simp add: init_run_def)
  moreover have "(\<exists>r'. run_step (st_action s) (init_run (st_action s)) r') \<or> (\<exists>n. main (init_run (st_action s)) = Exited n)"
    using program_always_ends[OF n] s start by blast
  ultimately show ?thesis using s by blast
qed

end
