(* ===== verification/Program.thy ===== *)
theory Program
  imports CommandLine
begin

text \<open>
  The whole program: the goroutines of \<open>Action\<close> with the builds of \<open>Kustomize\<close> and \<open>HelmBuild\<close> in the
  place of their tasks, on one file system and with one builder of releases. A task runs as one
  step of the world, so the tasks are interleaved but no two of them overlap. A release is taken
  from the index when it is submitted; \<open>Build\<close> sets its version before it reads anything of it.
\<close>

section \<open>Simulations\<close>

text \<open>
  The interface between the two levels: a concrete system whose steps are, seen through a function
  on its states, steps of an abstract one. What is reachable is then reachable in the abstract
  system, and an abstract system without infinite runs leaves the concrete one none.
\<close>

locale simulation =
  fixes cinit :: 'c and cstep :: "'c \<Rightarrow> 'c \<Rightarrow> bool" and ainit :: 'a and astep :: "'a \<Rightarrow> 'a \<Rightarrow> bool"
    and abs :: "'c \<Rightarrow> 'a"
  assumes init: "abs cinit = ainit"
    and step: "cstep c c' \<Longrightarrow> astep (abs c) (abs c')"
begin

lemma reachable: "cstep\<^sup>*\<^sup>* cinit c \<Longrightarrow> astep\<^sup>*\<^sup>* ainit (abs c)"
  by (induction rule: rtranclp_induct) (auto simp: init intro: step rtranclp.rtrancl_into_rtrancl)

lemma well_founded:
  assumes "wfp (\<lambda>s' s. astep\<^sup>*\<^sup>* ainit s \<and> astep s s')"
  shows "wfp (\<lambda>c' c. cstep\<^sup>*\<^sup>* cinit c \<and> cstep c c')"
  by (rule wfp_if_convertible_to_wfp[OF assms, of _ abs]) (auto intro: reachable step)

end

section \<open>The program\<close>

text \<open>What is left of a task when the code it calls has returned.\<close>

definition is_panic :: "go_error \<Rightarrow> bool" where
  "is_panic e = (case e of Panic m \<Rightarrow> True | _ \<Rightarrow> False)"

definition panic_error :: "go_error \<Rightarrow> go_error" where
  "panic_error e = wrap ''worker exits from a panic'' e"

definition after_kustomize :: "'m kjob multiset \<Rightarrow> go_error + 'm \<Rightarrow> ('r, 'm) run \<Rightarrow> ('r, 'm) run" where
  "after_kustomize J res s =
     (case res of
        Inr m \<Rightarrow> s\<lparr>kjobs := add_mset (KManifest m) J, made := add_mset m (made s)\<rparr>
      | Inl e \<Rightarrow>
          if is_panic e then s\<lparr>kjobs := J, forwards := add_mset (panic_error e) (forwards s)\<rparr>
          else s\<lparr>kjobs := add_mset (KFail e) J\<rparr>)"

definition after_helm ::
    "('r, 'm) hjob multiset \<Rightarrow> go_error + 'm \<Rightarrow> 'r resource_index \<Rightarrow> ('r, 'm) run \<Rightarrow> ('r, 'm) run" where
  "after_helm J res idx s =
     (case res of
        Inr m \<Rightarrow> s\<lparr>hjobs := add_mset (HManifest m) J, made := add_mset m (made s), index := idx\<rparr>
      | Inl e \<Rightarrow>
          if is_panic e then s\<lparr>hjobs := J, forwards := add_mset (panic_error e) (forwards s), index := idx\<rparr>
          else s\<lparr>hjobs := add_mset (HFail e) J, index := idx\<rparr>)"

text \<open>The steps of the action that decide what a build results in.\<close>

inductive job_result :: "('r, 'm) run \<Rightarrow> ('r, 'm) run \<Rightarrow> bool" for s where
  overlay_made: "kjobs s = add_mset (KRun p) J \<Longrightarrow>
     job_result s (s\<lparr>kjobs := add_mset (KManifest m) J, made := add_mset m (made s)\<rparr>)"
| overlay_failed: "kjobs s = add_mset (KRun p) J \<Longrightarrow> job_result s (s\<lparr>kjobs := add_mset (KFail e) J\<rparr>)"
| overlay_panicked: "kjobs s = add_mset (KRun p) J \<Longrightarrow>
     job_result s (s\<lparr>kjobs := J, forwards := add_mset e (forwards s)\<rparr>)"
| release_made: "hjobs s = add_mset (HRun r) J \<Longrightarrow> dom idx = dom (index s) \<Longrightarrow>
     job_result s (s\<lparr>hjobs := add_mset (HManifest m) J, made := add_mset m (made s), index := idx\<rparr>)"
| release_failed: "hjobs s = add_mset (HRun r) J \<Longrightarrow> dom idx = dom (index s) \<Longrightarrow>
     job_result s (s\<lparr>hjobs := add_mset (HFail e) J, index := idx\<rparr>)"
| release_panicked: "hjobs s = add_mset (HRun r) J \<Longrightarrow> dom idx = dom (index s) \<Longrightarrow>
     job_result s (s\<lparr>hjobs := J, forwards := add_mset e (forwards s), index := idx\<rparr>)"

record ('r, 'm) program =
  p_run :: "('r, 'm) run"
  p_helm :: helm
  p_world :: world

definition init_program :: "('r, 'm) action \<Rightarrow> helm \<Rightarrow> world \<Rightarrow> ('r, 'm) program" where
  "init_program a h w = \<lparr>p_run = init_run a, p_helm = h, p_world = w\<rparr>"

inductive program_step ::
    "('r, 'v, 'c) helm_ext \<Rightarrow> ('q, 'f, 'm) build_ext \<Rightarrow> ('r, 'm) action \<Rightarrow>
     ('r, 'm) program \<Rightarrow> ('r, 'm) program \<Rightarrow> bool" for x bx a where
  kustomize: "kjobs (p_run g) = add_mset (KRun p) J \<Longrightarrow>
     Kustomize (bx_kustomize bx) (bx_stdin bx) (bx_cwd bx) p (p_world g) = (res, w') \<Longrightarrow>
     program_step x bx a g (g\<lparr>p_run := after_kustomize J res (p_run g), p_world := w'\<rparr>)"
| helm: "hjobs (p_run g) = add_mset (HRun r) J \<Longrightarrow>
     Build x bx (p_helm g) r (index (p_run g)) (p_world g) = (Returns res, h', idx, w') \<Longrightarrow>
     program_step x bx a g (g\<lparr>p_run := after_helm J res idx (p_run g), p_helm := h', p_world := w'\<rparr>)"
| other: "run_step a (p_run g) s' \<Longrightarrow> \<not> job_result (p_run g) s' \<Longrightarrow>
     program_step x bx a g (g\<lparr>p_run := s'\<rparr>)"

definition program_reach ::
    "('r, 'v, 'c) helm_ext \<Rightarrow> ('q, 'f, 'm) build_ext \<Rightarrow> ('r, 'm) action \<Rightarrow> helm \<Rightarrow> world \<Rightarrow>
     ('r, 'm) program \<Rightarrow> bool" where
  "program_reach x bx a h w g \<longleftrightarrow> (program_step x bx a)\<^sup>*\<^sup>* (init_program a h w) g"

section \<open>The program refines the action\<close>

lemma compose_index:
  assumes "\<And>q r. db q = Some r \<Longrightarrow> P q r"
    and "\<And>v ns r. P (values_ref v ns) r \<Longrightarrow> P (values_ref v ns) (SetGvk k r (values_gvk v))"
    and "snd (compose_loop k x hr vs result db) q = Some r"
  shows "P q r"
  using assms(1,3)
proof (induction vs arbitrary: result db)
  case (Cons v vs)
  show ?case
  proof (cases "db (values_ref v (hr_Namespace hr))")
    case None
    with Cons.prems Cons.IH[of db result] show ?thesis by (auto split: if_splits)
  next
    case (Some res)
    define db' where "db' = db(values_ref v (hr_Namespace hr) \<mapsto> SetGvk k res (values_gvk v))"
    have db': "P q r" if "db' q = Some r" for q r
      using that Cons.prems(1) Cons.prems(1)[OF Some, THEN assms(2)] by (auto simp: db'_def split: if_splits)
    have "db' q = Some r \<or> (\<exists>result'. snd (compose_loop k x hr vs result' db') q = Some r)"
      using Cons.prems(2) Some by (auto simp: Let_def db'_def[symmetric] simp del: fun_upd_apply split: sum.splits)
    with db' Cons.IH[of db', OF db'] show ?thesis by blast
  qed
qed simp

lemma compose_dom: "dom (snd (compose_loop k x hr vs result db)) = dom db"
proof (induction vs arbitrary: result db)
  case (Cons v vs)
  show ?case
  proof (cases "db (values_ref v (hr_Namespace hr))")
    case (Some res)
    then have "dom (db(values_ref v (hr_Namespace hr) \<mapsto> res')) = dom db" for res' by auto
    with Some show ?thesis by (auto simp: Cons.IH Let_def simp del: dom_fun_upd fun_upd_apply split: sum.split)
  qed (use Cons.IH in \<open>auto\<close>)
qed simp

lemma composeValues_index: "snd (composeValues k x hr db) = snd (compose_loop k x hr (hr_ValuesFrom hr) [] db)"
  by (simp add: composeValues_def split: prod.split sum.split)

text \<open>The index after a build is the one before it or the one that \<open>composeValues\<close> leaves.\<close>

lemma Build_index:
  assumes "Build x bx h r db w = (res, h', idx, w')"
  shows "idx = db \<or> (\<exists>hr. idx = snd (composeValues (h_kube x h) (hx_values x) hr db))"
proof (cases "plan_build (h_kube x h) r db")
  case (Inr y)
  then obtain hr ct repo where y: "plan_build (h_kube x h) r db = Inr (hr, ct, repo)" by (cases y) auto
  obtain o1 h1 w1 where c: "buildChart x h repo ct db w = (o1, h1, w1)" by (cases "buildChart x h repo ct db w") auto
  obtain v db' where v: "composeValues (h_kube x h) (hx_values x) hr db = (v, db')" by fastforce
  have "idx = db \<or> idx = db'"
    using assms by (auto simp: Build_def y c v split: outcome.splits sum.splits prod.splits)
  then show ?thesis using v by (metis snd_conv)
qed (use assms in \<open>simp add: Build_def\<close>)

lemma Build_dom: "Build x bx h r db w = (res, h', idx, w') \<Longrightarrow> dom idx = dom db"
  using Build_index compose_dom composeValues_index by metis

lemma after_kustomize_step:
  assumes "kjobs s = add_mset (KRun p) J"
  shows "run_step a s (after_kustomize J res s)"
  using assms by (auto simp: after_kustomize_def intro: kustomize_ok kustomize_error kustomize_panic split: sum.split)

lemma after_helm_step:
  assumes "hjobs s = add_mset (HRun r) J" and "dom idx = dom (index s)"
  shows "run_step a s (after_helm J res idx s)"
  using assms by (auto simp: after_helm_def intro: helm_ok helm_error helm_panic split: sum.split)

lemma program_step_run: "program_step x bx a g g' \<Longrightarrow> run_step a (p_run g) (p_run g')"
  by (induction rule: program_step.induct) (auto intro: after_kustomize_step after_helm_step[OF _ Build_dom])

interpretation prog: simulation "init_program a h w" "program_step x bx a" "init_run a" "run_step a" p_run
  for x bx a h w
  by unfold_locales (auto simp: init_program_def intro: program_step_run)

lemma run_reach_iff: "run_reach a s \<longleftrightarrow> (run_step a)\<^sup>*\<^sup>* (init_run a) s"
proof
  show "run_reach a s \<Longrightarrow> (run_step a)\<^sup>*\<^sup>* (init_run a) s"
    by (induction rule: run_reach.induct) (auto intro: rtranclp.rtrancl_into_rtrancl)
  show "(run_step a)\<^sup>*\<^sup>* (init_run a) s \<Longrightarrow> run_reach a s"
    by (induction rule: rtranclp_induct) (auto intro: start move)
qed

lemma program_run_reach: "program_reach x bx a h w g \<Longrightarrow> run_reach a (p_run g)"
  unfolding program_reach_def run_reach_iff by (rule prog.reachable)

lemma program_wf: "wfp (\<lambda>g' g. program_reach x bx a h w g \<and> program_step x bx a g g')"
  unfolding program_reach_def by (rule prog.well_founded) (use run_step_wf[of a] in \<open>simp add: run_reach_iff\<close>)

lemma program_start: "program_reach x bx a h w (init_program a h w)"
  by (simp add: program_reach_def)

lemma program_move: "program_reach x bx a h w g \<Longrightarrow> program_step x bx a g g' \<Longrightarrow> program_reach x bx a h w g'"
  unfolding program_reach_def by (rule rtranclp.rtrancl_into_rtrancl)

lemma program_induct [consumes 1, case_names start move]:
  assumes "program_reach x bx a h w g" and "P (init_program a h w)"
    and "\<And>g g'. program_reach x bx a h w g \<Longrightarrow> P g \<Longrightarrow> program_step x bx a g g' \<Longrightarrow> P g'"
  shows "P g"
  using assms(1)[unfolded program_reach_def]
  by (induction rule: rtranclp_induct) (auto simp: program_reach_def intro: assms(2) assms(3)[unfolded program_reach_def])

section \<open>No build blocks\<close>

lemma buildChart_returns:
  assumes "helm_ok h"
  obtains res h' w' where "buildChart x h repo ct db w = (Returns res, h', w')" and "helm_ok h'"
proof (cases repo)
  case (HelmRepositoryObj rp)
  define obj where "obj = \<lparr>hc_Chart = ct_Chart ct, hc_Version = ct_Version ct,
    hc_SourceRef = (ct_SourceRef ct)\<lparr>sr_Namespace := ''''\<rparr>, hc_ValuesFiles = ct_ValuesFiles ct,
    hc_Verify = None, Generation = 0\<rparr>"
  from buildFromHelmRepository_ok[OF assms(1), of x obj rp db w] HelmRepositoryObj that
  show ?thesis by (auto simp: buildChart_def obj_def[symmetric])
qed (use assms(1) in \<open>auto intro: that simp: buildChart_def\<close>)

lemma Build_returns:
  assumes "helm_ok h"
  obtains res h' idx w' where "Build x bx h r db w = (Returns res, h', idx, w')" and "helm_ok h'"
proof (cases "plan_build (h_kube x h) r db")
  case (Inl e)
  with assms show ?thesis by (auto intro: that simp: Build_def)
next
  case (Inr y)
  then obtain hr ct repo where y: "plan_build (h_kube x h) r db = Inr (hr, ct, repo)" by (cases y) auto
  obtain res h' w' where c: "buildChart x h repo ct db w = (Returns res, h', w')" and h': "helm_ok h'"
    by (rule buildChart_returns[OF assms])
  have "\<exists>res' idx w2. Build x bx h r db w = (Returns res', h', idx, w2)"
    by (auto simp: Build_def y c split: sum.split prod.split)
  with h' show ?thesis using that by blast
qed

lemma program_ready:
  assumes "program_reach x bx a h w g" and "helm_ok h"
  shows "helm_ok (p_helm g)"
  using assms(1)
proof (induction rule: program_induct)
  case start
  show ?case using assms(2) by (simp add: init_program_def)
next
  case (move g g')
  have "helm_ok h'" if "Build x bx (p_helm g) r db w = (o1, h', idx, w')" for r db w o1 h' idx w'
    using Build_returns[OF move.IH, of x bx r db w] that by auto
  with move.hyps(2) move.IH show ?case by cases auto
qed

lemma job_result_busy:
  "job_result s s' \<Longrightarrow> (\<exists>p J. kjobs s = add_mset (KRun p) J) \<or> (\<exists>r J. hjobs s = add_mset (HRun r) J)"
  by (induction rule: job_result.induct) blast+

lemma program_not_stuck:
  assumes "program_reach x bx a h w g" and "helm_ok h" and "0 < Workers a"
  shows "(\<exists>g'. program_step x bx a g g') \<or> (\<exists>n. main (p_run g) = Exited n)"
proof -
  from run_not_stuck[OF program_run_reach[OF assms(1)] assms(3)]
  consider s' where "run_step a (p_run g) s'" "\<not> job_result (p_run g) s'" | s' where "job_result (p_run g) s'"
    | n where "main (p_run g) = Exited n" by blast
  then show ?thesis
  proof cases
    case 1
    then show ?thesis by (blast intro: other)
  next
    case 2
    then consider p J where "kjobs (p_run g) = add_mset (KRun p) J" | r J where "hjobs (p_run g) = add_mset (HRun r) J"
      using job_result_busy by blast
    then show ?thesis
    proof cases
      case 1
      then show ?thesis by (cases "Kustomize (bx_kustomize bx) (bx_stdin bx) (bx_cwd bx) p (p_world g)") (blast intro: kustomize)
    next
      case 2
      obtain res h' idx w' where "Build x bx (p_helm g) r (index (p_run g)) (p_world g) = (Returns res, h', idx, w')"
        by (rule Build_returns[OF program_ready[OF assms(1,2)]])
      with 2 show ?thesis by (blast intro: helm)
    qed
  next
    case 3
    then show ?thesis by blast
  qed
qed

lemma program_exits:
  assumes "program_reach x bx a h w g" and "helm_ok h" and "0 < Workers a"
  shows "\<exists>g' n. (program_step x bx a)\<^sup>*\<^sup>* g g' \<and> main (p_run g') = Exited n"
  using program_wf[of x bx a h w] assms(1)
proof (induction g rule: wfp_induct_rule)
  case (less g)
  from program_not_stuck[OF less.prems assms(2,3)] show ?case
  proof
    assume "\<exists>g'. program_step x bx a g g'"
    then obtain g' where g': "program_step x bx a g g'" ..
    with less.IH[of g'] program_move[OF less.prems g'] less.prems show ?case
      by (meson converse_rtranclp_into_rtranclp)
  qed blast
qed

lemma program_reach_trans:
  "program_reach x bx a h w g \<Longrightarrow> (program_step x bx a)\<^sup>*\<^sup>* g g' \<Longrightarrow> program_reach x bx a h w g'"
  unfolding program_reach_def by (rule rtranclp_trans)

lemma started_ready:
  assumes "main_start mx lib os env args w0 = (Inr (Runs st), w1)"
  shows "helm_ok (NewHelmBuilder universal (helm_options st))"
  using assms
proof (rule main_start_runs)
  fix c rest paths w2
  assume "NewCache (cfg_Cache c) (CacheDir c) w0 = (Inr (st_Cache st), w2)"
  from NewCache_ok[OF this] NewHelmBuilder_ok[of "helm_options st" universal]
  show ?thesis by (simp add: helm_options_def)
qed

section \<open>What comes of which task\<close>

text \<open>
  What there is of a task: it has yet to run, it failed, or it made a manifest. A task whose error
  has been taken by the collector, or is about to be after a panic, has left.
\<close>

datatype ('j, 'm) item = Todo 'j | Failed | Made 'm

fun kitem :: "'m kjob \<Rightarrow> (string, 'm) item multiset" where
  "kitem (KRun p) = {#Todo p#}"
| "kitem (KFail e) = {#Failed#}"
| "kitem (KManifest m) = {#Made m#}"
| "kitem (KResource m) = {#}"

fun hitem :: "('r, 'm) hjob \<Rightarrow> ('r, 'm) item multiset" where
  "hitem (HQueued r) = {#Todo r#}"
| "hitem (HRun r) = {#Todo r#}"
| "hitem (HFail e) = {#Failed#}"
| "hitem (HManifest m) = {#Made m#}"

definition overlay_items :: "('r, 'm) run \<Rightarrow> (string, 'm) item multiset" where
  "overlay_items s = sum_mset (image_mset kitem (kjobs s)) + image_mset Made (mset (overlays s))"

definition release_items :: "('r, 'm) run \<Rightarrow> ('r, 'm) item multiset" where
  "release_items s = sum_mset (image_mset hitem (hjobs s)) + image_mset Made (mset (releases s))"

text \<open>No error was raised so far.\<close>

definition clean :: "('r, 'm) run \<Rightarrow> bool" where
  "clean s \<longleftrightarrow> received s = [] \<and> forwards s = {#}"

text \<open>Every item has an origin of its own, and every origin an item if \<open>all\<close> says so.\<close>

definition traced :: "('k \<Rightarrow> 'i \<Rightarrow> bool) \<Rightarrow> 'k multiset \<Rightarrow> 'i multiset \<Rightarrow> bool \<Rightarrow> bool" where
  "traced R T Y all \<longleftrightarrow> (\<exists>K. K \<subseteq># T \<and> rel_mset R K Y \<and> (all \<longrightarrow> K = T))"

fun accounts :: "('k \<Rightarrow> 'j \<Rightarrow> bool) \<Rightarrow> ('k \<Rightarrow> 'm \<Rightarrow> bool) \<Rightarrow> 'k \<Rightarrow> ('j, 'm) item \<Rightarrow> bool" where
  "accounts T B k (Todo j) \<longleftrightarrow> T k j"
| "accounts T B k Failed \<longleftrightarrow> True"
| "accounts T B k (Made m) \<longleftrightarrow> B k m"

lemma traced_mono:
  assumes "traced R T Y all" and "\<And>k y. R k y \<Longrightarrow> R' k y" and "T \<subseteq># T'" and "all' \<Longrightarrow> all \<and> T' = T"
  shows "traced R' T' Y all'"
proof -
  obtain K where K: "K \<subseteq># T" "rel_mset R K Y" "all \<longrightarrow> K = T" using assms(1) by (auto simp: traced_def)
  from K(2) have "rel_mset R' K Y" by (rule multiset.rel_mono_strong) (rule assms(2))
  moreover have "K \<subseteq># T'" using K(1) assms(3) by (rule subset_mset.order_trans)
  ultimately show ?thesis using K(3) assms(4) by (auto simp: traced_def)
qed

lemma traced_drop:
  assumes "traced R T (add_mset y Y) all"
  shows "traced R T Y False"
proof -
  obtain K where K: "K \<subseteq># T" "rel_mset R K (add_mset y Y)" using assms by (auto simp: traced_def)
  from msed_rel_invR[OF K(2)] obtain K' k where "K = add_mset k K'" "rel_mset R K' Y" by auto
  with K(1) show ?thesis unfolding traced_def by (metis add_mset_remove_trivial diff_subset_eq_self subset_mset.order_trans)
qed

lemma traced_change:
  assumes "traced R T (add_mset y Y) all" and "\<And>k. R k y \<Longrightarrow> R k y'"
  shows "traced R T (add_mset y' Y) all"
proof -
  obtain K where K: "K \<subseteq># T" "rel_mset R K (add_mset y Y)" "all \<longrightarrow> K = T" using assms(1) by (auto simp: traced_def)
  from msed_rel_invR[OF K(2)] obtain K' k where "K = add_mset k K'" "R k y" "rel_mset R K' Y" by auto
  with assms(2) have "rel_mset R K (add_mset y' Y)" by (simp add: rel_mset_Plus)
  with K show ?thesis by (auto simp: traced_def)
qed

lemma traced_add:
  assumes "traced R T Y all" and "R k y"
  shows "traced R (add_mset k T) (add_mset y Y) all"
proof -
  obtain K where K: "K \<subseteq># T" "rel_mset R K Y" "all \<longrightarrow> K = T" using assms(1) by (auto simp: traced_def)
  with assms(2) show ?thesis unfolding traced_def
    by (intro exI[of _ "add_mset k K"]) (auto simp: rel_mset_Plus)
qed

lemma traced_Made:
  "traced (accounts T B) S (image_mset Made (mset ms)) all \<longleftrightarrow>
     (\<exists>K. K \<subseteq># S \<and> rel_mset B K (mset ms) \<and> (all \<longrightarrow> K = S))"
  by (simp add: traced_def multiset.rel_map)

lemma cancelled_received: "run_reach a s \<Longrightarrow> cancelled s \<Longrightarrow> received s \<noteq> []"
proof (induction rule: run_reach.induct)
  case (move s s')
  have "received s \<noteq> []" if "collector s = CHave e" for e
    using errors_inv_reach[OF move.hyps(1)] that by (simp add: errors_inv_def)
  with move.hyps(2) move.IH move.prems show ?case by cases (auto simp: send_err_def)
qed (simp add: init_run_def)

text \<open>A step that is no result of a build keeps all items, or it takes one and there was an error.\<close>

lemma other_overlay_items:
  assumes "run_step a s s'" and "cancelled s \<Longrightarrow> received s \<noteq> []"
  shows "job_result s s' \<or>
    ((clean s' \<longrightarrow> clean s) \<and>
     (overlay_items s' = overlay_items s \<or>
      (\<exists>y. overlay_items s = add_mset y (overlay_items s') \<and> \<not> clean s')))"
  by (rule run_step.cases[OF assms(1)]; ((hypsubst, rule disjI1, rule job_result.intros; assumption)
      | (use assms(2) in \<open>auto simp: overlay_items_def clean_def send_err_def\<close>)))

text \<open>The entries of the index that \<open>Run\<close> has looked at.\<close>

definition visited :: "('r, 'm) run \<Rightarrow> obj_ref set" where
  "visited s =
     (case main s of
        Kustomizing \<Rightarrow> {} | Indexing \<Rightarrow> {} | Submitting R \<Rightarrow> dom (index s) - R | _ \<Rightarrow> dom (index s))"

lemma other_release_items:
  assumes "run_step a s s'" and "cancelled s \<Longrightarrow> received s \<noteq> []" and "overlays_inv a s" and "releases_inv s"
  shows "job_result s s' \<or>
    release_items s' = release_items s \<and> visited s' = visited s \<or>
    (\<exists>y. release_items s = add_mset y (release_items s')) \<and> \<not> clean s' \<and> visited s' = visited s \<or>
    release_items s' = release_items s \<and> \<not> clean s' \<and> visited s \<subseteq> visited s' \<or>
    (\<exists>q r. q \<notin> visited s \<and> index s q = Some r \<and> visited s' = insert q (visited s) \<and>
       release_items s' = (if is_HelmRelease a r then {#Todo r#} else {#}) + release_items s)"
  by (rule run_step.cases[OF assms(1)]; ((hypsubst, rule disjI1, rule job_result.intros; assumption)
      | (use assms(2-4) in \<open>auto simp: release_items_def clean_def send_err_def visited_def overlays_inv_def releases_inv_def
          split: main_pc.splits\<close>)))

subsection \<open>The index\<close>

text \<open>
  Which resource may be found under a key: one of a manifest, that has this key, and then the same
  with its version set by a build that reads values.
\<close>

definition keys :: "('r, 'm) action \<Rightarrow> 'm \<Rightarrow> obj_ref set" where
  "keys a m = {q. \<exists>r\<in>set (Resources_of a m). index_key (act_kube a) r = Inr q}"

inductive entry ::
    "('r, 'v, 'c) helm_ext \<Rightarrow> ('r, 'm) action \<Rightarrow> 'm set \<Rightarrow> obj_ref \<Rightarrow> 'r \<Rightarrow> bool" for x a M where
  pushed: "m \<in> M \<Longrightarrow> r \<in> set (Resources_of a m) \<Longrightarrow> index_key (act_kube a) r = Inr q \<Longrightarrow> entry x a M q r"
| typed: "entry x a M (values_ref v ns) r \<Longrightarrow> entry x a M (values_ref v ns) (SetGvk (hx_kube x) r (values_gvk v))"

lemma entry_mono: "entry x a M q r \<Longrightarrow> M \<subseteq> M' \<Longrightarrow> entry x a M' q r"
  by (induction rule: entry.induct) (auto intro: entry.intros)

lemma entry_keys: "entry x a M q r \<Longrightarrow> \<exists>m\<in>M. q \<in> keys a m"
  by (induction rule: entry.induct) (auto simp: keys_def)

lemma Push_from: "Push k rs idx = (e, idx') \<Longrightarrow> idx' q = Some r \<Longrightarrow>
    idx q = Some r \<or> r \<in> set rs \<and> index_key k r = Inr q"
  by (induction rs arbitrary: idx) (fastforce split: sum.splits if_splits)+

lemma Push_dom: "Push k rs idx = (e, idx') \<Longrightarrow> dom idx \<subseteq> dom idx'"
  by (induction rs arbitrary: idx) (fastforce split: sum.splits)+

lemma Push_all: "Push k rs idx = (None, idx') \<Longrightarrow> r \<in> set rs \<Longrightarrow> index_key k r = Inr q \<Longrightarrow> q \<in> dom idx'"
proof (induction rs arbitrary: idx)
  case (Cons r' rs)
  then obtain q' where q': "index_key k r' = Inr q'" "Push k rs (idx(q' \<mapsto> r')) = (None, idx')"
    by (auto split: sum.splits)
  with Push_dom[OF q'(2)] Cons show ?case by (cases "r = r'") auto
qed simp

text \<open>A manifest is on its way to the index, or the index has its resources.\<close>

definition reaches_index :: "('r, 'm) action \<Rightarrow> ('r, 'm) run \<Rightarrow> 'm \<Rightarrow> bool" where
  "reaches_index a s m \<longleftrightarrow>
     m \<in> set (resources_ch s) \<or> KResource m \<in># kjobs s \<or> keys a m \<subseteq> dom (index s)"

definition index_inv :: "('r, 'v, 'c) helm_ext \<Rightarrow> ('r, 'm) action \<Rightarrow> ('r, 'm) run \<Rightarrow> bool" where
  "index_inv x a s \<longleftrightarrow>
     (\<forall>q r. index s q = Some r \<longrightarrow> entry x a (set (overlays s)) q r) \<and>
     set (resources_ch s) \<union> {m. KResource m \<in># kjobs s} \<subseteq> set (overlays s) \<and>
     (clean s \<and> (\<forall>e. indexer s \<noteq> Fail e) \<longrightarrow> (\<forall>m\<in>set (overlays s). reaches_index a s m))"

lemma index_inv_push:
  assumes "index_inv x a s" and "resources_ch s = m # ms" and "indexer s = Recv"
    and "Push (act_kube a) (Resources_of a m) (index s) = (e, idx)"
  shows "index_inv x a (s\<lparr>resources_ch := ms, index := idx, indexer := (case e of None \<Rightarrow> Recv | Some e \<Rightarrow> Fail e)\<rparr>)"
    (is "index_inv x a ?s")
proof -
  have m: "m \<in> set (overlays s)" using assms(1,2) by (auto simp: index_inv_def)
  have "entry x a (set (overlays s)) q r" if "idx q = Some r" for q r
    using Push_from[OF assms(4) that] assms(1) m by (auto simp: index_inv_def intro: pushed)
  moreover have "reaches_index a ?s m'" if "e = None" "clean s" "m' \<in> set (overlays s)" for m'
  proof -
    have "keys a m \<subseteq> dom idx" using Push_all[OF assms(4)[unfolded that(1)]] by (auto simp: keys_def)
    moreover have "reaches_index a s m'" using assms(1,3) that by (simp add: index_inv_def)
    ultimately show ?thesis using Push_dom[OF assms(4)] assms(2) by (simp add: reaches_index_def, blast)
  qed
  moreover have "clean ?s = clean s" by (simp add: clean_def)
  ultimately show ?thesis using assms(1,2) by (cases e) (auto simp: index_inv_def)
qed

lemma index_inv_other:
  assumes "index_inv x a s" and "index s' = index s" and "indexer s' = indexer s" and "clean s' \<longrightarrow> clean s"
    and "resources_ch s' = resources_ch s" and "kjobs s' = kjobs s" and "overlays s' = overlays s"
  shows "index_inv x a s'"
  using assms by (simp add: index_inv_def reaches_index_def)

lemma other_index:
  assumes "run_step a s s'" and "index_inv x a s"
  shows "job_result s s' \<or> index_inv x a s'"
  using assms(1)
proof cases
  case (index_push m ms idx)
  with index_inv_push[OF assms(2) index_push(3,2,4)] show ?thesis
    by (simp add: index_inv_def reaches_index_def clean_def)
next
  case (index_error m ms e idx)
  with index_inv_push[OF assms(2) index_error(3,2,4)] show ?thesis by simp
next
  case (kustomize_manifest m J)
  have "entry x a (set (overlays s')) q r" if "entry x a (set (overlays s)) q r" for q r
    using that by (rule entry_mono) (use kustomize_manifest in auto)
  with assms(2) kustomize_manifest show ?thesis by (auto simp: index_inv_def reaches_index_def clean_def)
next
  case (index_report e)
  with assms(2) show ?thesis by (auto simp: index_inv_def clean_def send_err_def)
qed ((hypsubst, rule disjI1, rule job_result.intros; assumption)
  | (rule disjI2, rule index_inv_other[OF assms(2)]; simp add: clean_def send_err_def; fail)
  | (use assms(2) in \<open>auto simp: index_inv_def reaches_index_def clean_def send_err_def\<close>; fail))+

subsection \<open>The invariant of the program\<close>

text \<open>
  The manifest of an overlay was made by kustomize from a path in some state of the program, and
  that of a release by \<open>Build\<close> from an entry of the index.
\<close>

definition overlay_of ::
    "('r, 'v, 'c) helm_ext \<Rightarrow> ('q, 'f, 'm) build_ext \<Rightarrow> ('r, 'm) action \<Rightarrow> helm \<Rightarrow> world \<Rightarrow>
     string \<Rightarrow> 'm \<Rightarrow> bool" where
  "overlay_of x bx a h w p m \<longleftrightarrow>
     (\<exists>g w'. program_reach x bx a h w g \<and>
        Kustomize (bx_kustomize bx) (bx_stdin bx) (bx_cwd bx) p (p_world g) = (Inr m, w'))"

definition release_of ::
    "('r, 'v, 'c) helm_ext \<Rightarrow> ('q, 'f, 'm) build_ext \<Rightarrow> ('r, 'm) action \<Rightarrow> helm \<Rightarrow> world \<Rightarrow> 'm set \<Rightarrow>
     obj_ref \<Rightarrow> 'm \<Rightarrow> bool" where
  "release_of x bx a h w M q m \<longleftrightarrow>
     (\<exists>g r h' idx w'. program_reach x bx a h w g \<and> entry x a M q r \<and>
        Build x bx (p_helm g) r (index (p_run g)) (p_world g) = (Returns (Inr m), h', idx, w'))"

text \<open>
  The documented behaviour of resources: the kind of a resource is the one its metadata have, and
  the one that was set last.
\<close>

definition kinds_agree :: "('r, 'v, 'c) helm_ext \<Rightarrow> ('r, 'm) action \<Rightarrow> bool" where
  "kinds_agree x a \<longleftrightarrow>
     (\<forall>r q. index_key (act_kube a) r = Inr q \<longrightarrow> is_HelmRelease a r = (Kind q = ''HelmRelease'')) \<and>
     (\<forall>r g. is_HelmRelease a (SetGvk (hx_kube x) r g) = (Kind g = ''HelmRelease''))"

lemma entry_kind: "entry x a M q r \<Longrightarrow> kinds_agree x a \<Longrightarrow> is_HelmRelease a r = (Kind q = ''HelmRelease'')"
  by (induction rule: entry.induct)
    (auto simp: kinds_agree_def values_gvk_def values_ref_def obj_reference_def)

definition release_keys :: "obj_ref set \<Rightarrow> obj_ref multiset" where
  "release_keys D = mset_set {q \<in> D. Kind q = ''HelmRelease''}"

definition traced_inv ::
    "('r, 'v, 'c) helm_ext \<Rightarrow> ('q, 'f, 'm) build_ext \<Rightarrow> ('r, 'm) action \<Rightarrow> helm \<Rightarrow> world \<Rightarrow>
     ('r, 'm) run \<Rightarrow> bool" where
  "traced_inv x bx a h w s \<longleftrightarrow>
     index_inv x a s \<and>
     traced (accounts (=) (overlay_of x bx a h w)) (mset (Paths a)) (overlay_items s) (clean s) \<and>
     traced (accounts (entry x a (set (overlays s))) (release_of x bx a h w (set (overlays s))))
       (release_keys (visited s)) (release_items s) (clean s)"

lemma release_of_mono: "release_of x bx a h w M q m \<Longrightarrow> M \<subseteq> M' \<Longrightarrow> release_of x bx a h w M' q m"
  unfolding release_of_def by (meson entry_mono)

lemma accounts_mono:
  assumes "M \<subseteq> M'" and "accounts (entry x a M) (release_of x bx a h w M) k y"
  shows "accounts (entry x a M') (release_of x bx a h w M') k y"
  using assms(2) by (cases y) (auto intro: entry_mono[OF _ assms(1)] release_of_mono[OF _ assms(1)])

lemma overlays_grow: "run_step a s s' \<Longrightarrow> set (overlays s) \<subseteq> set (overlays s')"
  by (induction rule: run_step.induct) (auto simp: send_err_def)

lemma release_keys_mono: "finite D' \<Longrightarrow> D \<subseteq> D' \<Longrightarrow> release_keys D \<subseteq># release_keys D'"
  unfolding release_keys_def by (intro subset_imp_msubset_mset_set) auto

lemma release_keys_insert:
  assumes "finite D" and "q \<notin> D"
  shows "release_keys (insert q D) = (if Kind q = ''HelmRelease'' then {#q#} else {#}) + release_keys D"
proof -
  have "{k. (k = q \<or> k \<in> D) \<and> Kind k = ''HelmRelease''} =
      (if Kind q = ''HelmRelease'' then insert q {k \<in> D. Kind k = ''HelmRelease''} else {k \<in> D. Kind k = ''HelmRelease''})"
    by auto
  with assms show ?thesis by (simp add: release_keys_def)
qed

lemma visited_finite: "overlays_inv a s \<Longrightarrow> finite (visited s)"
  by (auto simp: visited_def overlays_inv_def split: main_pc.split)

text \<open>The steps that are no results of builds.\<close>

lemma traced_inv_other:
  assumes "run_step a s s'" and "\<not> job_result s s'" and "run_reach a s" and "kinds_agree x a"
    and "traced_inv x bx a h w s"
  shows "traced_inv x bx a h w s'"
proof -
  let ?R = "\<lambda>s. accounts (entry x a (set (overlays s))) (release_of x bx a h w (set (overlays s)))"
  note inv = run_invs[OF assms(3)]
  have inv': "overlays_inv a s'" using overlays_inv_step[OF assms(1)] inv by blast
  have canc: "cancelled s \<Longrightarrow> received s \<noteq> []" by (rule cancelled_received[OF assms(3)])
  have i: "index_inv x a s"
    and o: "traced (accounts (=) (overlay_of x bx a h w)) (mset (Paths a)) (overlay_items s) (clean s)"
    and r: "traced (?R s) (release_keys (visited s)) (release_items s) (clean s)"
    using assms(5) by (auto simp: traced_inv_def)
  have "index_inv x a s'" using other_index[OF assms(1) i] assms(2) by blast
  moreover have c: "clean s' \<longrightarrow> clean s"
    and "overlay_items s' = overlay_items s \<or> (\<exists>y. overlay_items s = add_mset y (overlay_items s') \<and> \<not> clean s')"
    using other_overlay_items[OF assms(1) canc] assms(2) by blast+
  then have "traced (accounts (=) (overlay_of x bx a h w)) (mset (Paths a)) (overlay_items s') (clean s')"
    using o by (auto intro: traced_mono[OF o] traced_mono[OF traced_drop])
  moreover have "traced (?R s') (release_keys (visited s')) (release_items s') (clean s')"
  proof -
    have R: "?R s' k y" if "?R s k y" for k y using that by (rule accounts_mono[OF overlays_grow[OF assms(1)]])
    note m = traced_mono[where R = "?R s" and R' = "?R s'", OF _ R]
    from other_release_items[OF assms(1) canc conjunct1[OF inv] conjunct2[OF inv]] assms(2)
    consider "release_items s' = release_items s" "visited s' = visited s"
      | y where "release_items s = add_mset y (release_items s')" "\<not> clean s'" "visited s' = visited s"
      | "release_items s' = release_items s" "\<not> clean s'" "visited s \<subseteq> visited s'"
      | q e where "q \<notin> visited s" "index s q = Some e" "visited s' = insert q (visited s)"
        "release_items s' = (if is_HelmRelease a e then {#Todo e#} else {#}) + release_items s" by blast
    then show ?thesis
    proof cases
      case 1
      with c show ?thesis by (intro m[of _ _ "clean s"]) (auto intro: r)
    next
      case (2 y)
      with r have "traced (?R s) (release_keys (visited s)) (release_items s') False" by (auto intro: traced_drop)
      with 2 show ?thesis by (intro m[of _ _ False]) auto
    next
      case 3
      with release_keys_mono[OF visited_finite[OF inv']] show ?thesis by (intro m[of _ _ "clean s"]) (auto intro: r)
    next
      case (4 q e)
      from i 4(2) have en: "entry x a (set (overlays s)) q e" by (simp add: index_inv_def)
      have fin: "finite (visited s)" using visited_finite inv by blast
      have k: "is_HelmRelease a e = (Kind q = ''HelmRelease'')" by (rule entry_kind[OF en assms(4)])
      have "traced (?R s) (release_keys (visited s')) (release_items s') (clean s)"
        using traced_add[OF r, of q "Todo e"] r en by (simp add: 4(3,4) release_keys_insert[OF fin 4(1)] k)
      with c show ?thesis by (intro m[of _ _ "clean s"]) auto
    qed
  qed
  ultimately show ?thesis by (simp add: traced_inv_def)
qed

text \<open>The results of builds.\<close>

lemma result_clean: "clean (after_kustomize J res s) \<Longrightarrow> clean s" "clean (after_helm L res idx s) \<Longrightarrow> clean s"
  by (auto simp: after_kustomize_def after_helm_def clean_def split: sum.splits if_splits)

lemma visited_cong: "main s' = main s \<Longrightarrow> dom (index s') = dom (index s) \<Longrightarrow> visited s' = visited s"
  by (simp add: visited_def split: main_pc.split)

lemma after_kustomize_keeps [simp]:
  "hjobs (after_kustomize J res s) = hjobs s" "releases (after_kustomize J res s) = releases s"
  "overlays (after_kustomize J res s) = overlays s" "index (after_kustomize J res s) = index s"
  "main (after_kustomize J res s) = main s"
  by (auto simp: after_kustomize_def split: sum.split)

lemma after_helm_keeps [simp]:
  "kjobs (after_helm J res idx s) = kjobs s" "releases (after_helm J res idx s) = releases s"
  "overlays (after_helm J res idx s) = overlays s" "index (after_helm J res idx s) = idx"
  "main (after_helm J res idx s) = main s"
  by (auto simp: after_helm_def split: sum.split)

text \<open>The three ways in which the code that a task calls may return.\<close>

definition result_items :: "go_error + 'm \<Rightarrow> ('j, 'm) item multiset" where
  "result_items res = (case res of Inr m \<Rightarrow> {#Made m#} | Inl e \<Rightarrow> if is_panic e then {#} else {#Failed#})"

lemma traced_result:
  assumes "traced (accounts T B) S (add_mset (Todo j) Y) all" and "\<And>k m. T k j \<Longrightarrow> res = Inr m \<Longrightarrow> B k m"
    and "all' \<Longrightarrow> all" and "\<And>e. res = Inl e \<Longrightarrow> is_panic e \<Longrightarrow> \<not> all'"
  shows "traced (accounts T B) S (result_items res + Y) all'"
proof -
  consider m where "res = Inr m" | e where "res = Inl e" "is_panic e" | e where "res = Inl e" "\<not> is_panic e"
    by (cases res) auto
  then show ?thesis
  proof cases
    case (1 m)
    have "traced (accounts T B) S (add_mset (Made m) Y) all"
      by (rule traced_change[OF assms(1)]) (use assms(2) 1 in auto)
    with 1 assms(3) show ?thesis by (auto simp: result_items_def intro: traced_mono)
  next
    case 2
    with traced_drop[OF assms(1)] assms(4) show ?thesis by (auto simp: result_items_def)
  next
    case 3
    have "traced (accounts T B) S (add_mset Failed Y) all" by (rule traced_change[OF assms(1)]) simp
    with 3 assms(3) show ?thesis by (auto simp: result_items_def intro: traced_mono)
  qed
qed

lemma kustomize_traced:
  assumes "traced (accounts T B) S (overlay_items s) (clean s)" and "kjobs s = add_mset (KRun p) J"
    and "\<And>k m. T k p \<Longrightarrow> res = Inr m \<Longrightarrow> B k m"
  shows "traced (accounts T B) S (overlay_items (after_kustomize J res s)) (clean (after_kustomize J res s))"
proof -
  define Y where "Y = sum_mset (image_mset kitem J) + image_mset Made (mset (overlays s))"
  have "traced (accounts T B) S (add_mset (Todo p) Y) (clean s)"
    using assms(1,2) by (simp add: overlay_items_def Y_def)
  then have "traced (accounts T B) S (result_items res + Y) (clean (after_kustomize J res s))"
    by (rule traced_result) (auto intro: assms(3) result_clean(1), simp add: after_kustomize_def clean_def)
  then show ?thesis by (cases res) (auto simp: after_kustomize_def overlay_items_def Y_def result_items_def split: if_splits)
qed

lemma helm_traced:
  assumes "traced (accounts T B) S (release_items s) (clean s)" and "hjobs s = add_mset (HRun r) J"
    and "\<And>k m. T k r \<Longrightarrow> res = Inr m \<Longrightarrow> B k m"
  shows "traced (accounts T B) S (release_items (after_helm J res idx s)) (clean (after_helm J res idx s))"
proof -
  define Y where "Y = sum_mset (image_mset hitem J) + image_mset Made (mset (releases s))"
  have "traced (accounts T B) S (add_mset (Todo r) Y) (clean s)"
    using assms(1,2) by (simp add: release_items_def Y_def)
  then have "traced (accounts T B) S (result_items res + Y) (clean (after_helm J res idx s))"
    by (rule traced_result) (auto intro: assms(3) result_clean(2), simp add: after_helm_def clean_def)
  then show ?thesis by (cases res) (auto simp: after_helm_def release_items_def Y_def result_items_def split: if_splits)
qed

text \<open>A result that raises no error of its own leaves the items of the other pool to what they were.\<close>

lemma traced_weaken: "traced R S Y (clean s) \<Longrightarrow> (clean s' \<Longrightarrow> clean s) \<Longrightarrow> traced R S Y (clean s')"
  using traced_mono[of R S Y "clean s" R S "clean s'"] by simp

lemma index_inv_kustomize:
  assumes "index_inv x a s" and "kjobs s = add_mset (KRun p) J"
  shows "index_inv x a (after_kustomize J res s)"
  using assms by (auto simp: index_inv_def reaches_index_def after_kustomize_def clean_def split: sum.splits)

lemma Build_entry:
  assumes "Build x bx h r db w = (res, h', idx, w')" and "\<And>q r. db q = Some r \<Longrightarrow> entry x a M q r"
    and "idx q = Some r'"
  shows "entry x a M q r'"
  using Build_index[OF assms(1)]
proof
  assume "\<exists>hr. idx = snd (composeValues (h_kube x h) (hx_values x) hr db)"
  then obtain hr where "snd (compose_loop (h_kube x h) (hx_values x) hr (hr_ValuesFrom hr) [] db) q = Some r'"
    using assms(3) composeValues_index by metis
  moreover have "SetGvk (h_kube x h) = SetGvk (hx_kube x)" by (simp add: h_kube_def)
  ultimately show ?thesis
    using compose_index[of db "entry x a M" "h_kube x h", OF assms(2)] typed[of x a M] by simp
qed (use assms(2,3) in auto)

lemma index_inv_helm:
  assumes "index_inv x a s" and "Build x bx h r (index s) w = (o1, h', idx, w')"
  shows "index_inv x a (after_helm J res idx s)"
proof -
  have "entry x a (set (overlays s)) q r" if "idx q = Some r" for q r
    by (rule Build_entry[OF assms(2) _ that]) (use assms(1) in \<open>auto simp: index_inv_def\<close>)
  moreover have "dom idx = dom (index s)" by (rule Build_dom[OF assms(2)])
  ultimately show ?thesis
    using assms(1) by (auto simp: index_inv_def reaches_index_def after_helm_def clean_def split: sum.splits)
qed

lemma traced_empty: "traced R {#} {#} all"
  by (simp add: traced_def rel_mset_Zero)

lemma traced_inv_reach:
  assumes "program_reach x bx a h w g" and "kinds_agree x a"
  shows "traced_inv x bx a h w (p_run g)"
  using assms(1)
proof (induction rule: program_induct)
  case start
  have items: "sum_mset (image_mset kitem (image_mset KRun (mset ps))) = image_mset Todo (mset ps)" for ps
    by (induction ps) simp_all
  have todo: "rel_mset (accounts (=) (overlay_of x bx a h w)) M (image_mset Todo M)" for M
    by (induction M) (auto simp: rel_mset_Zero rel_mset_Plus)
  have "traced (accounts (=) (overlay_of x bx a h w)) M (image_mset Todo M) all" for M all
    unfolding traced_def using todo by blast
  then show ?case
    by (simp add: traced_inv_def index_inv_def init_program_def init_run_def overlay_items_def release_items_def
        items visited_def release_keys_def traced_empty image_iff)
next
  case (move g g')
  let ?s = "p_run g"
  have i: "index_inv x a ?s"
    and o: "traced (accounts (=) (overlay_of x bx a h w)) (mset (Paths a)) (overlay_items ?s) (clean ?s)"
    and r: "traced (accounts (entry x a (set (overlays ?s))) (release_of x bx a h w (set (overlays ?s))))
      (release_keys (visited ?s)) (release_items ?s) (clean ?s)"
    using move.IH by (auto simp: traced_inv_def)
  from move.hyps(2) show ?case
  proof cases
    case (kustomize p J res w')
    have "overlay_of x bx a h w p m" if "res = Inr m" for m
      using move.hyps(1) kustomize(3) that by (auto simp: overlay_of_def)
    then show ?thesis
      using index_inv_kustomize[OF i kustomize(2)] kustomize_traced[OF o kustomize(2), of res]
        traced_weaken[OF r result_clean(1)] visited_cong[of "after_kustomize J res ?s" ?s]
      by (simp add: traced_inv_def kustomize(1) release_items_def)
  next
    case (helm rs J res h' idx w')
    have "release_of x bx a h w (set (overlays ?s)) k m" if "entry x a (set (overlays ?s)) k rs" "res = Inr m" for k m
      unfolding release_of_def using move.hyps(1) helm(3)[unfolded that(2)] that(1) by blast
    then show ?thesis
      using index_inv_helm[OF i helm(3)] helm_traced[OF r helm(2), of res idx]
        traced_weaken[OF o result_clean(2)] visited_cong[of "after_helm J res idx ?s" ?s] Build_dom[OF helm(3)]
      by (simp add: traced_inv_def helm(1) overlay_items_def)
  next
    case (other s')
    with traced_inv_other[OF other(2,3) program_run_reach[OF move.hyps(1)] assms(2) move.IH] show ?thesis by simp
  qed
qed

lemma msubset_mset_set:
  assumes "K \<subseteq># mset_set D" and "finite D"
  shows "K = mset_set (set_mset K)" and "set_mset K \<subseteq> D"
proof -
  have "count K y \<le> (if y \<in> D then 1 else 0)" for y
    using mset_subset_eq_count[OF assms(1), of y] assms(2) by (simp add: count_mset_set')
  then have "count K y = (if y \<in># K then 1 else 0)" for y
    using count_greater_zero_iff[of K y] by (metis One_nat_def Suc_leI le_antisym le_zero_eq not_gr_zero zero_less_one)
  then show "K = mset_set (set_mset K)" by (intro multiset_eqI) (simp add: count_mset_set')
  show "set_mset K \<subseteq> D" using set_mset_mono[OF assms(1)] assms(2) by simp
qed

section \<open>What the program prints\<close>

text \<open>The state of a run that has ended, whose items are all made.\<close>

lemma ended:
  assumes "run_reach a s" and "main s = Exited n"
  shows "kjobs s = {#}" and "hjobs s = {#}" and "resources_ch s = []" and "indexer s = Done"
    and "forwards s = {#}" and "visited s = dom (index s)" and "finite (dom (index s))"
    and "map fst (taken s) = overlays s @ releases s"
  using run_invs[OF assms(1)] print_inv_reach[OF assms(1)] assms(2)
  by (auto simp: overlays_inv_def releases_inv_def print_inv_def visited_def)

definition releases_in :: "('r, 'm) run \<Rightarrow> obj_ref set" where
  "releases_in s = {q \<in> dom (index s). Kind q = ''HelmRelease''}"

lemma ended_traced:
  assumes "program_reach x bx a h w g" and "kinds_agree x a" and "main (p_run g) = Exited n"
  shows "\<exists>K. K \<subseteq># mset (Paths a) \<and> rel_mset (overlay_of x bx a h w) K (mset (overlays (p_run g))) \<and>
      (received (p_run g) = [] \<longrightarrow> K = mset (Paths a))"
    and "\<exists>Q. Q \<subseteq> releases_in (p_run g) \<and>
      rel_mset (release_of x bx a h w (set (overlays (p_run g)))) (mset_set Q) (mset (releases (p_run g))) \<and>
      (received (p_run g) = [] \<longrightarrow> Q = releases_in (p_run g))"
proof -
  note e = ended[OF program_run_reach[OF assms(1)] assms(3)]
  have c: "clean (p_run g) = (received (p_run g) = [])" using e(5) by (simp add: clean_def)
  from traced_inv_reach[OF assms(1,2)]
  have o: "traced (accounts (=) (overlay_of x bx a h w)) (mset (Paths a)) (image_mset Made (mset (overlays (p_run g))))
        (received (p_run g) = [])"
    and r: "traced (accounts (entry x a (set (overlays (p_run g)))) (release_of x bx a h w (set (overlays (p_run g)))))
        (mset_set (releases_in (p_run g))) (image_mset Made (mset (releases (p_run g)))) (received (p_run g) = [])"
    by (simp_all add: traced_inv_def overlay_items_def release_items_def e c release_keys_def releases_in_def)
  show "\<exists>K. K \<subseteq># mset (Paths a) \<and> rel_mset (overlay_of x bx a h w) K (mset (overlays (p_run g))) \<and>
      (received (p_run g) = [] \<longrightarrow> K = mset (Paths a))"
    using o unfolding traced_Made .
  from r[unfolded traced_Made] obtain K where K: "K \<subseteq># mset_set (releases_in (p_run g))"
    "rel_mset (release_of x bx a h w (set (overlays (p_run g)))) K (mset (releases (p_run g)))"
    "received (p_run g) = [] \<longrightarrow> K = mset_set (releases_in (p_run g))" by blast
  have fin: "finite (releases_in (p_run g))" using e(7) by (simp add: releases_in_def)
  show "\<exists>Q. Q \<subseteq> releases_in (p_run g) \<and>
      rel_mset (release_of x bx a h w (set (overlays (p_run g)))) (mset_set Q) (mset (releases (p_run g))) \<and>
      (received (p_run g) = [] \<longrightarrow> Q = releases_in (p_run g))"
    using K fin msubset_mset_set[OF K(1) fin] by (intro exI[of _ "set_mset K"]) auto
qed

text \<open>
  C2. Only what was asked for is printed, and nothing twice: at the end of a run of the whole
  program the writer has taken all overlays and then all releases; the overlays were made by
  kustomize from paths of the command line, at most one from each, and the releases by \<open>Build\<close> from
  entries of the index of kind HelmRelease, at most one from each, where an entry is a resource of
  one of these overlays.
\<close>

theorem only_what_was_asked_for_is_printed:
  assumes "program_reach x bx a h w g" and "main (p_run g) = Exited n" and "kinds_agree x a"
  shows "map fst (taken (p_run g)) = overlays (p_run g) @ releases (p_run g) \<and>
    (\<exists>K. K \<subseteq># mset (Paths a) \<and> rel_mset (overlay_of x bx a h w) K (mset (overlays (p_run g)))) \<and>
    (\<exists>Q. Q \<subseteq> releases_in (p_run g) \<and>
       rel_mset (release_of x bx a h w (set (overlays (p_run g)))) (mset_set Q) (mset (releases (p_run g))))"
  using ended(8)[OF program_run_reach[OF assms(1)] assms(2)] ended_traced[OF assms(1,3,2)] by blast

lemma all_printed:
  assumes "run_reach a s" and "main s = Exited n" and "received s = []"
  shows "map Inr (printed s) = map (map_sum id document \<circ> act_AsYaml a) (overlays s @ releases s) \<and> n = 0"
proof -
  have w: "writer s = Done" using run_invs[OF assms(1)] assms(2) by (simp add: releases_inv_def)
  with print_inv_reach[OF assms(1)] assms(3) have "filter (Not \<circ> snd) (taken s) = []"
    by (simp add: print_inv_def failing_def)
  then have "filter snd (taken s) = taken s" by (simp add: filter_empty_conv filter_id_conv)
  with print_inv_reach[OF assms(1)]
  have "map Inr (printed s) = map (map_sum id document \<circ> act_AsYaml a) (map fst (taken s))"
    by (simp add: print_inv_def comp_def)
  moreover have "n = 0" using errors_inv_reach[OF assms(1)] assms(2,3) by (auto simp: errors_inv_def split: if_splits)
  ultimately show ?thesis using ended(8)[OF assms(1,2)] by simp
qed

text \<open>
  C1. A run without errors does everything: every path has its overlay, the index has the keys of
  exactly the resources of these overlays, every HelmRelease among them was built, and all
  manifests are printed, the overlays before the releases; the exit status is zero.
\<close>

theorem a_run_without_errors_is_complete:
  assumes "program_reach x bx a h w g" and "main (p_run g) = Exited n" and "kinds_agree x a"
    and "received (p_run g) = []"
  shows "rel_mset (overlay_of x bx a h w) (mset (Paths a)) (mset (overlays (p_run g))) \<and>
    dom (index (p_run g)) = (\<Union>m\<in>set (overlays (p_run g)). keys a m) \<and>
    rel_mset (release_of x bx a h w (set (overlays (p_run g)))) (mset_set (releases_in (p_run g)))
      (mset (releases (p_run g))) \<and>
    map Inr (printed (p_run g)) =
      map (map_sum id document \<circ> act_AsYaml a) (overlays (p_run g) @ releases (p_run g)) \<and> n = 0"
proof -
  note r = program_run_reach[OF assms(1)]
  note e = ended[OF r assms(2)]
  have i: "index_inv x a (p_run g)" using traced_inv_reach[OF assms(1,3)] by (simp add: traced_inv_def)
  have "clean (p_run g)" using e(5) assms(4) by (simp add: clean_def)
  with i e have "keys a m \<subseteq> dom (index (p_run g))" if "m \<in> set (overlays (p_run g))" for m
    using that by (auto simp: index_inv_def reaches_index_def)
  moreover have "\<exists>m\<in>set (overlays (p_run g)). q \<in> keys a m" if "q \<in> dom (index (p_run g))" for q
    using that i entry_keys unfolding index_inv_def by fast
  ultimately have "dom (index (p_run g)) = (\<Union>m\<in>set (overlays (p_run g)). keys a m)" by blast
  with ended_traced[OF assms(1,3,2)] all_printed[OF r assms(2,4)] assms(4) show ?thesis by auto
qed

text \<open>
  C13. The program always ends: whatever \<open>main\<close> starts on a machine with a processor, with the
  builds on the file system in the place of the tasks, reaches an exit; no state before it is
  stuck, and there is no infinite run. A task is one step here, from taking its locks to
  releasing them, so what is shown of locks is that no task finds one that an earlier task has
  left behind; builds that wait for each other at the same time are those of \<open>ReleaseThreads\<close>.
\<close>

theorem the_program_ends:
  assumes "main_start mx lib os env args w0 = (Inr (Runs st), w)" and "0 < NumCPU mx"
    and "h = NewHelmBuilder universal (helm_options st)"
  shows "(\<exists>g n. program_reach x bx (st_action st) h w g \<and> main (p_run g) = Exited n) \<and>
    (program_reach x bx (st_action st) h w g \<longrightarrow>
       (\<exists>g'. program_step x bx (st_action st) g g') \<or> (\<exists>n. main (p_run g) = Exited n)) \<and>
    wfp (\<lambda>g' g. program_reach x bx (st_action st) h w g \<and> program_step x bx (st_action st) g g')"
proof -
  have r: "helm_ok h" using started_ready[OF assms(1)] assms(3) by simp
  note n = started_workers[OF assms(1,2)]
  show ?thesis
    using program_exits[OF program_start r n] program_not_stuck[OF _ r n] program_wf program_reach_def by metis
qed

section \<open>Examples\<close>

text \<open>One overlay with a config map, on a file system that has its kustomization file.\<close>

definition overlay_action :: "(string \<times> string, string list) action" where
  "overlay_action =
     \<lparr>AllowFailure = False, act_FailFast = True, Workers = 2, Paths = [''/o''], act_kube = sample_kube,
      Resources_of = (\<lambda>m. [(''ConfigMap'', ''c'')]), is_HelmRelease = (\<lambda>r. fst r = ''HelmRelease''),
      act_AsYaml = (\<lambda>m. Inr (concat m))\<rparr>"

definition overlay_world :: world where
  "overlay_world = small_world\<lparr>nodes := (nodes small_world)(''/o/kustomization.yaml'' \<mapsto> File [])\<rparr>"

text \<open>A decoder that knows one release.\<close>

definition one_release :: "string \<Rightarrow> go_error + kube_object" where
  "one_release s = Inr (HelmReleaseObj (letter_release\<lparr>hr_Chart := Some
     \<lparr>ct_Chart = ''c'', ct_Version = ''1.0'',
      ct_SourceRef = \<lparr>sr_APIVersion = '''', sr_Kind = ''HelmRepository'', sr_Name = ''charts'', sr_Namespace = ''''\<rparr>,
      ct_ValuesFiles = []\<rparr>\<rparr>))"

definition overlay_helm :: helm where
  "overlay_helm = NewHelmBuilder one_release hook_opts"

lemma overlay_ready: "helm_ok overlay_helm"
  using NewHelmBuilder_ok[of hook_opts one_release]
  by (simp add: overlay_helm_def hook_opts_def sample_opts_def cc_defs null_wf_def null_held_def)

lemma overlay_kinds: "kinds_agree sample_helm_ext overlay_action"
  by (auto simp: kinds_agree_def overlay_action_def sample_helm_ext_def sample_kube_def index_key_def bindE_def
      obj_reference_def Let_def)

text \<open>Once there is nothing left but to end, the run ends as it is.\<close>

definition idle :: "('r, 'm) action \<Rightarrow> ('r, 'm) run \<Rightarrow> ('r, 'm) run \<Rightarrow> bool" where
  "idle a s s' \<longleftrightarrow>
     kjobs s' = {#} \<and> hjobs s' = {#} \<and> forwards s' = {#} \<and> resources_ch s' = [] \<and> manifests_ch s' = [] \<and>
     indexer s' \<in> {Recv, Done} \<and> writer s' \<in> {Recv, Done} \<and> collector s' \<in> {CRecv, CDone} \<and>
     index s' = index s \<and> (\<forall>q r. index s q = Some r \<longrightarrow> \<not> is_HelmRelease a r) \<and>
     received s' = received s \<and> overlays s' = overlays s \<and> releases s' = releases s \<and> printed s' = printed s"

lemma idle_step: "run_step a s' s'' \<Longrightarrow> idle a s s' \<Longrightarrow> idle a s s''"
  by (induction rule: run_step.induct) (auto simp: idle_def)

lemma idle_exits:
  assumes "program_reach x bx a h w g" and "helm_ok h" and "0 < Workers a" and "idle a (p_run g) (p_run g)"
  shows "\<exists>g' n. program_reach x bx a h w g' \<and> main (p_run g') = Exited n \<and> idle a (p_run g) (p_run g')"
proof -
  obtain g' n where g': "(program_step x bx a)\<^sup>*\<^sup>* g g'" "main (p_run g') = Exited n"
    using program_exits[OF assms(1-3)] by blast
  from g'(1) have "idle a (p_run g) (p_run g')"
    by (induction rule: rtranclp_induct) (auto intro: assms(4) idle_step program_step_run)
  with g' program_reach_trans[OF assms(1)] show ?thesis by blast
qed

lemma overlay_built:
  "\<exists>w. Kustomize sample_kustomize (Inr '''') (Inr ''/'') ''/o'' overlay_world = (Inr [''/o''], w)"
proof -
  have "fst (Kustomize sample_kustomize (Inr '''') (Inr ''/'') ''/o'' overlay_world) = Inr [''/o'']" by code_simp
  then show ?thesis by (metis prod.collapse)
qed

text \<open>A step of the action while no build is running.\<close>

lemma quiet_step:
  assumes "program_reach x bx a h w \<lparr>p_run = s, p_helm = h', p_world = w'\<rparr>" and "run_step a s s'"
    and "\<forall>p. KRun p \<notin># kjobs s" and "\<forall>r. HRun r \<notin># hjobs s"
  shows "program_reach x bx a h w \<lparr>p_run = s', p_helm = h', p_world = w'\<rparr>"
proof -
  have "\<not> job_result s s'" using job_result_busy[of s s'] assms(3,4) by (metis union_single_eq_member)
  with other[of a "\<lparr>p_run = s, p_helm = h', p_world = w'\<rparr>" s' x bx] assms(1,2) show ?thesis
    by (auto intro: program_move)
qed

lemma kustomize_runs:
  assumes "program_reach x bx a h w \<lparr>p_run = s, p_helm = h', p_world = w'\<rparr>" and "kjobs s = add_mset (KRun p) J"
    and "Kustomize (bx_kustomize bx) (bx_stdin bx) (bx_cwd bx) p w' = (res, w1)"
  shows "program_reach x bx a h w \<lparr>p_run = after_kustomize J res s, p_helm = h', p_world = w1\<rparr>"
  using program_move[OF assms(1) kustomize[of _ p J]] assms(2,3) by simp

lemma overlay_run:
  "\<exists>g n. program_reach sample_helm_ext letter_build_ext overlay_action overlay_helm overlay_world g \<and>
     main (p_run g) = Exited n \<and> received (p_run g) = [] \<and> overlays (p_run g) = [[''/o'']] \<and>
     releases (p_run g) = []"
proof -
  let ?reach = "program_reach sample_helm_ext letter_build_ext overlay_action overlay_helm overlay_world"
  let ?q = "obj_reference '''' ''ConfigMap'' ''c'' ''ns''"
  define m where "m = [''/o'']"
  define s0 where "s0 = init_run overlay_action"
  have paths: "Paths overlay_action = [''/o'']" "Workers overlay_action = 2" by (simp_all add: overlay_action_def)
  note d = s0_def init_run_def paths
  obtain w where k: "Kustomize (bx_kustomize letter_build_ext) (bx_stdin letter_build_ext) (bx_cwd letter_build_ext) ''/o''
      overlay_world = (Inr m, w)"
    using overlay_built by (auto simp: letter_build_ext_def m_def)
  have "kjobs s0 = add_mset (KRun ''/o'') {#}" by (simp add: d)
  with kustomize_runs[OF program_start[unfolded init_program_def], where a = overlay_action and J = "{#}", OF _ k]
  have r1: "?reach \<lparr>p_run = s0\<lparr>kjobs := {#KManifest m#}, made := {#m#}\<rparr>, p_helm = overlay_helm, p_world = w\<rparr>"
    by (simp add: after_kustomize_def d)
  note quiet = quiet_step[where x = sample_helm_ext and bx = letter_build_ext and a = overlay_action
      and h = overlay_helm and w = overlay_world and h' = overlay_helm and w' = w]
  have r2: "?reach \<lparr>p_run = s0\<lparr>kjobs := {#KResource m#}, made := {#m#}, manifests_ch := [m], overlays := [m]\<rparr>,
      p_helm = overlay_helm, p_world = w\<rparr>"
    using quiet[OF r1 kustomize_manifest[of _ m "{#}"]] by (simp add: d)
  have r3: "?reach \<lparr>p_run = s0\<lparr>kjobs := {#}, made := {#m#}, manifests_ch := [m], overlays := [m], resources_ch := [m]\<rparr>,
      p_helm = overlay_helm, p_world = w\<rparr>"
    using quiet[OF r2 kustomize_resource[of _ m "{#}"]] by (simp add: d)
  have y: "act_AsYaml overlay_action m = Inr (concat m)" by (simp add: overlay_action_def)
  have r4: "?reach \<lparr>p_run = s0\<lparr>kjobs := {#}, made := {#m#}, manifests_ch := [], overlays := [m], resources_ch := [m],
      printed := [document (concat m)], taken := [(m, True)]\<rparr>, p_helm = overlay_helm, p_world = w\<rparr>"
    using quiet[OF r3 write_ok[of _ m "[]", OF _ _ y]] by (simp add: d)
  have push: "Push (act_kube overlay_action) (Resources_of overlay_action m) Map.empty = (None, [?q \<mapsto> (''ConfigMap'', ''c'')])"
    by (simp add: overlay_action_def sample_kube_def index_key_def bindE_def Let_def)
  define s where "s = s0\<lparr>kjobs := {#}, made := {#m#}, manifests_ch := [], overlays := [m], resources_ch := [],
      printed := [document (concat m)], taken := [(m, True)], index := [?q \<mapsto> (''ConfigMap'', ''c'')]\<rparr>"
  have r5: "?reach \<lparr>p_run = s, p_helm = overlay_helm, p_world = w\<rparr>"
    using quiet[OF r4 index_push[where m = m and ms = "[]" and idx = "[?q \<mapsto> (''ConfigMap'', ''c'')]"]] by (simp add: d s_def push)
  have "idle overlay_action s s" by (simp add: idle_def s_def d overlay_action_def)
  with idle_exits[OF r5 overlay_ready] paths(2) obtain g' n where "?reach g'" "main (p_run g') = Exited n"
    "idle overlay_action s (p_run g')" by auto
  then show ?thesis by (auto simp: idle_def s_def d m_def)
qed

theorem only_what_was_asked_for_is_printed_witness:
  "\<exists>g n. program_reach sample_helm_ext letter_build_ext overlay_action overlay_helm overlay_world g \<and>
     main (p_run g) = Exited n \<and> map fst (taken (p_run g)) = [[''/o'']] \<and>
     (\<exists>K. K \<subseteq># {#''/o''#} \<and>
       rel_mset (overlay_of sample_helm_ext letter_build_ext overlay_action overlay_helm overlay_world) K {#[''/o'']#})"
proof -
  obtain g n where g: "program_reach sample_helm_ext letter_build_ext overlay_action overlay_helm overlay_world g"
    "main (p_run g) = Exited n" "received (p_run g) = []" "overlays (p_run g) = [[''/o'']]" "releases (p_run g) = []"
    using overlay_run by blast
  from only_what_was_asked_for_is_printed[OF g(1,2) overlay_kinds] g show ?thesis
    by - (rule exI[of _ g], rule exI[of _ n], simp add: overlay_action_def)
qed

theorem a_run_without_errors_is_complete_witness:
  "\<exists>g. program_reach sample_helm_ext letter_build_ext overlay_action overlay_helm overlay_world g \<and>
     main (p_run g) = Exited 0 \<and> printed (p_run g) = [document ''/o''] \<and>
     dom (index (p_run g)) = {obj_reference '''' ''ConfigMap'' ''c'' ''ns''} \<and>
     overlay_of sample_helm_ext letter_build_ext overlay_action overlay_helm overlay_world ''/o'' [''/o'']"
proof -
  obtain g n where g: "program_reach sample_helm_ext letter_build_ext overlay_action overlay_helm overlay_world g"
    "main (p_run g) = Exited n" "received (p_run g) = []" "overlays (p_run g) = [[''/o'']]" "releases (p_run g) = []"
    using overlay_run by blast
  have k: "keys overlay_action [''/o''] = {obj_reference '''' ''ConfigMap'' ''c'' ''ns''}"
    by (simp add: keys_def overlay_action_def sample_kube_def index_key_def bindE_def Let_def)
  have s: "rel_mset R {#p#} {#m#} \<longleftrightarrow> R p m" for R :: "string \<Rightarrow> string list \<Rightarrow> bool" and p m
    by (auto simp: rel_mset_Zero rel_mset_Plus dest: msed_rel_invL)
  from a_run_without_errors_is_complete[OF g(1,2) overlay_kinds g(3)] g k show ?thesis
    by - (rule exI[of _ g], simp add: s, auto simp: overlay_action_def s map_eq_Cons_conv)
qed

theorem the_program_ends_witness:
  "\<exists>st w h. main_start sample_main_ext overlay_action Unix sample_env [''--cache=fs''] small_world = (Inr (Runs st), w) \<and>
     h = NewHelmBuilder one_release (helm_options st) \<and> 0 < Workers (st_action st) \<and>
     (\<exists>g n. program_reach sample_helm_ext letter_build_ext (st_action st) h w g \<and> main (p_run g) = Exited n)"
proof -
  let ?m = "main_start sample_main_ext overlay_action Unix sample_env [''--cache=fs''] small_world"
  have "(case fst ?m of Inr (Runs s) \<Rightarrow> Workers (st_action s) = 4 | _ \<Rightarrow> False)"
    by code_simp
  then obtain st w where st: "?m = (Inr (Runs st), w)" "Workers (st_action st) = 4"
    by (cases ?m) (auto split: sum.splits main_end.splits)
  have n: "0 < NumCPU sample_main_ext" by (simp add: sample_main_ext_def)
  from the_program_ends[OF st(1) n refl, of sample_helm_ext letter_build_ext] st show ?thesis by auto
qed

end
