(* ===== verification/GoLinks.thy ===== *)
theory GoLinks
  imports Fs
begin

text \<open>
  Paths that lead through links to directories. The calls of \<open>GoOS\<close> follow a link only at the
  end of a path; the chart loader walks through linked directories, so its calls look a path up
  element by element, as the kernel does (at most 40 links) and as \<open>filepath.EvalSymlinks\<close> does
  (at most 255). Paths are absolute. The result is the path of a node all of whose directories
  are no links, with the number of links that could still be followed.
\<close>

section \<open>Looking up a path\<close>

definition node_at :: "(string \<Rightarrow> node option) \<Rightarrow> string list \<Rightarrow> node option" where
  "node_at fs c = fs (render_path True c)"

function namei ::
    "nat \<Rightarrow> (string \<Rightarrow> node option) \<Rightarrow> bool \<Rightarrow> string list \<Rightarrow> string list \<Rightarrow> go_error + (nat \<times> string list)" where
  "namei n fs final cur [] = Inr (n, cur)"
| "namei n fs final cur (x # xs) =
     (if x = '''' \<or> x = ''.'' then namei n fs final cur xs
      else if x = ''..'' then namei n fs final (butlast cur) xs
      else
        case node_at fs (cur @ [x]) of
          None \<Rightarrow> Inl ErrNotExist
        | Some (Symlink t) \<Rightarrow>
            if xs = [] \<and> \<not> final then Inr (n, cur @ [x])
            else if n = 0 then Inl ELOOP
            else namei (n - 1) fs final (if is_abs t then [] else cur) (split_char slash t @ xs)
        | Some Directory \<Rightarrow> namei n fs final (cur @ [x]) xs
        | Some _ \<Rightarrow> if xs = [] then Inr (n, cur @ [x]) else Inl ENOTDIR)"
  by pat_completeness auto
termination
  by (relation "measures [\<lambda>(n, fs, final, cur, xs). n, \<lambda>(n, fs, final, cur, xs). length xs]") auto

definition place :: "(string \<Rightarrow> node option) \<Rightarrow> bool \<Rightarrow> string \<Rightarrow> go_error + string list" where
  "place fs final p = bindE (namei 40 fs final [] (split_char slash p)) (\<lambda>(n, c). Inr c)"

definition node_of :: "(string \<Rightarrow> node option) \<Rightarrow> bool \<Rightarrow> string \<Rightarrow> go_error + node" where
  "node_of fs final p =
     bindE (place fs final p) (\<lambda>c. case node_at fs c of None \<Rightarrow> Inl ErrNotExist | Some nd \<Rightarrow> Inr nd)"

section \<open>Calls\<close>

definition sys_lstat :: "string \<Rightarrow> node io" where
  "sys_lstat p = syscall (PathError ''lstat'' p) (\<lambda>w. (node_of (nodes w) False p, w))"

definition sys_stat :: "string \<Rightarrow> node io" where
  "sys_stat p = syscall (PathError ''stat'' p) (\<lambda>w. (node_of (nodes w) True p, w))"

definition sys_open :: "string \<Rightarrow> string list io" where
  "sys_open p = syscall (PathError ''open'' p) (\<lambda>w.
     (bindE (place (nodes w) True p) (\<lambda>c.
        case node_at (nodes w) c of None \<Rightarrow> Inl ErrNotExist | Some nd \<Rightarrow> Inr c), w))"

definition sys_read :: "string \<Rightarrow> string list \<Rightarrow> string io" where
  "sys_read p c = syscall (PathError ''read'' p) (\<lambda>w.
     (case node_at (nodes w) c of
        Some (File b) \<Rightarrow> Inr b
      | Some (Special b) \<Rightarrow> Inr b
      | Some Directory \<Rightarrow> Inl EISDIR
      | _ \<Rightarrow> Inl ErrNotExist, w))"

definition sys_ReadFile :: "string \<Rightarrow> string io" where
  "sys_ReadFile p = io_bind (sys_open p) (sys_read p)"

definition sys_Readdirnames :: "string \<Rightarrow> string list \<Rightarrow> string list io" where
  "sys_Readdirnames p c = syscall (PathError ''readdirent'' p) (\<lambda>w.
     (case node_at (nodes w) c of
        Some Directory \<Rightarrow> Inr (entries w (nodes w) (render_path True c))
      | _ \<Rightarrow> Inl ENOTDIR, w))"

definition EvalSymlinks :: "string \<Rightarrow> string io" where
  "EvalSymlinks p = syscall (\<lambda>e. if e = ELOOP then ErrorString ''EvalSymlinks: too many links'' else PathError ''lstat'' p e)
     (\<lambda>w. (bindE (namei 255 (nodes w) True [] (split_char slash p)) (\<lambda>(n, c). Inr (render_path True c)), w))"

lemma reads_sys [inv_intros]:
  "reads (sys_lstat p)" "reads (sys_stat p)" "reads (sys_open p)" "reads (sys_read p c)"
  "reads (sys_Readdirnames p c)" "reads (EvalSymlinks p)"
  unfolding sys_lstat_def sys_stat_def sys_open_def sys_read_def sys_Readdirnames_def EvalSymlinks_def
  by (rule reads_syscall; simp add: reads_def)+

lemma reads_sys_ReadFile [inv_intros]: "reads (sys_ReadFile p)"
  unfolding sys_ReadFile_def by (intro inv_intros)

section \<open>Facts about lookups\<close>

text \<open>The elements of a canonical path are plain, and what lies before the last one is a directory.\<close>

fun no_links :: "(string \<Rightarrow> node option) \<Rightarrow> string list \<Rightarrow> string list \<Rightarrow> bool" where
  "no_links fs r [] = True"
| "no_links fs r (x # xs) =
     ((case node_at fs (r @ [x]) of Some (Symlink t) \<Rightarrow> False | _ \<Rightarrow> True) \<and> no_links fs (r @ [x]) xs)"

lemma namei_no_links:
  "namei n fs final cur xs = Inr (m, c) \<Longrightarrow> \<forall>x\<in>set xs. plain_elem x \<Longrightarrow> no_links fs cur xs \<Longrightarrow>
   m = n \<and> c = cur @ xs"
proof (induction xs arbitrary: cur)
  case (Cons x xs)
  from Cons.prems have "namei n fs final (cur @ [x]) xs = Inr (m, c) \<or> xs = [] \<and> m = n \<and> c = cur @ [x]"
    by (auto simp: plain_elem_def split: option.splits node.splits if_splits)
  with Cons.IH[of "cur @ [x]"] Cons.prems show ?case by auto
qed simp

declare namei.simps(2) [simp del]

lemma namei_ConsE:
  assumes "namei n fs final cur (x # xs) = Inr r"
  obtains (dot) "x = '''' \<or> x = ''.''" and "namei n fs final cur xs = Inr r"
    | (up) "x = ''..''" and "namei n fs final (butlast cur) xs = Inr r"
    | (stop) t where "x \<notin> {'''', ''.'', ''..''}" and "node_at fs (cur @ [x]) = Some (Symlink t)" and "xs = []"
        and "\<not> final" and "r = (n, cur @ [x])"
    | (link) t where "x \<notin> {'''', ''.'', ''..''}" and "node_at fs (cur @ [x]) = Some (Symlink t)"
        and "xs = [] \<longrightarrow> final" and "0 < n"
        and "namei (n - 1) fs final (if is_abs t then [] else cur) (split_char slash t @ xs) = Inr r"
    | (dir) "x \<notin> {'''', ''.'', ''..''}" and "node_at fs (cur @ [x]) = Some Directory"
        and "namei n fs final (cur @ [x]) xs = Inr r"
    | (leaf) nd where "x \<notin> {'''', ''.'', ''..''}" and "node_at fs (cur @ [x]) = Some nd" and "nd \<noteq> Directory"
        and "\<forall>t. nd \<noteq> Symlink t" and "xs = []" and "r = (n, cur @ [x])"
  using assms unfolding namei.simps(2)
  by (simp split: if_splits option.splits node.splits; blast)

lemma namei_steps:
  "x = '''' \<or> x = ''.'' \<Longrightarrow> namei n fs final cur (x # xs) = namei n fs final cur xs"
  "x = ''..'' \<Longrightarrow> namei n fs final cur (x # xs) = namei n fs final (butlast cur) xs"
  "x \<notin> {'''', ''.'', ''..''} \<Longrightarrow> node_at fs (cur @ [x]) = Some Directory \<Longrightarrow>
   namei n fs final cur (x # xs) = namei n fs final (cur @ [x]) xs"
  "x \<notin> {'''', ''.'', ''..''} \<Longrightarrow> node_at fs (cur @ [x]) = Some (Symlink t) \<Longrightarrow> 0 < n \<Longrightarrow> xs = [] \<longrightarrow> final \<Longrightarrow>
   namei n fs final cur (x # xs) =
     namei (n - 1) fs final (if is_abs t then [] else cur) (split_char slash t @ xs)"
  by (auto simp: namei.simps(2))

text \<open>Looking a path up in two parts.\<close>

lemma namei_split:
  assumes "namei n fs final cur (xs @ y # ys) = Inr r"
  shows "\<exists>m c. namei n fs True cur xs = Inr (m, c) \<and> namei m fs final c (y # ys) = Inr r"
  using assms
proof (induction n fs final cur "xs @ y # ys" arbitrary: xs rule: namei.induct)
  case (2 n fs final cur x' xs')
  show ?case
  proof (cases xs)
    case Nil
    with 2 show ?thesis by simp
  next
    case (Cons x zs)
    with 2 have e: "x' = x" "xs' = zs @ y # ys" by simp_all
    from "2.prems"[unfolded Cons append_Cons] show ?thesis
    proof (cases rule: namei_ConsE)
      case dot
      with "2.hyps"(1) e Cons show ?thesis by (auto simp: namei_steps)
    next
      case up
      with "2.hyps"(2) e Cons show ?thesis by (auto simp: namei_steps)
    next
      case (link t)
      have "\<exists>m c. namei (n - 1) fs True (if is_abs t then [] else cur) (split_char slash t @ zs) = Inr (m, c) \<and>
          namei m fs final c (y # ys) = Inr r"
        by (rule "2.hyps"(4)[where xs = "split_char slash t @ zs"]) (use link e in auto)
      with link Cons show ?thesis by (simp add: namei_steps)
    next
      case dir
      with "2.hyps"(3) e Cons show ?thesis by (auto simp: namei_steps)
    qed auto
  qed
qed simp

lemma namei_join:
  assumes "namei n fs True cur xs = Inr (m, c)" and "c = [] \<or> node_at fs c = Some Directory"
  shows "namei n fs final cur (xs @ y # ys) = namei m fs final c (y # ys)"
  using assms
proof (induction n fs True cur xs rule: namei.induct)
  case (2 n fs cur x xs)
  from "2.prems"(1) show ?case
  proof (cases rule: namei_ConsE)
    case (leaf nd)
    with "2.prems" show ?thesis by auto
  qed (use 2 in \<open>auto simp: namei.simps(2)\<close>)
qed simp

lemma namei_more:
  "namei n fs final cur xs = Inr (m, c) \<Longrightarrow> namei (n + k) fs final cur xs = Inr (m + k, c)"
proof (induction n fs final cur xs rule: namei.induct)
  case (2 n fs final cur x xs)
  from "2.prems" show ?case
  proof (cases rule: namei_ConsE)
    case (leaf nd)
    then show ?thesis by (cases nd) (simp_all add: namei.simps(2))
  qed (use 2 in \<open>auto simp: namei.simps(2)\<close>)
qed simp

text \<open>A lookup that stops at a link agrees with one that follows it unless it ends at a link.\<close>

definition is_link :: "node \<Rightarrow> bool" where
  "is_link nd = (case nd of Symlink t \<Rightarrow> True | _ \<Rightarrow> False)"

lemma is_link_simps [simp]:
  "is_link (Symlink t)" "\<not> is_link Directory" "\<not> is_link (File b)" "\<not> is_link (Special b)"
  by (simp_all add: is_link_def)

lemma namei_final:
  "namei n fs False cur xs = Inr (m, c) \<Longrightarrow> node_at fs c = Some nd \<Longrightarrow> \<not> is_link nd \<Longrightarrow>
   namei n fs True cur xs = Inr (m, c)"
proof (induction n fs False cur xs rule: namei.induct)
  case (2 n fs cur x xs)
  from "2.prems"(1) show ?case
  proof (cases rule: namei_ConsE)
    case (leaf nd)
    then show ?thesis by (cases nd) (simp_all add: namei.simps(2))
  qed (use 2 in \<open>auto simp: namei_steps\<close>)
qed simp

text \<open>What a lookup ends at is canonical: a second lookup ends at the same place and needs no link.\<close>

definition dirs :: "(string \<Rightarrow> node option) \<Rightarrow> string list \<Rightarrow> bool" where
  "dirs fs cur \<longleftrightarrow> (\<forall>p. prefix p cur \<and> p \<noteq> [] \<longrightarrow> node_at fs p = Some Directory)"

lemma dirs_simps [simp]: "dirs fs []" "dirs fs (cur @ [x]) \<longleftrightarrow> dirs fs cur \<and> node_at fs (cur @ [x]) = Some Directory"
  by (auto simp: dirs_def)

lemma dirs_prefix: "dirs fs cur \<Longrightarrow> prefix p cur \<Longrightarrow> dirs fs p"
  by (auto simp: dirs_def dest: prefix_order.trans)

lemma prefix_butlast: "prefix (butlast cur) cur"
  by (metis append_butlast_last_id butlast.simps(1) prefixI prefix_order.refl)

definition canonical :: "(string \<Rightarrow> node option) \<Rightarrow> string list \<Rightarrow> bool" where
  "canonical fs c \<longleftrightarrow> dirs fs (butlast c) \<and> (\<forall>x\<in>set c. plain_elem x) \<and>
     (c \<noteq> [] \<longrightarrow> (\<exists>nd. node_at fs c = Some nd \<and> \<not> is_link nd))"

lemma canonical_dirs: "dirs fs c \<Longrightarrow> \<forall>x\<in>set c. plain_elem x \<Longrightarrow> canonical fs c"
  using dirs_prefix[OF _ prefix_butlast] by (auto simp: canonical_def dirs_def)

lemma namei_canonical:
  "namei n fs True cur xs = Inr (m, c) \<Longrightarrow> dirs fs cur \<Longrightarrow> \<forall>x\<in>set cur. plain_elem x \<Longrightarrow>
   \<forall>x\<in>set xs. slash \<notin> set x \<Longrightarrow> canonical fs c"
proof (induction n fs True cur xs rule: namei.induct)
  case (1 n fs cur)
  then show ?case by (simp add: canonical_dirs)
next
  case (2 n fs cur x xs)
  from "2.prems"(1) show ?case
  proof (cases rule: namei_ConsE)
    case up
    with 2 show ?thesis by (auto intro: dirs_prefix[OF _ prefix_butlast] dest: in_set_butlastD)
  next
    case (link t)
    have "\<forall>x\<in>set (split_char slash t @ xs). slash \<notin> set x"
      using "2.prems"(4) by (auto dest: split_char_no_sep)
    with 2 link show ?thesis by (auto split: if_splits)
  next
    case dir
    with 2 show ?thesis by (auto simp: plain_elem_def)
  next
    case (leaf nd)
    then show ?thesis
      using "2.prems" by (cases nd) (auto simp: canonical_def plain_elem_def)
  qed (use 2 in auto)
qed

lemma canonical_prefixes:
  assumes "canonical fs (cur @ x # xs)"
  shows "plain_elem x" and "\<exists>nd. node_at fs (cur @ [x]) = Some nd \<and> \<not> is_link nd \<and> (xs \<noteq> [] \<longrightarrow> nd = Directory)"
proof -
  show "plain_elem x" using assms by (simp add: canonical_def)
  have "node_at fs (cur @ [x]) = Some Directory" if "xs \<noteq> []"
  proof -
    have "prefix (cur @ [x]) (butlast (cur @ x # xs))" using that by (simp add: butlast_append)
    with assms show ?thesis by (simp add: canonical_def dirs_def)
  qed
  with assms show "\<exists>nd. node_at fs (cur @ [x]) = Some nd \<and> \<not> is_link nd \<and> (xs \<noteq> [] \<longrightarrow> nd = Directory)"
    by (cases "xs = []") (auto simp: canonical_def)
qed

lemma namei_of_canonical: "canonical fs (cur @ xs) \<Longrightarrow> namei n fs final cur xs = Inr (n, cur @ xs)"
proof (induction xs arbitrary: cur)
  case (Cons x xs)
  from canonical_prefixes[OF Cons.prems] obtain nd where nd: "plain_elem x" "node_at fs (cur @ [x]) = Some nd"
    "\<not> is_link nd" "xs \<noteq> [] \<longrightarrow> nd = Directory" by blast
  from Cons.prems Cons.IH[of "cur @ [x]"] have "namei n fs final (cur @ [x]) xs = Inr (n, cur @ x # xs)" by simp
  with nd show ?case by (cases nd) (auto simp: namei.simps(2) plain_elem_def)
qed simp

section \<open>Looking up cleaned paths\<close>

lemma split_clean:
  assumes "is_abs p" and "path_clean p = p"
  shows "split_char slash p = (if path_elems p = [] then [[], []] else [] # path_elems p)"
proof -
  have p: "p = slash # join_with [slash] (path_elems p)"
    using assms by (metis is_abs_def has_prefix_Nil_left list.distinct(1) path_clean_def render_path_def)
  have "\<forall>w \<in> set (path_elems p). slash \<notin> set w"
    using clean_stack_no_slash[OF clean_stack_elems[of p]] by auto
  then have "split_char slash (join_with [slash] (path_elems p)) = (if path_elems p = [] then [[]] else path_elems p)"
    by (auto simp: split_join_char)
  then show ?thesis by (subst p) (simp add: slash_def)
qed

definition rooted_clean :: "string \<Rightarrow> bool" where
  "rooted_clean p \<longleftrightarrow> is_abs p \<and> path_clean p = p"

lemma namei_clean: "rooted_clean p \<Longrightarrow> namei n fs final [] (split_char slash p) = namei n fs final [] (path_elems p)"
  by (auto simp: rooted_clean_def split_clean namei_steps)

text \<open>A slash at the end of a cleaned path demands a directory and follows a link.\<close>

lemma namei_slash:
  assumes "rooted_clean p"
  shows "namei n fs final [] (split_char slash (p @ [slash])) = Inr (m, c) \<Longrightarrow>
    namei n fs True [] (path_elems p) = Inr (m, c)"
proof -
  have "split_char slash (p @ [slash]) = split_char slash p @ [[]]"
    using split_char_at[of slash p "[]"] by simp
  moreover assume "namei n fs final [] (split_char slash (p @ [slash])) = Inr (m, c)"
  ultimately show ?thesis
    using namei_split[of n fs final "[]" "split_char slash p" "[]" "[]" "(m, c)"] namei_clean[OF assms]
    by (auto simp: namei_steps)
qed

lemma plain_elems: "is_abs p \<Longrightarrow> x \<in> set (path_elems p) \<Longrightarrow> plain_elem x"
  using clean_stack_rooted[of "rev (path_elems p)" x] clean_stack_elems[of p] by simp

lemma rooted_join: "is_abs d \<Longrightarrow> plain_elem x \<Longrightarrow> rooted_clean (path_join [d, x]) \<and> path_elems (path_join [d, x]) = path_elems d @ [x]"
  by (auto simp: rooted_clean_def path_join_elem path_join_clean plain_elem_def)

lemma rooted_render:
  assumes "\<forall>x\<in>set c. plain_elem x"
  shows "rooted_clean (render_path True c)" and "path_elems (render_path True c) = c"
proof -
  have "clean_stack True (rev c)" using assms
  proof (induction c rule: rev_induct)
    case (snoc x c)
    then show ?case by (auto simp: plain_elem_def)
  qed simp
  from path_elems_render[OF this] show "path_elems (render_path True c) = c" "rooted_clean (render_path True c)"
    by (simp_all add: rooted_clean_def path_clean_def)
qed

lemma keeps_env_sys [inv_intros]:
  "keeps_env (sys_lstat p)" "keeps_env (sys_stat p)" "keeps_env (sys_open p)" "keeps_env (sys_read p c)"
  "keeps_env (sys_Readdirnames p c)" "keeps_env (EvalSymlinks p)"
  unfolding sys_lstat_def sys_stat_def sys_open_def sys_read_def sys_Readdirnames_def EvalSymlinks_def
  by (rule keeps_env_syscall; simp add: keeps_env_def)+

lemma keeps_env_sys_ReadFile [inv_intros]: "keeps_env (sys_ReadFile p)"
  unfolding sys_ReadFile_def by (intro inv_intros)

text \<open>What successful calls return.\<close>

lemma syscall_InrD: "syscall wr f w = (Inr y, w') \<Longrightarrow> f (w\<lparr>clock := Suc (clock w)\<rparr>) = (Inr y, w')"
  by (auto elim!: syscall_cases) (metis mapErr_Inr_iff)

lemma sys_lstat_ok: "sys_lstat p w = (Inr nd, w') \<Longrightarrow> node_of (nodes w) False p = Inr nd"
  by (auto simp: sys_lstat_def dest: syscall_InrD)

lemma EvalSymlinks_ok:
  "EvalSymlinks p w = (Inr q, w') \<Longrightarrow>
   \<exists>m c. namei 255 (nodes w) True [] (split_char slash p) = Inr (m, c) \<and> q = render_path True c"
  by (auto simp: EvalSymlinks_def bindE_Inr_iff dest!: syscall_InrD)

lemma sys_ReadFile_ok:
  assumes "sys_ReadFile p w = (Inr b, w')"
  shows "\<exists>c. place (nodes w) True p = Inr c \<and> (node_at (nodes w) c = Some (File b) \<or> node_at (nodes w) c = Some (Special b))"
proof -
  from assms obtain c w1 where o: "sys_open p w = (Inr c, w1)" and r: "sys_read p c w1 = (Inr b, w')"
    unfolding sys_ReadFile_def by (elim io_bind_InrE)
  have "nodes w1 = nodes w" using o by (rule readsD[rotated]) (rule inv_intros)
  with o r show ?thesis
    by (auto simp: sys_open_def sys_read_def bindE_Inr_iff dest!: syscall_InrD split: option.splits node.splits)
qed

lemma sys_Readdirnames_ok:
  "sys_Readdirnames p c w = (Inr ns, w') \<Longrightarrow> ns = entries w (nodes w) (render_path True c)"
  by (auto simp: sys_Readdirnames_def dest!: syscall_InrD split: option.splits node.splits)

end
