(* ===== verification/SecureLoader.thy ===== *)
theory SecureLoader
  imports GoLinks Ignore ChartMetadata
begin

text \<open>
  The secure directory loader (\<open>internal/helm/chart/secureloader\<close>): a walk that follows links
  (\<open>sympath/walk.go\<close>), the callback that decides which files are loaded (\<open>directory.go\<close>), and
  the choice of a loader (\<open>loader.go\<close>). \<open>SecureJoin\<close> and the functions that make a chart of
  files or of an archive are libraries and parameters; \<open>SecureJoin\<close> looks at links, so it gets
  the file system.
\<close>

record buffered_file =
  bf_Name :: string
  bf_Data :: string

record loader_ext =
  SecureJoin :: "(string \<Rightarrow> node option) \<Rightarrow> string \<Rightarrow> string \<Rightarrow> go_error + string"
  LoadFiles :: "buffered_file list \<Rightarrow> go_error + chart"
  LoadFile :: "(string \<Rightarrow> node option) \<Rightarrow> string \<Rightarrow> go_error + chart"

definition secure_join :: "loader_ext \<Rightarrow> string \<Rightarrow> string \<Rightarrow> string io" where
  "secure_join x root p w = (SecureJoin x (nodes w) root p, w)"

section \<open>Walking through links\<close>

text \<open>
  The callback gets the path, the path with all links on the way resolved, the node (none if it
  could not be read) and an error; it threads its own state. A path of the walk has at most
  4096 bytes, so less than 2049 elements, and an element costs at most two calls.
\<close>

type_synonym 's abs_walk_fn =
  "string \<Rightarrow> string \<Rightarrow> node option \<Rightarrow> go_error option \<Rightarrow> 's \<Rightarrow> (go_error option \<times> 's) io"

definition readDirNames :: "string \<Rightarrow> string list io" where
  "readDirNames dirname =
     io_bind (sys_open dirname) (\<lambda>f.
     io_bind (sys_Readdirnames dirname f) (\<lambda>names.
     io_return (sort names)))"

fun symwalk :: "nat \<Rightarrow> 's abs_walk_fn \<Rightarrow> string \<Rightarrow> string \<Rightarrow> node \<Rightarrow> 's \<Rightarrow> (go_error option \<times> 's) io"
  and symwalk_names ::
    "nat \<Rightarrow> 's abs_walk_fn \<Rightarrow> string \<Rightarrow> string \<Rightarrow> string list \<Rightarrow> 's \<Rightarrow> (go_error option \<times> 's) io" where
  "symwalk 0 fn path absPath info s = io_return (Some ENAMETOOLONG, s)"
| "symwalk (Suc n) fn path absPath info s =
     (if is_link info then
        io_try (EvalSymlinks path) (\<lambda>r. case r of
          Inl e \<Rightarrow> io_return (Some (wrap (''error evaluating symlink '' @ path) e), s)
        | Inr resolved \<Rightarrow>
            io_try (sys_lstat resolved) (\<lambda>r. case r of
              Inl e \<Rightarrow> io_return (Some e, s)
            | Inr info' \<Rightarrow>
                io_bind (symwalk n fn path resolved info' s) (\<lambda>(err, s1).
                io_return (if err \<noteq> None \<and> err \<noteq> Some SkipDir then err else None, s1))))
      else
        io_bind (fn path absPath (Some info) None s) (\<lambda>(err, s1).
        if err \<noteq> None then io_return (err, s1)
        else if \<not> node_is_dir info then io_return (None, s1)
        else
          io_try (readDirNames path) (\<lambda>r. case r of
            Inl e \<Rightarrow> fn path absPath (Some info) (Some e) s1
          | Inr names \<Rightarrow> symwalk_names n fn path absPath names s1)))"
| "symwalk_names n fn path absPath [] s = io_return (None, s)"
| "symwalk_names n fn path absPath (name # names) s =
     (let filename = path_join [path, name]; absFilename = path_join [absPath, name] in
      io_try (sys_lstat filename) (\<lambda>r. case r of
        Inl e \<Rightarrow>
          io_bind (fn filename absFilename None (Some e) s) (\<lambda>(err, s1).
          if err \<noteq> None \<and> err \<noteq> Some SkipDir then io_return (err, s1)
          else symwalk_names n fn path absPath names s1)
      | Inr fileInfo \<Rightarrow>
          io_bind (symwalk n fn filename absFilename fileInfo s) (\<lambda>(err, s1).
          if err \<noteq> None \<and> (\<not> node_is_dir fileInfo \<and> \<not> is_link fileInfo \<or> err \<noteq> Some SkipDir)
          then io_return (err, s1)
          else symwalk_names n fn path absPath names s1)))"

definition sym_Walk :: "string \<Rightarrow> 's abs_walk_fn \<Rightarrow> 's \<Rightarrow> (go_error option \<times> 's) io" where
  "sym_Walk root fn s =
     io_try (sys_lstat root) (\<lambda>r.
     io_bind (case r of
         Inl e \<Rightarrow> fn root root None (Some e) s
       | Inr info \<Rightarrow> symwalk max_depth fn root root info s)
       (\<lambda>(err, s1). io_return (if err = Some SkipDir then None else err, s1)))"

section \<open>Which files are loaded\<close>

text \<open>A path is secure when joining the root with it, the root as the limit of links, gives the path itself.\<close>

definition isSecureAbsolutePath :: "loader_ext \<Rightarrow> string \<Rightarrow> string \<Rightarrow> bool io" where
  "isSecureAbsolutePath x root0 absPath0 =
     (let root = path_clean root0; absPath = path_clean absPath0 in
      if root = ''/'' then io_return True
      else
        case path_rel root absPath of
          Inl e \<Rightarrow> io_fail (ErrorString ''cannot calculate path relative to root for absolute path'')
        | Inr unsafePath \<Rightarrow>
            io_try (secure_join x root unsafePath) (\<lambda>r. case r of
              Inl e \<Rightarrow> io_fail (ErrorString ''cannot securely join root with resolved relative path'')
            | Inr safePath \<Rightarrow>
                if safePath \<noteq> absPath then
                  io_fail (ErrorString (''absolute path traverses outside root boundary: relative path to root '' @ unsafePath))
                else io_return True))"

record secure_walker =
  sw_root :: string
  sw_absChartPath :: string
  sw_maxSize :: int
  sw_rules :: rules
  sw_files :: "buffered_file list"

definition newSecureFileWalker :: "string \<Rightarrow> string \<Rightarrow> int \<Rightarrow> rules \<Rightarrow> secure_walker" where
  "newSecureFileWalker root absChartPath maxSize rules =
     \<lparr>sw_root = root, sw_absChartPath = path_clean absChartPath @ [slash], sw_maxSize = maxSize,
      sw_rules = rules, sw_files = []\<rparr>"

definition trimmed_error :: "string \<Rightarrow> string \<Rightarrow> go_error \<Rightarrow> go_error" where
  "trimmed_error absName root e =
     (case e of PathError op p e' \<Rightarrow> PathError op (trim_prefix absName root) e' | _ \<Rightarrow> e)"

definition walk_file :: "string \<Rightarrow> string \<Rightarrow> node \<Rightarrow> secure_walker \<Rightarrow> (go_error option \<times> secure_walker) io" where
  "walk_file n absName fi w =
     (if \<not> node_is_regular fi then
        io_return (Some (ErrorString (''cannot load irregular file '' @ n @ '' as it has file mode type bits set'')), w)
      else if 0 < sw_maxSize w \<and> sw_maxSize w < int (node_size fi) then
        io_return (Some (ErrorString (''cannot load file '' @ n @ '' as file size ('' @ dec_of_nat (node_size fi) @
          '') exceeds limit ('' @ dec_of_nat (nat (sw_maxSize w)) @ '')'')), w)
      else
        io_try (sys_ReadFile absName) (\<lambda>r. case r of
          Inl e \<Rightarrow> io_return (Some (wrap (''error reading '' @ n) (trimmed_error absName (sw_root w) e)), w)
        | Inr data \<Rightarrow>
            io_return (None, w\<lparr>sw_files := sw_files w @ [\<lparr>bf_Name = n, bf_Data = trim_prefix data utf8bom\<rparr>]\<rparr>)))"

definition secure_check :: "loader_ext \<Rightarrow> string \<Rightarrow> string \<Rightarrow> string \<Rightarrow> secure_walker \<Rightarrow>
    (go_error option \<times> secure_walker) io \<Rightarrow> (go_error option \<times> secure_walker) io" where
  "secure_check x n what absName w go =
     io_try (isSecureAbsolutePath x (sw_root w) absName) (\<lambda>r. case r of
       Inl e \<Rightarrow> io_return (Some (wrap (''cannot load '' @ [CHR 0x27] @ n @ [CHR 0x27] @ what) e), w)
     | Inr _ \<Rightarrow> go)"

definition secure_walk :: "loader_ext \<Rightarrow> secure_walker abs_walk_fn" where
  "secure_walk x name absName fi err w =
     (let n = trim_prefix name (sw_absChartPath w) in
      if n = '''' then io_return (None, w)
      else
        case err of
          Some e \<Rightarrow> io_return (Some e, w)
        | None \<Rightarrow>
            (case Ignore (sw_rules w) n (node_is_dir (the fi)) of (ignore, rules) \<Rightarrow>
               let w1 = w\<lparr>sw_rules := rules\<rparr> in
               if node_is_dir (the fi) then
                 (if ignore then io_return (Some SkipDir, w1)
                  else secure_check x n '' directory'' absName w1 (io_return (None, w1)))
               else if ignore then io_return (None, w1)
               else secure_check x n '' file'' absName w1 (walk_file n absName (the fi) w1)))"

section \<open>Loading\<close>

definition ParseFile :: "string \<Rightarrow> rules io" where
  "ParseFile file = io_bind (sys_ReadFile file) (\<lambda>b. io_lift (Parse b))"

definition HelmIgnore :: string where
  "HelmIgnore = ''.helmignore''"

definition secureLoadIgnoreRules :: "loader_ext \<Rightarrow> string \<Rightarrow> string \<Rightarrow> rules io" where
  "secureLoadIgnoreRules x root chartPath =
     io_bind (secure_join x root (path_join [chartPath, HelmIgnore])) (\<lambda>iFile.
     io_try (sys_stat iFile) (\<lambda>r. case r of
       Inl e \<Rightarrow> if errors_is e ErrNotExist then io_return (AddDefaults Empty_rules) else io_fail e
     | Inr _ \<Rightarrow> io_bind (ParseFile iFile) (\<lambda>rules. io_return (AddDefaults rules))))"

definition relative_to :: "string \<Rightarrow> string \<Rightarrow> go_error + string" where
  "relative_to root path = (if is_abs path then path_rel root path else Inr path)"

definition walk_chart :: "loader_ext \<Rightarrow> string \<Rightarrow> string \<Rightarrow> int \<Rightarrow> rules \<Rightarrow> secure_walker io" where
  "walk_chart x root absChartName maxSize rules =
     (let walker = newSecureFileWalker root absChartName maxSize rules in
      io_bind (sym_Walk (sw_absChartPath walker) (secure_walk x) walker) (\<lambda>(err, w1).
      case err of
        Some e \<Rightarrow> io_fail (wrap (''failed to load files from '' @ trim_prefix (sw_absChartPath w1) (sw_root w1)) e)
      | None \<Rightarrow> io_return w1))"

definition SecureLoadDir :: "loader_ext \<Rightarrow> go_error + string \<Rightarrow> string \<Rightarrow> string \<Rightarrow> int \<Rightarrow> chart io" where
  "SecureLoadDir x cwd root0 path0 maxSize =
     io_bind (io_lift (abs_path cwd root0)) (\<lambda>root.
     io_bind (io_lift (relative_to root path0)) (\<lambda>path.
     io_bind (secure_join x root path) (\<lambda>absChartName.
     io_bind (io_err (wrap ''cannot load ignore rules for chart'') (secureLoadIgnoreRules x root path)) (\<lambda>rules.
     io_bind (walk_chart x root absChartName maxSize rules) (\<lambda>w.
     io_err (wrap (''failed to load chart from '' @ trim_prefix (sw_absChartPath w) (sw_root w)))
       (io_lift (LoadFiles x (sw_files w))))))))"

text \<open>A loader: of a directory, with its fields, or of an archive.\<close>

datatype chart_loader = SecureDirLoader string string int | FileLoader string

definition NewSecureDirLoader :: "string \<Rightarrow> string \<Rightarrow> int \<Rightarrow> chart_loader" where
  "NewSecureDirLoader root path maxSize = SecureDirLoader root path (if maxSize = 0 then int MaxChartFileSize else maxSize)"

definition loader_load :: "loader_ext \<Rightarrow> go_error + string \<Rightarrow> chart_loader \<Rightarrow> chart io" where
  "loader_load x cwd l w =
     (case l of
        SecureDirLoader root path maxSize \<Rightarrow> SecureLoadDir x cwd root path maxSize w
      | FileLoader name \<Rightarrow> (LoadFile x (nodes w) name, w))"

definition Loader :: "loader_ext \<Rightarrow> go_error + string \<Rightarrow> string \<Rightarrow> string \<Rightarrow> chart_loader io" where
  "Loader x cwd root0 name =
     io_bind (io_lift (abs_path cwd root0)) (\<lambda>root.
     let relName0 = path_clean name in
     io_bind (io_lift (if is_abs relName0 then path_rel root name else Inr relName0)) (\<lambda>relName.
     io_bind (secure_join x root relName) (\<lambda>secureName.
     io_try (sys_lstat secureName) (\<lambda>r. case r of
       Inl e \<Rightarrow> io_fail (trimmed_error secureName root e)
     | Inr fi \<Rightarrow>
         if node_is_dir fi then io_return (NewSecureDirLoader root relName (int MaxChartFileSize))
         else io_return (FileLoader secureName)))))"

definition secure_Load :: "loader_ext \<Rightarrow> go_error + string \<Rightarrow> string \<Rightarrow> string \<Rightarrow> chart io" where
  "secure_Load x cwd root name = io_bind (Loader x cwd root name) (loader_load x cwd)"

section \<open>Where the walk is\<close>

text \<open>
  The walk begins at a cleaned path with a slash at its end and is then at cleaned paths. While
  it is at a node that is no link, the path and the resolved path lead to the same place, and
  the node it has is the one at that place.
\<close>

definition spot :: "(string \<Rightarrow> node option) \<Rightarrow> string \<Rightarrow> go_error + (nat \<times> string list)" where
  "spot fs p = namei 40 fs True [] (path_elems p)"

definition walk_path :: "string \<Rightarrow> string \<Rightarrow> bool" where
  "walk_path tp p \<longleftrightarrow> rooted_clean p \<or> p = tp \<and> (\<exists>a. rooted_clean a \<and> tp = a @ [slash])"

definition walk_at :: "(string \<Rightarrow> node option) \<Rightarrow> string \<Rightarrow> string \<Rightarrow> string \<Rightarrow> node \<Rightarrow> bool" where
  "walk_at fs tp path absPath info \<longleftrightarrow>
     walk_path tp path \<and> walk_path tp absPath \<and> (path = tp \<or> rooted_clean absPath) \<and>
     (\<not> is_link info \<longrightarrow>
        (\<forall>m c. spot fs path = Inr (m, c) \<longrightarrow> (\<exists>m'. spot fs absPath = Inr (m', c))) \<and>
        (\<forall>m c. spot fs absPath = Inr (m, c) \<longrightarrow> node_at fs c = Some info))"

lemma path_elems_slash:
  assumes "is_abs a" shows "path_elems (a @ [slash]) = path_elems a"
proof -
  have "is_abs (a @ [slash])" using assms by (cases a) (auto simp: is_abs_def)
  with assms split_char_at[of slash a "[]"] show ?thesis
    by (simp add: path_elems_def clean_elems_def clean_step_def)
qed

lemma walk_path_abs: "walk_path tp p \<Longrightarrow> is_abs p"
  by (auto simp: walk_path_def rooted_clean_def is_abs_def has_prefix_iff)

lemma namei_walk_path:
  assumes "walk_path tp p" and "namei n fs True [] (split_char slash p) = Inr (m, c)"
  shows "namei n fs True [] (path_elems p) = Inr (m, c)"
  using assms namei_slash[of _ n fs True m c] path_elems_slash
  by (auto simp: walk_path_def namei_clean rooted_clean_def)

lemma namei_one:
  "plain_elem x \<Longrightarrow> node_at fs (c @ [x]) = Some nd \<Longrightarrow> \<not> is_link nd \<Longrightarrow> namei k fs final c [x] = Inr (k, c @ [x])"
  by (cases nd) (auto simp: namei.simps(2) plain_elem_def)

lemma walk_at_top:
  assumes "rooted_clean a" and "node_of fs False (a @ [slash]) = Inr info"
  shows "walk_at fs (a @ [slash]) (a @ [slash]) (a @ [slash]) info"
proof -
  from assms(2) obtain m c where "namei 40 fs False [] (split_char slash (a @ [slash])) = Inr (m, c)"
    and nd: "node_at fs c = Some info"
    by (auto simp: node_of_def place_def bindE_Inr_iff split: option.splits)
  from namei_slash[OF assms(1) this(1)] have "spot fs (a @ [slash]) = Inr (m, c)"
    using assms(1) by (simp add: spot_def path_elems_slash rooted_clean_def)
  with assms(1) nd show ?thesis by (auto simp: walk_at_def walk_path_def)
qed

lemma walk_at_child:
  assumes w: "walk_at fs tp path absPath Directory" and x: "plain_elem x"
    and l: "node_of fs False (path_join [path, x]) = Inr info"
  shows "walk_at fs tp (path_join [path, x]) (path_join [absPath, x]) info"
proof -
  from w have ab: "is_abs path" "is_abs absPath" by (auto simp: walk_at_def dest: walk_path_abs)
  note j = rooted_join[OF ab(1) x] rooted_join[OF ab(2) x]
  have "(\<forall>m c. spot fs (path_join [path, x]) = Inr (m, c) \<longrightarrow> (\<exists>m'. spot fs (path_join [absPath, x]) = Inr (m', c))) \<and>
      (\<forall>m c. spot fs (path_join [absPath, x]) = Inr (m, c) \<longrightarrow> node_at fs c = Some info)" if nl: "\<not> is_link info"
  proof -
    from l obtain m c where "namei 40 fs False [] (path_elems path @ [x]) = Inr (m, c)" and nd: "node_at fs c = Some info"
      using j(1) by (auto simp: node_of_def place_def bindE_Inr_iff namei_clean split: option.splits)
    from namei_split[OF this(1)] obtain m1 c1 where p: "spot fs path = Inr (m1, c1)"
      and "namei m1 fs False c1 [x] = Inr (m, c)" by (auto simp: spot_def)
    from this(2) nd nl x have c: "c = c1 @ [x]" by (cases rule: namei_ConsE) (auto simp: plain_elem_def)
    from w p obtain m2 where a: "spot fs absPath = Inr (m2, c1)" and d: "node_at fs c1 = Some Directory"
      by (auto simp: walk_at_def)
    have "spot fs (path_join [path, x]) = Inr (m1, c)"
      using namei_join[OF p[unfolded spot_def], where ys = "[]" and y = x] d nd nl x c j(1) by (simp add: spot_def namei_one)
    moreover have "spot fs (path_join [absPath, x]) = Inr (m2, c)"
      using namei_join[OF a[unfolded spot_def], where ys = "[]" and y = x] d nd nl x c j(2) by (simp add: spot_def namei_one)
    ultimately show ?thesis using nd by simp
  qed
  with j show ?thesis by (simp add: walk_at_def walk_path_def)
qed

lemma walk_at_link:
  assumes w: "walk_path tp path" and e: "namei 255 fs True [] (split_char slash path) = Inr (m, c)"
    and l: "node_of fs False (render_path True c) = Inr info"
  shows "walk_at fs tp path (render_path True c) info"
proof -
  have n: "namei 255 fs True [] (path_elems path) = Inr (m, c)" using namei_walk_path[OF w e] .
  have "\<forall>x\<in>set (path_elems path). slash \<notin> set x"
    using plain_elems[OF walk_path_abs[OF w]] by (auto simp: plain_elem_def)
  with namei_canonical[OF n] have can: "canonical fs c" by simp
  then have r: "rooted_clean (render_path True c)" "path_elems (render_path True c) = c"
    by (simp_all add: canonical_def rooted_render)
  have k: "namei 40 fs final [] c = Inr (40, c)" for final
    using namei_of_canonical[of fs "[]" c 40 final] can by simp
  have "c' = c" if "spot fs path = Inr (m', c')" for m' c'
    using namei_more[of 40 fs True "[]" "path_elems path" m' c' 215] that n by (simp add: spot_def)
  moreover have "node_at fs c = Some info"
    using l r k by (auto simp: node_of_def place_def bindE_Inr_iff namei_clean split: option.splits)
  ultimately show ?thesis using w r k by (auto simp: walk_at_def spot_def walk_path_def)
qed

section \<open>An invariant of a walk\<close>

definition world_of :: "(string \<Rightarrow> node option) \<Rightarrow> world \<Rightarrow> bool" where
  "world_of fs w \<longleftrightarrow> nodes w = fs \<and> entries_ok w"

lemma world_of_step: "reads m \<Longrightarrow> keeps_env m \<Longrightarrow> m w = (r, w') \<Longrightarrow> world_of fs w \<Longrightarrow> world_of fs w'"
  using readsD[of m w r w'] keeps_envD[of m w r w'] by (auto simp: world_of_def entries_ok_def same_env_def)

lemma readDirNames_quiet [inv_intros]: "reads (readDirNames p)" "keeps_env (readDirNames p)"
  unfolding readDirNames_def by (intro inv_intros)+

lemma readDirNames_plain:
  assumes "readDirNames p w = (Inr names, w')" and "world_of fs w"
  shows "\<forall>x\<in>set names. plain_elem x"
proof -
  from assms(1) obtain c w1 ns w2 where o: "sys_open p w = (Inr c, w1)" and r: "sys_Readdirnames p c w1 = (Inr ns, w2)"
    and "names = sort ns"
    unfolding readDirNames_def by (elim io_bind_InrE) (auto simp: io_return_def)
  moreover have "world_of fs w1" using o assms(2) by (rule world_of_step[rotated 2]) (rule inv_intros)+
  ultimately show ?thesis
    using sys_Readdirnames_ok[OF r] by (auto simp: world_of_def entries_ok_def)
qed

text \<open>
  What every call of the callback keeps, the walk keeps: a call without an error is at a node
  that is no link, a call with an error has no node it may rely on.
\<close>

definition keeps_at :: "('s \<Rightarrow> bool) \<Rightarrow> (string \<Rightarrow> node option) \<Rightarrow> string \<Rightarrow> 's abs_walk_fn \<Rightarrow> bool" where
  "keeps_at I fs tp fn \<longleftrightarrow>
     (\<forall>path absPath info s w r s1 w1. world_of fs w \<and> I s \<and> walk_at fs tp path absPath info \<and> \<not> is_link info \<and>
        fn path absPath (Some info) None s w = (Inr (r, s1), w1) \<longrightarrow> I s1) \<and>
     (\<forall>path absPath info e s w r s1 w1. I s \<and> fn path absPath info (Some e) s w = (Inr (r, s1), w1) \<longrightarrow> I s1)"

definition quiet :: "'s abs_walk_fn \<Rightarrow> bool" where
  "quiet fn \<longleftrightarrow> (\<forall>p a i e s. reads (fn p a i e s) \<and> keeps_env (fn p a i e s))"

lemma symwalk_quiet [inv_intros]:
  "quiet fn \<Longrightarrow> reads (symwalk n fn path absPath info s)"
  "quiet fn \<Longrightarrow> reads (symwalk_names n fn path absPath names s)"
proof (induction n fn path absPath info s and n fn path absPath names s rule: symwalk_symwalk_names.induct)
  case (4 n fn path absPath name names s)
  have "reads (symwalk_names n fn path absPath names s')" for s'
    using "4.IH"(1)[OF refl refl _ "4.prems", of None s'] by simp
  with 4 show ?case by (auto simp: quiet_def Let_def intro!: inv_intros split: sum.splits)
qed (auto simp: quiet_def Let_def intro!: inv_intros split: sum.splits)

lemma symwalk_env [inv_intros]:
  "quiet fn \<Longrightarrow> keeps_env (symwalk n fn path absPath info s)"
  "quiet fn \<Longrightarrow> keeps_env (symwalk_names n fn path absPath names s)"
proof (induction n fn path absPath info s and n fn path absPath names s rule: symwalk_symwalk_names.induct)
  case (4 n fn path absPath name names s)
  have "keeps_env (symwalk_names n fn path absPath names s')" for s'
    using "4.IH"(1)[OF refl refl _ "4.prems", of None s'] by simp
  with 4 show ?case by (auto simp: quiet_def Let_def intro!: inv_intros split: sum.splits)
qed (auto simp: quiet_def Let_def intro!: inv_intros split: sum.splits)

lemma symwalk_link_cases:
  assumes "symwalk (Suc n) fn path absPath info s w = (Inr (r, s1), w1)" and "is_link info"
  obtains (same) "s1 = s"
    | (follow) p w2 info' w3 r' where "EvalSymlinks path w = (Inr p, w2)" and "sys_lstat p w2 = (Inr info', w3)"
        and "symwalk n fn path p info' s w3 = (Inr (r', s1), w1)"
  using assms by (auto simp: io_defs split: prod.splits sum.splits if_splits)

lemma symwalk_node_cases:
  assumes "symwalk (Suc n) fn path absPath info s w = (Inr (r, s1), w1)" and "\<not> is_link info"
  obtains (stop) w2 where "fn path absPath (Some info) None s w = (Inr (r, s1), w2)"
    | (unread) s2 w2 e w3 where "fn path absPath (Some info) None s w = (Inr (None, s2), w2)"
        and "readDirNames path w2 = (Inl e, w3)" and "fn path absPath (Some info) (Some e) s2 w3 = (Inr (r, s1), w1)"
    | (dir) s2 w2 names w3 where "fn path absPath (Some info) None s w = (Inr (None, s2), w2)" and "node_is_dir info"
        and "readDirNames path w2 = (Inr names, w3)" and "symwalk_names n fn path absPath names s2 w3 = (Inr (r, s1), w1)"
proof -
  from assms obtain r2 s2 w2 where f: "fn path absPath (Some info) None s w = (Inr (r2, s2), w2)"
    and rest: "(if r2 \<noteq> None then io_return (r2, s2)
        else if \<not> node_is_dir info then io_return (None, s2)
        else
          io_try (readDirNames path) (\<lambda>r. case r of
            Inl e \<Rightarrow> fn path absPath (Some info) (Some e) s2
          | Inr names \<Rightarrow> symwalk_names n fn path absPath names s2)) w2 = (Inr (r, s1), w1)"
    by (auto elim!: io_bind_InrE)
  show thesis
  proof (cases "r2 \<noteq> None \<or> \<not> node_is_dir info")
    case True
    with f rest stop show thesis by (auto simp: io_return_def split: if_splits)
  next
    case False
    obtain x w3 where x: "readDirNames path w2 = (x, w3)" by fastforce
    with False f rest unread dir show thesis by (cases x) (auto simp: io_try_def)
  qed
qed

lemma symwalk_names_cases:
  assumes "symwalk_names n fn path absPath (name # names) s w = (Inr (r, s1), w1)"
  obtains (unread) e w2 r2 s2 w3 where "sys_lstat (path_join [path, name]) w = (Inl e, w2)"
        and "fn (path_join [path, name]) (path_join [absPath, name]) None (Some e) s w2 = (Inr (r2, s2), w3)"
        and "s1 = s2 \<or> (r2 = None \<or> r2 = Some SkipDir) \<and> symwalk_names n fn path absPath names s2 w3 = (Inr (r, s1), w1)"
    | (read) fi w2 r2 s2 w3 where "sys_lstat (path_join [path, name]) w = (Inr fi, w2)"
        and "symwalk n fn (path_join [path, name]) (path_join [absPath, name]) fi s w2 = (Inr (r2, s2), w3)"
        and "s1 = s2 \<or> (r2 = None \<or> r2 = Some SkipDir) \<and> symwalk_names n fn path absPath names s2 w3 = (Inr (r, s1), w1)"
proof -
  obtain x w2 where l: "sys_lstat (path_join [path, name]) w = (x, w2)" by fastforce
  show thesis
  proof (cases x)
    case (Inl e)
    with assms l obtain r2 s2 w3
      where f: "fn (path_join [path, name]) (path_join [absPath, name]) None (Some e) s w2 = (Inr (r2, s2), w3)"
        and "s1 = s2 \<or> (r2 = None \<or> r2 = Some SkipDir) \<and> symwalk_names n fn path absPath names s2 w3 = (Inr (r, s1), w1)"
      by (auto simp: Let_def io_try_def io_return_def elim!: io_bind_InrE split: if_splits)
    with unread[OF l[unfolded Inl]] show thesis by blast
  next
    case (Inr fi)
    with assms l obtain r2 s2 w3
      where f: "symwalk n fn (path_join [path, name]) (path_join [absPath, name]) fi s w2 = (Inr (r2, s2), w3)"
        and "s1 = s2 \<or> (r2 = None \<or> r2 = Some SkipDir) \<and> symwalk_names n fn path absPath names s2 w3 = (Inr (r, s1), w1)"
      by (auto simp: Let_def io_try_def io_return_def elim!: io_bind_InrE split: if_splits)
    with read[OF l[unfolded Inr]] show thesis by blast
  qed
qed

lemma symwalk_keeps:
  assumes k: "keeps_at I fs tp fn" and q: "quiet fn"
  shows "symwalk n fn path absPath info s w = (Inr (r, s1), w1) \<Longrightarrow> walk_at fs tp path absPath info \<Longrightarrow>
      world_of fs w \<Longrightarrow> I s \<Longrightarrow> I s1"
    and "symwalk_names n fn path absPath names s w = (Inr (r, s1), w1) \<Longrightarrow> walk_at fs tp path absPath Directory \<Longrightarrow>
      \<forall>x\<in>set names. plain_elem x \<Longrightarrow> world_of fs w \<Longrightarrow> I s \<Longrightarrow> I s1"
  using k q
proof (induction n fn path absPath info s and n fn path absPath names s
    arbitrary: w r s1 w1 and w r s1 w1 rule: symwalk_symwalk_names.induct)
  case (1 fn path absPath info s)
  then show ?case by (simp add: io_return_def)
next
  case (2 n fn path absPath info s)
  note k = \<open>keeps_at I fs tp fn\<close> and q = \<open>quiet fn\<close>
  note w = \<open>world_of fs w\<close> \<open>walk_at fs tp path absPath info\<close>
  show ?case
  proof (cases "is_link info")
    case True
    from "2.prems"(1) this show ?thesis
    proof (cases rule: symwalk_link_cases)
      case (follow p w2 info' w3 r')
      have w2: "world_of fs w2" using follow(1) w(1) by (rule world_of_step[rotated 2]) (rule inv_intros)+
      have w3: "world_of fs w3" using follow(2) w2 by (rule world_of_step[rotated 2]) (rule inv_intros)+
      from EvalSymlinks_ok[OF follow(1)] w(1) obtain m c where
        c: "namei 255 fs True [] (split_char slash path) = Inr (m, c)" and p: "p = render_path True c"
        by (auto simp: world_of_def)
      have "walk_at fs tp path p info'"
        using walk_at_link[OF _ c] sys_lstat_ok[OF follow(2)] w2 w(2) p by (auto simp: world_of_def walk_at_def)
      from "2.IH"(1)[OF True follow(3) this w3] show ?thesis using "2.prems" by blast
    qed (use "2.prems" in simp)
  next
    case False
    have I2: "I s2" if "fn path absPath (Some info) None s w = (Inr (r2, s2), w2)" for r2 s2 w2
      using k w \<open>I s\<close> False that unfolding keeps_at_def by blast
    have W2: "world_of fs w2" if "fn path absPath (Some info) None s w = (r2, w2)" for r2 w2
      using that w(1) by (rule world_of_step[rotated 2]) (use q in \<open>simp_all add: quiet_def\<close>)
    from "2.prems"(1) False show ?thesis
    proof (cases rule: symwalk_node_cases)
      case (stop w2)
      then show ?thesis using I2 by blast
    next
      case (unread s2 w2 e w3)
      then show ?thesis using I2 k unfolding keeps_at_def by blast
    next
      case (dir s2 w2 names w3)
      have d: "info = Directory" using dir(2) by (cases info) simp_all
      have w3: "world_of fs w3" using dir(3) W2[OF dir(1)] by (rule world_of_step[rotated 2]) (rule inv_intros)+
      show ?thesis
        using "2.IH"(2)[OF False _ _ dir(4) _ readDirNames_plain[OF dir(3) W2[OF dir(1)]] w3 I2[OF dir(1)] k q] d w(2)
        by simp
    qed
  qed
next
  case (3 n fn path absPath s)
  then show ?case by (simp add: io_return_def)
next
  case (4 n fn path absPath name names s)
  note k = \<open>keeps_at I fs tp fn\<close> and q = \<open>quiet fn\<close>
  note w = \<open>world_of fs w\<close> \<open>walk_at fs tp path absPath Directory\<close>
  have rest: "I s1" if "s1 = s2 \<or> (r2 = None \<or> r2 = Some SkipDir) \<and>
      symwalk_names n fn path absPath names s2 w3 = (Inr (r, s1), w1)" and "I s2" and "world_of fs w3" for s2 r2 w3
    using that "4.IH"(1)[OF refl refl _ _ w(2) _ _ _ k q, of None] "4.prems"(3) by auto
  from "4.prems"(1) show ?case
  proof (cases rule: symwalk_names_cases)
    case (unread e w2 r2 s2 w3)
    have w2: "world_of fs w2" using unread(1) w(1) by (rule world_of_step[rotated 2]) (rule inv_intros)+
    have "world_of fs w3" using unread(2) w2 by (rule world_of_step[rotated 2]) (use q in \<open>simp_all add: quiet_def\<close>)
    moreover have "I s2" using unread(2) k \<open>I s\<close> unfolding keeps_at_def by blast
    ultimately show ?thesis using rest unread(3) by blast
  next
    case (read fi w2 r2 s2 w3)
    have w2: "world_of fs w2" using read(1) w(1) by (rule world_of_step[rotated 2]) (rule inv_intros)+
    have w3: "world_of fs w3" using read(2) w2 by (rule world_of_step[rotated 2]) (use q in \<open>rule symwalk_quiet symwalk_env\<close>)+
    have "walk_at fs tp (path_join [path, name]) (path_join [absPath, name]) fi"
      using walk_at_child[OF w(2)] sys_lstat_ok[OF read(1)] "4.prems"(3) w(1) by (simp add: world_of_def)
    from "4.IH"(2)[OF refl refl read(2) this w2 \<open>I s\<close> k q] have "I s2" .
    with w3 rest read(3) show ?thesis by blast
  qed
qed

section \<open>Nothing outside the root is loaded\<close>

text \<open>
  What \<open>SecureJoin\<close> promises: its result lies below the root, and no element below the root is a
  link, wherever the root itself is.
\<close>

definition secure_join_ok :: "loader_ext \<Rightarrow> (string \<Rightarrow> node option) \<Rightarrow> bool" where
  "secure_join_ok x fs \<longleftrightarrow>
     (\<forall>root p q. rooted_clean root \<and> SecureJoin x fs root p = Inr q \<longrightarrow>
        rooted_clean q \<and>
        (\<exists>rest. path_elems q = path_elems root @ rest \<and>
           (\<forall>m r. spot fs root = Inr (m, r) \<longrightarrow> no_links fs r rest)))"

text \<open>
  A loaded file is the content of a regular file, without a byte order mark, that lies, with all
  links resolved, below the place of the root, and it is not too long.
\<close>

definition loaded_from :: "(string \<Rightarrow> node option) \<Rightarrow> string \<Rightarrow> int \<Rightarrow> buffered_file \<Rightarrow> bool" where
  "loaded_from fs root maxSize f \<longleftrightarrow>
     (\<exists>m r c b. spot fs root = Inr (m, r) \<and> prefix r c \<and> node_at fs c = Some (File b) \<and>
        bf_Data f = trim_prefix b utf8bom \<and> (0 < maxSize \<longrightarrow> int (length b) \<le> maxSize))"

lemma secure_join_eq: "secure_join x root p w = (r, w') \<longleftrightarrow> r = SecureJoin x (nodes w) root p \<and> w' = w"
  by (auto simp: secure_join_def)

lemma secure_join_InrD: "secure_join x root p w = (Inr q, w') \<Longrightarrow> SecureJoin x (nodes w) root p = Inr q \<and> w' = w"
  by (auto simp: secure_join_def)

lemma secure_join_quiet [inv_intros]: "reads (secure_join x root p)" "keeps_env (secure_join x root p)"
  by (simp_all add: reads_def keeps_env_def secure_join_def)

lemma isSecure_quiet [inv_intros]: "reads (isSecureAbsolutePath x root p)" "keeps_env (isSecureAbsolutePath x root p)"
  unfolding isSecureAbsolutePath_def Let_def by (intro inv_intros)+

lemma isSecure_place:
  assumes "isSecureAbsolutePath x root p w = (Inr t, w1)" and "secure_join_ok x (nodes w)"
    and "rooted_clean root" and "rooted_clean p" and "place (nodes w) True p = Inr c"
  shows "\<exists>m r. spot (nodes w) root = Inr (m, r) \<and> prefix r c"
proof -
  let ?fs = "nodes w"
  from assms(4,5) obtain m where c: "namei 40 ?fs True [] (path_elems p) = Inr (m, c)"
    by (auto simp: place_def bindE_Inr_iff namei_clean)
  show ?thesis
  proof (cases "root = ''/''")
    case True
    have "path_elems root = []" unfolding True by code_simp
    then show ?thesis by (simp add: spot_def)
  next
    case False
    with assms(1,3,4) obtain q where "SecureJoin x ?fs root q = Inr p"
      by (auto simp: isSecureAbsolutePath_def Let_def rooted_clean_def io_defs secure_join_eq
          split: sum.splits if_splits prod.splits)
    with assms(2,3) obtain rest where e: "path_elems p = path_elems root @ rest"
      and nl: "\<forall>m r. spot ?fs root = Inr (m, r) \<longrightarrow> no_links ?fs r rest"
      unfolding secure_join_ok_def by blast
    show ?thesis
    proof (cases rest)
      case Nil
      with c e show ?thesis by (simp add: spot_def)
    next
      case (Cons y ys)
      from namei_split[OF c[unfolded e Cons]] obtain m1 r
        where r: "spot ?fs root = Inr (m1, r)" and "namei m1 ?fs True r rest = Inr (m, c)"
        by (auto simp: spot_def Cons)
      with nl namei_no_links[OF this(2)] plain_elems[of p] assms(4) e have "c = r @ rest"
        by (auto simp: rooted_clean_def)
      with r show ?thesis by simp
    qed
  qed
qed

definition good_walker :: "(string \<Rightarrow> node option) \<Rightarrow> string \<Rightarrow> string \<Rightarrow> int \<Rightarrow> secure_walker \<Rightarrow> bool" where
  "good_walker fs root tp maxSize s \<longleftrightarrow>
     sw_root s = root \<and> sw_absChartPath s = tp \<and> sw_maxSize s = maxSize \<and>
     (\<forall>f\<in>set (sw_files s). loaded_from fs root maxSize f)"

lemma walk_file_quiet [inv_intros]: "reads (walk_file n p fi s)" "keeps_env (walk_file n p fi s)"
  unfolding walk_file_def by (intro inv_intros)+

lemma secure_check_quiet [inv_intros]:
  "reads go \<Longrightarrow> reads (secure_check x n what p s go)" "keeps_env go \<Longrightarrow> keeps_env (secure_check x n what p s go)"
  unfolding secure_check_def by (intro inv_intros; assumption)+

lemma secure_walk_quiet: "quiet (secure_walk x)"
  unfolding quiet_def secure_walk_def Let_def by (intro allI conjI inv_intros)

lemma loaded_from_walk:
  assumes sj: "secure_join_ok x fs" and root: "rooted_clean root" and w: "world_of fs w"
    and at: "walk_at fs tp path absPath info" and nl: "\<not> is_link info" and ne: "path \<noteq> tp"
    and sec: "isSecureAbsolutePath x root absPath w = (Inr t, w1)"
    and read: "sys_ReadFile absPath w1 = (Inr data, w2)"
    and reg: "node_is_regular info" and size: "\<not> (0 < maxSize \<and> maxSize < int (node_size info))"
  shows "loaded_from fs root maxSize \<lparr>bf_Name = n, bf_Data = trim_prefix data utf8bom\<rparr>"
proof -
  have rc: "rooted_clean absPath" using at ne by (auto simp: walk_at_def)
  have fs: "nodes w = fs" "nodes w1 = fs"
    using w readsD[OF isSecure_quiet(1) sec] by (simp_all add: world_of_def)
  from sys_ReadFile_ok[OF read] fs obtain c where c: "place fs True absPath = Inr c"
    and nd: "node_at fs c = Some (File data) \<or> node_at fs c = Some (Special data)" by auto
  from isSecure_place[OF sec _ root rc] sj fs c obtain m r where r: "spot fs root = Inr (m, r)" "prefix r c" by auto
  from c rc have "node_at fs c = Some info"
    using at nl by (auto simp: place_def bindE_Inr_iff namei_clean walk_at_def spot_def)
  with nd reg have "info = File data" by auto
  with r size \<open>node_at fs c = Some info\<close> show ?thesis by (auto simp: loaded_from_def)
qed

lemma walk_file_cases:
  assumes "walk_file n absName fi s w = (Inr (r, s1), w1)"
  obtains (same) "s1 = s"
    | (loaded) data where "sys_ReadFile absName w = (Inr data, w1)" and "node_is_regular fi"
        and "\<not> (0 < sw_maxSize s \<and> sw_maxSize s < int (node_size fi))"
        and "s1 = s\<lparr>sw_files := sw_files s @ [\<lparr>bf_Name = n, bf_Data = trim_prefix data utf8bom\<rparr>]\<rparr>"
  using assms by (auto simp: walk_file_def io_defs split: if_splits prod.splits sum.splits)

lemma secure_check_cases:
  assumes "secure_check x n what absName s go w = (Inr (r, s1), w1)"
  obtains (same) "s1 = s"
    | (secure) t w2 where "isSecureAbsolutePath x (sw_root s) absName w = (Inr t, w2)" and "go w2 = (Inr (r, s1), w1)"
  using assms by (auto simp: secure_check_def io_defs split: prod.splits sum.splits)

lemma secure_walk_cases:
  assumes "secure_walk x path absPath (Some info) None s w = (Inr (r, s1), w1)"
  obtains (same) "sw_files s1 = sw_files s" and "sw_root s1 = sw_root s"
      and "sw_absChartPath s1 = sw_absChartPath s" and "sw_maxSize s1 = sw_maxSize s"
    | (loaded) rs t w2 data n where "path \<noteq> sw_absChartPath s"
        and "isSecureAbsolutePath x (sw_root s) absPath w = (Inr t, w2)"
        and "sys_ReadFile absPath w2 = (Inr data, w1)" and "node_is_regular info"
        and "\<not> (0 < sw_maxSize s \<and> sw_maxSize s < int (node_size info))"
        and "s1 = s\<lparr>sw_rules := rs, sw_files := sw_files s @ [\<lparr>bf_Name = n, bf_Data = trim_prefix data utf8bom\<rparr>]\<rparr>"
proof (cases "trim_prefix path (sw_absChartPath s) = ''''")
  case True
  with assms same show thesis by (simp add: secure_walk_def io_return_def)
next
  case False
  define n where "n = trim_prefix path (sw_absChartPath s)"
  have ne: "path \<noteq> sw_absChartPath s" using False trim_prefix_append[of "sw_absChartPath s" "[]"] by auto
  obtain ign rs where i: "Ignore (sw_rules s) n (node_is_dir info) = (ign, rs)" by fastforce
  show thesis
  proof (cases "ign \<or> node_is_dir info")
    case True
    with assms i False same show thesis
      by (auto simp: secure_walk_def Let_def n_def[symmetric] io_return_def elim!: secure_check_cases split: if_splits)
  next
    case f: False
    with assms i False
    have "secure_check x n '' file'' absPath (s\<lparr>sw_rules := rs\<rparr>) (walk_file n absPath info (s\<lparr>sw_rules := rs\<rparr>)) w = (Inr (r, s1), w1)"
      by (simp add: secure_walk_def Let_def n_def[symmetric])
    then show thesis
    proof (cases rule: secure_check_cases)
      case same
      then show thesis by (intro that(1)) simp_all
    next
      case (secure t w2)
      from secure(2) show thesis
        by (cases rule: walk_file_cases) (use that ne secure(1) in auto)
    qed
  qed
qed

lemma secure_walk_keeps:
  assumes sj: "secure_join_ok x fs" and root: "rooted_clean root"
  shows "keeps_at (good_walker fs root tp maxSize) fs tp (secure_walk x)"
  unfolding keeps_at_def
proof (intro conjI allI impI; elim conjE)
  fix path absPath info s w r s1 w1
  assume w: "world_of fs w" and g: "good_walker fs root tp maxSize s" and at: "walk_at fs tp path absPath info"
    and nl: "\<not> is_link info" and run: "secure_walk x path absPath (Some info) None s w = (Inr (r, s1), w1)"
  from run show "good_walker fs root tp maxSize s1"
  proof (cases rule: secure_walk_cases)
    case same
    with g show ?thesis by (simp add: good_walker_def)
  next
    case (loaded rs t w2 data n)
    with g loaded_from_walk[OF sj root w at nl, of t w2 data w1 maxSize n] show ?thesis
      by (auto simp: good_walker_def)
  qed
next
  fix path absPath info e s w r s1 w1
  assume "good_walker fs root tp maxSize s" and "secure_walk x path absPath info (Some e) s w = (Inr (r, s1), w1)"
  then show "good_walker fs root tp maxSize s1"
    by (auto simp: secure_walk_def Let_def io_return_def split: if_splits)
qed

lemma sym_Walk_keeps:
  assumes k: "keeps_at I fs (a @ [slash]) fn" and q: "quiet fn" and a: "rooted_clean a"
    and w: "world_of fs w" and I: "I s" and run: "sym_Walk (a @ [slash]) fn s w = (Inr (r, s1), w1)"
  shows "I s1"
proof -
  let ?tp = "a @ [slash]"
  obtain l w2 where l: "sys_lstat ?tp w = (l, w2)" by fastforce
  have w2: "world_of fs w2" using l w by (rule world_of_step[rotated 2]) (rule inv_intros)+
  show ?thesis
  proof (cases l)
    case (Inl e)
    with run l obtain r2 w3 where "fn ?tp ?tp None (Some e) s w2 = (Inr (r2, s1), w3)"
      by (auto simp: sym_Walk_def io_defs split: prod.splits sum.splits)
    with k I show ?thesis unfolding keeps_at_def by blast
  next
    case (Inr info)
    with run l obtain r2 w3 where f: "symwalk max_depth fn ?tp ?tp info s w2 = (Inr (r2, s1), w3)"
      by (auto simp: sym_Walk_def io_defs split: prod.splits sum.splits)
    have "node_of fs False ?tp = Inr info" using sys_lstat_ok l w unfolding Inr world_of_def by blast
    from symwalk_keeps(1)[OF k q f walk_at_top[OF a this] w2 I] show ?thesis .
  qed
qed

lemma walk_chart_loaded:
  assumes sj: "secure_join_ok x fs" and root: "rooted_clean root" and a: "rooted_clean a"
    and w: "world_of fs w" and run: "walk_chart x root a maxSize rules w = (Inr s, w')"
  shows "\<forall>f\<in>set (sw_files s). loaded_from fs root maxSize f"
proof -
  let ?s = "newSecureFileWalker root a maxSize rules"
  have tp: "sw_absChartPath ?s = a @ [slash]" using a by (simp add: newSecureFileWalker_def rooted_clean_def)
  from run obtain w1 where "sym_Walk (a @ [slash]) (secure_walk x) ?s w = (Inr (None, s), w1)"
    by (auto simp: walk_chart_def Let_def tp io_defs split: prod.splits sum.splits option.splits)
  moreover have "good_walker fs root (a @ [slash]) maxSize ?s"
    using tp by (simp add: good_walker_def newSecureFileWalker_def)
  ultimately have "good_walker fs root (a @ [slash]) maxSize s"
    using sym_Walk_keeps[OF secure_walk_keeps[OF sj root] secure_walk_quiet a w] by blast
  then show ?thesis by (simp add: good_walker_def)
qed

lemma abs_path_rooted: "abs_path cwd p = Inr q \<Longrightarrow> is_abs q \<Longrightarrow> rooted_clean q"
  by (auto simp: abs_path_def rooted_clean_def bindE_Inr_iff path_join_def Let_def split: if_splits)

lemma abs_path_clean: "rooted_clean p \<Longrightarrow> abs_path cwd p = Inr p"
  by (simp add: abs_path_def rooted_clean_def)

lemma ParseFile_quiet [inv_intros]: "reads (ParseFile f)" "keeps_env (ParseFile f)"
  unfolding ParseFile_def by (intro inv_intros)+

lemma secureLoadIgnoreRules_quiet [inv_intros]:
  "reads (secureLoadIgnoreRules x root p)" "keeps_env (secureLoadIgnoreRules x root p)"
  unfolding secureLoadIgnoreRules_def by (intro inv_intros)+

lemma SecureLoadDir_loaded:
  assumes sj: "secure_join_ok x fs" and root: "rooted_clean root" and w: "world_of fs w"
    and run: "SecureLoadDir x cwd root path maxSize w = (Inr ch, w')"
  shows "\<exists>files. LoadFiles x files = Inr ch \<and> (\<forall>f\<in>set files. loaded_from fs root maxSize f)"
proof -
  from run obtain p a rules w1 s w2 where j: "SecureJoin x (nodes w) root p = Inr a"
    and i: "secureLoadIgnoreRules x root p w = (Inr rules, w1)" and c: "walk_chart x root a maxSize rules w1 = (Inr s, w2)"
    and f: "LoadFiles x (sw_files s) = Inr ch"
    unfolding SecureLoadDir_def abs_path_clean[OF root]
    by (elim io_bind_InrE io_err_cases) (auto simp: io_lift_def dest!: secure_join_InrD elim!: io_err_cases)
  have "world_of fs w1" using i w by (rule world_of_step[rotated 2]) (rule inv_intros)+
  moreover have "rooted_clean a" using sj j root w by (auto simp: secure_join_ok_def world_of_def)
  ultimately have "\<forall>f\<in>set (sw_files s). loaded_from fs root maxSize f"
    using walk_chart_loaded[OF sj root _ _ c] by blast
  with f show ?thesis by blast
qed

lemma sym_Walk_quiet [inv_intros]:
  assumes "quiet fn" shows "reads (sym_Walk p fn s)" and "keeps_env (sym_Walk p fn s)"
proof -
  have "reads (fn p p None (Some e) s)" "keeps_env (fn p p None (Some e) s)" for e
    using assms by (simp_all add: quiet_def)
  then show "reads (sym_Walk p fn s)" "keeps_env (sym_Walk p fn s)"
    using assms unfolding sym_Walk_def
    by (auto intro!: inv_intros symwalk_quiet(1) symwalk_env(1) split: sum.splits)
qed

lemma walk_chart_quiet [inv_intros]: "reads (walk_chart x root a m rules)" "keeps_env (walk_chart x root a m rules)"
  unfolding walk_chart_def Let_def by (intro inv_intros secure_walk_quiet)+

lemma SecureLoadDir_quiet [inv_intros]:
  "reads (SecureLoadDir x cwd root p m)" "keeps_env (SecureLoadDir x cwd root p m)"
  unfolding SecureLoadDir_def by (intro inv_intros)+

lemma Loader_quiet [inv_intros]: "reads (Loader x cwd root p)" "keeps_env (Loader x cwd root p)"
  unfolding Loader_def Let_def by (intro inv_intros)+

lemma loader_load_quiet [inv_intros]: "reads (loader_load x cwd l)" "keeps_env (loader_load x cwd l)"
  using SecureLoadDir_quiet by (cases l; simp add: loader_load_def reads_def keeps_env_def)+

lemma secure_Load_quiet [inv_intros]: "reads (secure_Load x cwd root p)" "keeps_env (secure_Load x cwd root p)"
  unfolding secure_Load_def by (intro inv_intros)+

lemma Loader_cases:
  assumes "Loader x cwd root0 name w = (Inr l, w')" and "abs_path cwd root0 = Inr root"
  obtains (dir) p where "l = SecureDirLoader root p (int MaxChartFileSize)"
    | (archive) p q where "SecureJoin x (nodes w) root p = Inr q" and "l = FileLoader q"
  using assms unfolding Loader_def Let_def
  by (elim io_bind_InrE io_try_cases)
    (auto simp: io_defs NewSecureDirLoader_def MaxChartFileSize_def split: if_splits dest!: secure_join_InrD)

lemma secure_Load_loaded:
  assumes "secure_join_ok x (nodes w)" and "entries_ok w"
    and "abs_path cwd root0 = Inr root" and "is_abs root"
    and "secure_Load x cwd root0 name w = (Inr ch, w')"
  shows "nodes w' = nodes w \<and>
    ((\<exists>files. LoadFiles x files = Inr ch \<and> (\<forall>f\<in>set files. loaded_from (nodes w) root (int MaxChartFileSize) f)) \<or>
     (\<exists>p q. SecureJoin x (nodes w) root p = Inr q \<and> LoadFile x (nodes w) q = Inr ch))"
proof
  show "nodes w' = nodes w" using readsD[OF secure_Load_quiet(1) assms(5)] .
  have w: "world_of (nodes w) w" using assms(2) by (simp add: world_of_def)
  from assms(5) obtain l w1 where l: "Loader x cwd root0 name w = (Inr l, w1)" and c: "loader_load x cwd l w1 = (Inr ch, w')"
    unfolding secure_Load_def by (elim io_bind_InrE)
  have w1: "world_of (nodes w) w1" using l w by (rule world_of_step[rotated 2]) (rule inv_intros)+
  from l assms(3) show "(\<exists>files. LoadFiles x files = Inr ch \<and>
        (\<forall>f\<in>set files. loaded_from (nodes w) root (int MaxChartFileSize) f)) \<or>
     (\<exists>p q. SecureJoin x (nodes w) root p = Inr q \<and> LoadFile x (nodes w) q = Inr ch)"
  proof (cases rule: Loader_cases)
    case (dir p)
    with c have "SecureLoadDir x cwd root p (int MaxChartFileSize) w1 = (Inr ch, w')" by (simp add: loader_load_def)
    from SecureLoadDir_loaded[OF assms(1) abs_path_rooted[OF assms(3,4)] w1 this] show ?thesis by blast
  next
    case (archive p q)
    with c w1 have "LoadFile x (nodes w) q = Inr ch" by (auto simp: loader_load_def world_of_def)
    with archive show ?thesis by blast
  qed
qed

text \<open>
  C5. A chart that the secure loader returns was made only of regular files that lie below the
  root once every link is resolved, none of them longer than the limit for chart files, or is
  an archive whose path \<open>SecureJoin\<close> has put below the root; and nothing was written.
\<close>

theorem nothing_outside_the_root_is_loaded:
  assumes "secure_join_ok x (nodes w)" and "entries_ok w"
    and "abs_path cwd root0 = Inr root" and "is_abs root"
    and "secure_Load x cwd root0 name w = (Inr ch, w')"
  shows "nodes w' = nodes w \<and>
    ((\<exists>files. LoadFiles x files = Inr ch \<and> (\<forall>f\<in>set files. loaded_from (nodes w) root (int MaxChartFileSize) f)) \<or>
     (\<exists>p q. SecureJoin x (nodes w) root p = Inr q \<and> LoadFile x (nodes w) q = Inr ch))"
  using secure_Load_loaded[OF assms] .

section \<open>An example\<close>

text \<open>
  A chart directory with one file and a link to it. \<open>sample_join\<close> joins lexically and refuses
  what is not below the root.
\<close>

definition sample_join :: "(string \<Rightarrow> node option) \<Rightarrow> string \<Rightarrow> string \<Rightarrow> go_error + string" where
  "sample_join fs root p =
     (let q = path_join [root, p]; rest = drop (length (path_elems root)) (path_elems q) in
      if rooted_clean q \<and> path_elems q = path_elems root @ rest \<and>
         (case spot fs root of Inl e \<Rightarrow> True | Inr (m, r) \<Rightarrow> no_links fs r rest)
      then Inr q else Inl EOF)"

lemma sample_join_ok: "secure_join_ok \<lparr>SecureJoin = sample_join, LoadFiles = f, LoadFile = g\<rparr> fs"
  by (auto simp: secure_join_ok_def sample_join_def Let_def split: if_splits)

definition sample_nodes :: "(string \<times> node) list" where
  "sample_nodes =
     [(''/'', Directory), (''/r'', Directory), (''/r/c'', Directory), (''/r/c/f'', File ''x''),
      (''/r/c/l'', Symlink ''f'')]"

definition chart_world :: "nat \<Rightarrow> world" where
  "chart_world k = small_world\<lparr>nodes := map_of sample_nodes, entries := listing (map fst sample_nodes), clock := k\<rparr>"

definition sample_loader :: loader_ext where
  "sample_loader =
     \<lparr>SecureJoin = sample_join,
      LoadFiles = (\<lambda>fs. if fs = [\<lparr>bf_Name = ''f'', bf_Data = ''x''\<rparr>, \<lparr>bf_Name = ''l'', bf_Data = ''x''\<rparr>]
        then Inr (Chart empty_metadata [] [] [] [] None) else Inl EOF),
      LoadFile = (\<lambda>fs p. Inl EOF)\<rparr>"

lemma chart_world_ok: "entries_ok (chart_world k)"
  by (rule entries_ok_listing[of _ "map fst sample_nodes"]) (auto simp: chart_world_def dom_map_of_conv_image_fst)

lemma sample_calls:
  "sys_lstat p (chart_world k) =
     (mapErr (PathError ''lstat'' p) (node_of (map_of sample_nodes) False p), chart_world (Suc k))"
  "sys_stat p (chart_world k) =
     (mapErr (PathError ''stat'' p) (node_of (map_of sample_nodes) True p), chart_world (Suc k))"
  "nodes (chart_world k) = map_of sample_nodes"
  by (simp_all add: sys_lstat_def sys_stat_def syscall_def chart_world_def small_world_def)

lemma sample_reads:
  "sys_ReadFile ''/r/c/f'' (chart_world k) = (Inr ''x'', chart_world (Suc (Suc k)))"
  "readDirNames ''/r/c/'' (chart_world k) = (Inr [''f'', ''l''], chart_world (Suc (Suc k)))"
  "EvalSymlinks ''/r/c/l'' (chart_world k) = (Inr ''/r/c/f'', chart_world (Suc k))"
proof -
  have p: "place (map_of sample_nodes) True ''/r/c/f'' = Inr [''r'', ''c'', ''f'']"
    "place (map_of sample_nodes) True ''/r/c/'' = Inr [''r'', ''c'']"
    "namei 255 (map_of sample_nodes) True [] (split_char slash ''/r/c/l'') = Inr (254, [''r'', ''c'', ''f''])"
    "node_at (map_of sample_nodes) [''r'', ''c'', ''f''] = Some (File ''x'')"
    "node_at (map_of sample_nodes) [''r'', ''c''] = Some Directory"
    "render_path True [''r'', ''c''] = ''/r/c''" "render_path True [''r'', ''c'', ''f''] = ''/r/c/f''"
    "sort (listing (map fst sample_nodes) (map_of sample_nodes) ''/r/c'') = [''f'', ''l'']"
    by code_simp+
  show "sys_ReadFile ''/r/c/f'' (chart_world k) = (Inr ''x'', chart_world (Suc (Suc k)))"
    "readDirNames ''/r/c/'' (chart_world k) = (Inr [''f'', ''l''], chart_world (Suc (Suc k)))"
    "EvalSymlinks ''/r/c/l'' (chart_world k) = (Inr ''/r/c/f'', chart_world (Suc k))"
    using p by (simp_all add: sys_ReadFile_def sys_open_def sys_read_def EvalSymlinks_def readDirNames_def
        sys_Readdirnames_def syscall_def chart_world_def small_world_def io_bind_def io_return_def)
qed

lemma sample_joins:
  "SecureJoin sample_loader (map_of sample_nodes) ''/r'' ''c'' = Inr ''/r/c''"
  "SecureJoin sample_loader (map_of sample_nodes) ''/r'' ''c/f'' = Inr ''/r/c/f''"
  "SecureJoin sample_loader (map_of sample_nodes) ''/r'' ''c/.helmignore'' = Inr ''/r/c/.helmignore''"
  by code_simp+

lemma sample_paths:
  "path_clean ''/r'' = ''/r''" "path_clean ''/r/c/f'' = ''/r/c/f''" "path_clean ''c'' = ''c''" "path_clean ''/r/c'' = ''/r/c''"
  "path_rel ''/r'' ''/r/c/f'' = Inr ''c/f''" "path_join [''c'', ''.helmignore''] = ''c/.helmignore''"
  "path_join [''/r/c/'', ''f''] = ''/r/c/f''" "path_join [''/r/c/'', ''l''] = ''/r/c/l''"
  "trim_prefix ''/r/c/f'' ''/r/c/'' = ''f''" "trim_prefix ''/r/c/l'' ''/r/c/'' = ''l''" "trim_prefix ''/r/c/'' ''/r/c/'' = ''''"
  "is_abs ''/r'' = True" "is_abs ''c'' = False" "trim_prefix ''x'' utf8bom = ''x''"
  "node_of (map_of sample_nodes) False ''/r/c/'' = Inr Directory"
  "node_of (map_of sample_nodes) False ''/r/c'' = Inr Directory"
  "node_of (map_of sample_nodes) False ''/r/c/f'' = Inr (File ''x'')"
  "node_of (map_of sample_nodes) False ''/r/c/l'' = Inr (Symlink ''f'')"
  "node_of (map_of sample_nodes) True ''/r/c/.helmignore'' = Inl ErrNotExist"
  "Ignore (AddDefaults Empty_rules) ''f'' False = (False, AddDefaults Empty_rules)"
  "Ignore (AddDefaults Empty_rules) ''l'' False = (False, AddDefaults Empty_rules)"
  by code_simp+

definition sample_walker :: "buffered_file list \<Rightarrow> secure_walker" where
  "sample_walker fs = \<lparr>sw_root = ''/r'', sw_absChartPath = ''/r/c/'', sw_maxSize = int MaxChartFileSize,
     sw_rules = AddDefaults Empty_rules, sw_files = fs\<rparr>"

lemma sample_secure:
  "isSecureAbsolutePath sample_loader ''/r'' ''/r/c/f'' (chart_world k) = (Inr True, chart_world k)"
  by (simp add: isSecureAbsolutePath_def sample_paths sample_joins sample_calls secure_join_def io_defs)

lemma sample_walk_step:
  assumes "n \<in> {''f'', ''l''}"
  shows "secure_walk sample_loader (''/r/c/'' @ n) ''/r/c/f'' (Some (File ''x'')) None (sample_walker fs) (chart_world k) =
    (Inr (None, sample_walker (fs @ [\<lparr>bf_Name = n, bf_Data = ''x''\<rparr>])), chart_world (Suc (Suc k)))"
proof -
  have "Ignore (AddDefaults Empty_rules) n False = (False, AddDefaults Empty_rules)"
    using assms by (auto simp: sample_paths)
  with assms show ?thesis
    by (auto simp add: secure_walk_def sample_walker_def secure_check_def sample_secure walk_file_def sample_reads sample_paths
        io_defs MaxChartFileSize_def Let_def)
qed

lemma sample_load:
  "\<exists>k. secure_Load sample_loader (Inr ''/'') ''/r'' ''c'' (chart_world 0) =
    (Inr (Chart empty_metadata [] [] [] [] None), chart_world k)"
proof -
  obtain n where md: "max_depth = Suc (Suc (Suc n))" by (auto simp: max_depth_def numeral_eq_Suc)
  have steps: "secure_walk sample_loader ''/r/c/f'' ''/r/c/f'' (Some (File ''x'')) None (sample_walker fs) (chart_world k) =
      (Inr (None, sample_walker (fs @ [\<lparr>bf_Name = ''f'', bf_Data = ''x''\<rparr>])), chart_world (Suc (Suc k)))"
    "secure_walk sample_loader ''/r/c/l'' ''/r/c/f'' (Some (File ''x'')) None (sample_walker fs) (chart_world k) =
      (Inr (None, sample_walker (fs @ [\<lparr>bf_Name = ''l'', bf_Data = ''x''\<rparr>])), chart_world (Suc (Suc k)))" for fs k
    using sample_walk_step[of "''f''" fs k] sample_walk_step[of "''l''" fs k] by simp_all
  have top: "secure_walk sample_loader ''/r/c/'' ''/r/c/'' (Some Directory) None (sample_walker []) w =
      (Inr (None, sample_walker []), w)" for w
    by (simp add: secure_walk_def sample_walker_def sample_paths io_return_def)
  have walk: "sym_Walk ''/r/c/'' (secure_walk sample_loader) (sample_walker []) (chart_world k) =
      (Inr (None, sample_walker [\<lparr>bf_Name = ''f'', bf_Data = ''x''\<rparr>, \<lparr>bf_Name = ''l'', bf_Data = ''x''\<rparr>]),
       chart_world (k + 11))" for k
    by (simp add: sym_Walk_def md sample_calls sample_paths sample_reads steps top io_defs Let_def eval_nat_numeral)
  have new: "newSecureFileWalker ''/r'' ''/r/c'' (int MaxChartFileSize) (AddDefaults Empty_rules) = sample_walker []"
    by (simp add: newSecureFileWalker_def sample_walker_def sample_paths slash_def)
  have sel: "sw_absChartPath (sample_walker fs) = ''/r/c/''" "sw_files (sample_walker fs) = fs" for fs
    by (simp_all add: sample_walker_def)
  have rules: "secureLoadIgnoreRules sample_loader ''/r'' ''c'' (chart_world k) =
      (Inr (AddDefaults Empty_rules), chart_world (Suc k))" for k
    by (simp add: secureLoadIgnoreRules_def secure_join_def HelmIgnore_def sample_calls sample_paths sample_joins io_defs)
  have load: "SecureLoadDir sample_loader (Inr ''/'') ''/r'' ''c'' (int MaxChartFileSize) (chart_world k) =
      (Inr (Chart empty_metadata [] [] [] [] None), chart_world (k + 12))" for k
    by (simp add: SecureLoadDir_def abs_path_def relative_to_def secure_join_def sample_calls sample_paths sample_joins
        rules walk_chart_def new sel walk io_defs Let_def eval_nat_numeral) (simp add: sample_loader_def)
  have "Loader sample_loader (Inr ''/'') ''/r'' ''c'' (chart_world k) =
      (Inr (SecureDirLoader ''/r'' ''c'' (int MaxChartFileSize)), chart_world (Suc k))" for k
    by (simp add: Loader_def abs_path_def secure_join_def sample_calls sample_paths sample_joins io_defs Let_def
        NewSecureDirLoader_def MaxChartFileSize_def)
  with load show ?thesis
    by (auto simp: secure_Load_def loader_load_def io_bind_def)
qed

text \<open>Both names of the file were loaded: with its own path and through the link.\<close>

theorem nothing_outside_the_root_is_loaded_witness:
  "\<exists>ch k. secure_Load sample_loader (Inr ''/'') ''/r'' ''c'' (chart_world 0) = (Inr ch, chart_world k) \<and>
     nodes (chart_world k) = map_of sample_nodes \<and>
     ((\<exists>files. LoadFiles sample_loader files = Inr ch \<and>
         (\<forall>f\<in>set files. loaded_from (map_of sample_nodes) ''/r'' (int MaxChartFileSize) f)) \<or>
      (\<exists>p q. SecureJoin sample_loader (map_of sample_nodes) ''/r'' p = Inr q \<and>
         LoadFile sample_loader (map_of sample_nodes) q = Inr ch))"
proof -
  obtain k where k: "secure_Load sample_loader (Inr ''/'') ''/r'' ''c'' (chart_world 0) =
    (Inr (Chart empty_metadata [] [] [] [] None), chart_world k)"
    using sample_load by blast
  have "secure_join_ok sample_loader (nodes (chart_world 0))" unfolding sample_loader_def by (rule sample_join_ok)
  moreover have "abs_path (Inr ''/'') ''/r'' = Inr ''/r''" "is_abs ''/r''"
    by (simp_all add: abs_path_def sample_paths)
  ultimately show ?thesis
    using k nothing_outside_the_root_is_loaded[OF _ chart_world_ok _ _ k, of "''/r''"] by (auto simp: sample_calls)
qed

text \<open>
  The callback ignores every call for the top of the walk before it looks at the error, so a chart
  directory that cannot be read counts as an empty one.
\<close>

lemma top_errors_are_dropped: "sw_absChartPath s = p \<Longrightarrow> secure_walk x p a fi (Some e) s w = (Inr (None, s), w)"
  using trim_prefix_append[of p "[]"] by (simp add: secure_walk_def io_return_def)

lemma unreadable_chart_is_empty:
  assumes "sys_lstat (sw_absChartPath (newSecureFileWalker root a m rules)) w = (Inl e, w1)"
  shows "walk_chart x root a m rules w = (Inr (newSecureFileWalker root a m rules), w1)"
  using assms by (simp add: walk_chart_def Let_def sym_Walk_def top_errors_are_dropped io_defs)

end
