(* ===== verification/DependencyManager.thy ===== *)
theory DependencyManager
  imports SecureLoader "HOL-Library.AList" "HOL-Library.Multiset"
begin

text \<open>
  The dependency manager (\<open>internal/helm/chart/dependency_manager.go\<close>): the dependencies that a
  chart asks for and does not have are loaded from local directories or downloaded, by a bounded
  number of goroutines, and added to the chart. A repository is of any type \<open>'d\<close>; what is called
  of it, \<open>AddDependency\<close> of Helm's chart and \<open>NewAggregate\<close> of the Kubernetes libraries are
  parameters.
\<close>

section \<open>State\<close>

record ('d, 'v, 'c) dm_ext =
  dmx_loader :: loader_ext
  dmx_cwd :: "go_error + string"
  dmx_LoadArchive :: "string \<Rightarrow> go_error + chart"
  dmx_semver :: "('v, 'c) semver"
  dmx_get :: "'d \<Rightarrow> string \<Rightarrow> string \<Rightarrow> ((go_error + chart_version) \<times> 'd) io"
  dmx_download :: "'d \<Rightarrow> chart_version \<Rightarrow> string io"
  dmx_Clear :: "'d \<Rightarrow> (go_error option \<times> 'd) io"
  NewAggregate :: "go_error option list \<Rightarrow> go_error option"
  AddDependency :: "chart \<Rightarrow> chart \<Rightarrow> chart"

text \<open>
  The map of downloaders is the list of its entries; a value may be nil. The callback returns a
  downloader and an error, either of which may be nil.
\<close>

type_synonym 'd downloader_callback = "string \<Rightarrow> ('d option \<times> go_error option) io"

record 'd dep_manager =
  downloaders :: "(string \<times> 'd option) list"
  getChartDownloaderCallback :: "'d downloader_callback option"
  dm_concurrent :: int

datatype 'd dm_option =
    WithRepositories "(string \<times> 'd option) list"
  | WithDownloaderCallback "'d downloader_callback"
  | WithConcurrent int

fun applyToDependencyManager :: "'d dm_option \<Rightarrow> 'd dep_manager \<Rightarrow> 'd dep_manager" where
  "applyToDependencyManager (WithRepositories m) dm = dm\<lparr>downloaders := m\<rparr>"
| "applyToDependencyManager (WithDownloaderCallback f) dm = dm\<lparr>getChartDownloaderCallback := Some f\<rparr>"
| "applyToDependencyManager (WithConcurrent n) dm = dm\<lparr>dm_concurrent := n\<rparr>"

definition NewDependencyManager :: "'d dm_option list \<Rightarrow> 'd dep_manager" where
  "NewDependencyManager opts =
     fold applyToDependencyManager opts
       \<lparr>downloaders = [], getChartDownloaderCallback = None, dm_concurrent = 0\<rparr>"

text \<open>\<open>Clear\<close> collects the results of all downloaders, the nil ones left out.\<close>

fun clear_all :: "('d, 'v, 'c) dm_ext \<Rightarrow> (string \<times> 'd option) list \<Rightarrow>
    (go_error option list \<times> (string \<times> 'd option) list) io" where
  "clear_all x [] = io_return ([], [])"
| "clear_all x ((k, d) # ds) =
     (case d of
        None \<Rightarrow> io_bind (clear_all x ds) (\<lambda>(errs, ds'). io_return (errs, (k, d) # ds'))
      | Some v \<Rightarrow>
          io_bind (dmx_Clear x v) (\<lambda>(e, v').
          io_bind (clear_all x ds) (\<lambda>(errs, ds'). io_return (e # errs, (k, Some v') # ds'))))"

definition dm_Clear :: "('d, 'v, 'c) dm_ext \<Rightarrow> 'd dep_manager \<Rightarrow> (go_error option \<times> 'd dep_manager) io" where
  "dm_Clear x dm =
     io_bind (clear_all x (downloaders dm)) (\<lambda>(errs, ds).
     io_return (NewAggregate x errs, dm\<lparr>downloaders := ds\<rparr>))"

section \<open>Missing dependencies\<close>

definition dep_name :: "dependency \<Rightarrow> string" where
  "dep_name dep = (if dep_Alias dep \<noteq> '''' then dep_Alias dep else dep_Name dep)"

fun collect_loop :: "chart list \<Rightarrow> (string \<times> dependency) list \<Rightarrow> dependency list \<Rightarrow> (string \<times> dependency) list" where
  "collect_loop current missing [] = missing"
| "collect_loop current missing (dep # deps) =
     (let name = dep_name dep in
      if list_ex (\<lambda>existing. md_Name (ch_Metadata existing) = name) current
      then collect_loop current missing deps
      else collect_loop current (AList.update name dep missing) deps)"

definition collectMissing :: "chart list \<Rightarrow> dependency list \<Rightarrow> (string \<times> dependency) list" where
  "collectMissing current reqs =
     (if length current = length reqs then [] else collect_loop current [] reqs)"

definition isLocalDep :: "dependency \<Rightarrow> bool" where
  "isLocalDep dep \<longleftrightarrow> dep_Repository dep = '''' \<or> has_prefix (dep_Repository dep) ''file://''"

section \<open>Adding a dependency\<close>

definition quote1 :: "string \<Rightarrow> string" where
  "quote1 s = [CHR 0x27] @ s @ [CHR 0x27]"

definition renamed :: "dependency \<Rightarrow> chart \<Rightarrow> chart" where
  "renamed dep ch =
     (if dep_Alias dep \<noteq> '''' then
        Chart ((ch_Metadata ch)\<lparr>md_Name := dep_Alias dep\<rparr>) (ch_Raw ch) (ch_Files ch) (ch_Values ch)
          (ch_dependencies ch) (ch_Lock ch)
      else ch)"

definition secureLocalChartPath :: "('d, 'v, 'c) dm_ext \<Rightarrow> local_reference \<Rightarrow> dependency \<Rightarrow> string io" where
  "secureLocalChartPath x ref dep =
     (case url_Parse (dep_Repository dep) of
        Inl e \<Rightarrow> io_fail (wrap ''failed to parse alleged local chart reference'' e)
      | Inr u \<Rightarrow>
          if Scheme u \<noteq> '''' \<and> Scheme u \<noteq> ''file''
          then io_fail (ErrorString (quote1 (dep_Repository dep) @ '' is not a local chart reference''))
          else secure_join (dmx_loader x) (WorkDir ref) (path_join [lref_Path ref, Host u, u_Path u]))"

text \<open>The chart that a local dependency leads to, if its version fits.\<close>

definition local_dependency :: "('d, 'v, 'c) dm_ext \<Rightarrow> local_reference \<Rightarrow> dependency \<Rightarrow> chart io" where
  "local_dependency x ref dep =
     io_bind (secureLocalChartPath x ref dep) (\<lambda>p.
     io_try (sys_stat p) (\<lambda>st. case st of
       Inl e \<Rightarrow>
         io_fail (if os_is_not_exist e
           then ErrorString (''no chart found at '' @ quote1 (trim_prefix p (WorkDir ref)) @ '' (reference '' @
             quote1 (dep_Repository dep) @ '')'')
           else e)
     | Inr _ \<Rightarrow>
         io_bind (io_err (wrap (''invalid version/constraint format '' @ quote1 (dep_Version dep)))
                    (io_lift (NewConstraint (dmx_semver x) (dep_Version dep)))) (\<lambda>constraint.
         io_bind (io_err (wrap (''failed to load chart from '' @ quote1 (trim_prefix p (WorkDir ref)) @
                    '' (reference '' @ quote1 (dep_Repository dep) @ '')''))
                    (secure_Load (dmx_loader x) (dmx_cwd x) (WorkDir ref) p)) (\<lambda>ch.
         io_bind (io_lift (NewVersion (dmx_semver x) (md_Version (ch_Metadata ch)))) (\<lambda>ver.
         if \<not> sv_Check (dmx_semver x) constraint ver
         then io_fail (ErrorString (''can't get a valid version for constraint '' @ quote1 (dep_Version dep)))
         else io_return (renamed dep ch))))))"

definition addLocalDependency ::
    "('d, 'v, 'c) dm_ext \<Rightarrow> local_reference \<Rightarrow> chart \<Rightarrow> dependency \<Rightarrow> (go_error option \<times> chart) io" where
  "addLocalDependency x ref c dep =
     io_try (local_dependency x ref dep) (\<lambda>r. case r of
       Inl e \<Rightarrow> io_return (Some e, c)
     | Inr ch \<Rightarrow> io_return (None, AddDependency x c ch))"

text \<open>
  The result is an error or the key of the map whose value is the repository; the value may be nil.
\<close>

definition resolveRepository ::
    "string \<Rightarrow> 'd dep_manager \<Rightarrow> ((go_error + string) \<times> 'd dep_manager) io" where
  "resolveRepository url dm =
     (case NormalizeURL url of
        Inl e \<Rightarrow> io_return (Inl e, dm)
      | Inr nUrl \<Rightarrow>
          (case ValidateDepURL nUrl of
             Some e \<Rightarrow> io_return (Inl e, dm)
           | None \<Rightarrow>
               if map_of (downloaders dm) nUrl \<noteq> None then io_return (Inr nUrl, dm)
               else
                 (case getChartDownloaderCallback dm of
                    None \<Rightarrow> io_return (Inl (ErrorString (''no chart repository for URL '' @ quote1 nUrl)), dm)
                  | Some callback \<Rightarrow>
                      io_bind (callback nUrl) (\<lambda>(d, err).
                      let dm' = dm\<lparr>downloaders := AList.update nUrl d (downloaders dm)\<rparr> in
                      case err of
                        Some e \<Rightarrow>
                          io_return (Inl (wrap (''failed to get chart repository for URL '' @ quote1 nUrl) e), dm')
                      | None \<Rightarrow> io_return (Inr nUrl, dm')))))"

definition nil_dereference :: go_error where
  "nil_dereference = Panic ''invalid memory address or nil pointer dereference''"

definition downloaded_chart :: "('d, 'v, 'c) dm_ext \<Rightarrow> 'd \<Rightarrow> dependency \<Rightarrow> chart_version \<Rightarrow> chart io" where
  "downloaded_chart x d dep ver =
     io_bind (io_err (wrap (''chart download of version '' @ quote1 (md_Version (cv_Metadata ver)) @ '' failed''))
                (dmx_download x d ver)) (\<lambda>res.
     io_bind (io_err (wrap (''failed to load downloaded archive of version '' @ quote1 (md_Version (cv_Metadata ver))))
                (io_lift (dmx_LoadArchive x res))) (\<lambda>ch.
     io_return (renamed dep ch)))"

text \<open>
  Errors are values here, so that \<open>Inl\<close> is a panic: a method of a nil downloader is called. A
  downloader changes when it is used.
\<close>

definition addRemoteDependency ::
    "('d, 'v, 'c) dm_ext \<Rightarrow> 'd dep_manager \<Rightarrow> chart \<Rightarrow> dependency \<Rightarrow>
     (go_error option \<times> 'd dep_manager \<times> chart) io" where
  "addRemoteDependency x dm0 c dep =
     io_bind (resolveRepository (dep_Repository dep) dm0) (\<lambda>(repo, dm). case repo of
       Inl e \<Rightarrow> io_return (Some e, dm, c)
     | Inr key \<Rightarrow>
         (case the (map_of (downloaders dm) key) of
            None \<Rightarrow> io_fail nil_dereference
          | Some d \<Rightarrow>
              io_bind (dmx_get x d (dep_Name dep) (dep_Version dep)) (\<lambda>(r, d').
              let dm' = dm\<lparr>downloaders := AList.update key (Some d') (downloaders dm)\<rparr> in
              case r of
                Inl e \<Rightarrow>
                  io_return (Some (wrap (''failed to get chart '' @ quote1 (dep_Name dep) @ '' version '' @
                    quote1 (dep_Version dep) @ '' from '' @ quote1 (dep_Repository dep)) e), dm', c)
              | Inr ver \<Rightarrow>
                  io_try (downloaded_chart x d' dep ver) (\<lambda>out. case out of
                    Inl e \<Rightarrow> io_return (Some e, dm', c)
                  | Inr ch \<Rightarrow> io_return (None, dm', AddDependency x c ch)))))"

section \<open>Building\<close>

definition dep_job ::
    "('d, 'v, 'c) dm_ext \<Rightarrow> reference \<Rightarrow> string \<Rightarrow> dependency \<Rightarrow> 'd dep_manager \<Rightarrow> chart \<Rightarrow>
     (go_error option \<times> 'd dep_manager \<times> chart) io" where
  "dep_job x ref name dep dm c =
     (if isLocalDep dep then
        (case ref of
           RemoteRef r \<Rightarrow>
             io_return (Some (ErrorString (''failed to add local dependency '' @ quote1 name @ '': no local chart reference'')), dm, c)
         | LocalRef localRef \<Rightarrow>
             io_bind (addLocalDependency x localRef c dep) (\<lambda>(err, c').
             io_return (map_option (wrap (''failed to add local dependency '' @ quote1 name)) err, dm, c')))
      else
        io_bind (addRemoteDependency x dm c dep) (\<lambda>(err, dm', c').
        io_return (map_option (wrap (''failed to add remote dependency '' @ quote1 name)) err, dm', c')))"

text \<open>
  One run of \<open>build\<close>: the entries that the launching goroutine has not visited, the jobs that hold
  a place of the semaphore, the chart under its lock, the first error, and the panic that has
  ended the process. A job takes effect in one step, so the effects of jobs on the chart, the
  downloaders and the world come in the order in which they end. Once there is an error the
  context of the group is cancelled and no further job is started, unless a place was free
  already. After a panic there is no step.
\<close>

record 'd dm_run =
  waiting :: "(string \<times> dependency) multiset"
  jobs :: "(string \<times> dependency) multiset"
  r_chart :: chart
  r_dm :: "'d dep_manager"
  r_world :: world
  first_err :: "go_error option"
  crashed :: "go_error option"

definition places :: "'d dep_manager \<Rightarrow> nat" where
  "places dm = (if dm_concurrent dm \<le> 0 then 1 else nat (dm_concurrent dm))"

inductive dm_step :: "('d, 'v, 'c) dm_ext \<Rightarrow> reference \<Rightarrow> nat \<Rightarrow> 'd dm_run \<Rightarrow> 'd dm_run \<Rightarrow> bool" for x ref n where
  acquire: "crashed s = None \<Longrightarrow> waiting s = add_mset j W \<Longrightarrow> size (jobs s) < n \<Longrightarrow>
     dm_step x ref n s (s\<lparr>waiting := W, jobs := add_mset j (jobs s)\<rparr>)"
| cancel: "crashed s = None \<Longrightarrow> waiting s \<noteq> {#} \<Longrightarrow> first_err s \<noteq> None \<Longrightarrow>
     dm_step x ref n s (s\<lparr>waiting := {#}\<rparr>)"
| finish: "crashed s = None \<Longrightarrow> jobs s = add_mset (name, dep) J \<Longrightarrow>
     dep_job x ref name dep (r_dm s) (r_chart s) (r_world s) = (Inr (err, dm', c'), w') \<Longrightarrow>
     dm_step x ref n s
       (s\<lparr>jobs := J, r_dm := dm', r_chart := c', r_world := w',
          first_err := (case first_err s of None \<Rightarrow> err | Some e \<Rightarrow> Some e)\<rparr>)"
| panic: "crashed s = None \<Longrightarrow> jobs s = add_mset (name, dep) J \<Longrightarrow>
     dep_job x ref name dep (r_dm s) (r_chart s) (r_world s) = (Inl e, w') \<Longrightarrow>
     dm_step x ref n s (s\<lparr>jobs := J, r_world := w', crashed := Some e\<rparr>)"

inductive dm_runs :: "('d, 'v, 'c) dm_ext \<Rightarrow> reference \<Rightarrow> nat \<Rightarrow> 'd dm_run \<Rightarrow> 'd dm_run \<Rightarrow> bool" for x ref n s where
  here: "dm_runs x ref n s s"
| more: "dm_runs x ref n s s' \<Longrightarrow> dm_step x ref n s' s'' \<Longrightarrow> dm_runs x ref n s s''"

definition init_dm_run :: "(string \<times> dependency) list \<Rightarrow> 'd dep_manager \<Rightarrow> chart \<Rightarrow> world \<Rightarrow> 'd dm_run" where
  "init_dm_run missing dm c w =
     \<lparr>waiting = mset missing, jobs = {#}, r_chart = c, r_dm = dm, r_world = w, first_err = None, crashed = None\<rparr>"

definition required :: "chart \<Rightarrow> dependency list" where
  "required c = (case ch_Lock c of None \<Rightarrow> md_Dependencies (ch_Metadata c) | Some lock \<Rightarrow> lock)"

text \<open>
  The number of dependencies that were added, or the error; the chart may have changed in either
  case. A run that a panic has ended has no result.
\<close>

inductive dm_Build ::
    "('d, 'v, 'c) dm_ext \<Rightarrow> 'd dep_manager \<Rightarrow> reference \<Rightarrow> chart \<Rightarrow> world \<Rightarrow>
     (go_error + nat) \<Rightarrow> 'd dep_manager \<Rightarrow> chart \<Rightarrow> world \<Rightarrow> bool" for x dm ref c w where
  nothing: "collectMissing (ch_dependencies c) (required c) = [] \<Longrightarrow> dm_Build x dm ref c w (Inr 0) dm c w"
| built: "missing = collectMissing (ch_dependencies c) (required c) \<Longrightarrow> missing \<noteq> [] \<Longrightarrow>
     dm_runs x ref (places dm) (init_dm_run missing dm c w) s \<Longrightarrow> waiting s = {#} \<Longrightarrow> jobs s = {#} \<Longrightarrow>
     crashed s = None \<Longrightarrow>
     dm_Build x dm ref c w (case first_err s of None \<Rightarrow> Inr (length missing) | Some e \<Rightarrow> Inl e)
       (r_dm s) (r_chart s) (r_world s)"

section \<open>Which dependencies are missing\<close>

definition chart_names :: "chart list \<Rightarrow> string set" where
  "chart_names cs = (\<lambda>c. md_Name (ch_Metadata c)) ` set cs"

lemma collect_loop_lookup:
  "map_of (collect_loop current missing reqs) n =
     (if n \<in> chart_names current then map_of missing n
      else case find (\<lambda>d. dep_name d = n) (rev reqs) of None \<Rightarrow> map_of missing n | Some d \<Rightarrow> Some d)"
proof (induction reqs arbitrary: missing)
  case (Cons dep deps)
  have "find P (xs @ [y]) = (case find P xs of None \<Rightarrow> if P y then Some y else None | Some z \<Rightarrow> Some z)"
    for P and xs :: "dependency list" and y by (induction xs) auto
  moreover have "list_ex (\<lambda>e. md_Name (ch_Metadata e) = m) current \<longleftrightarrow> m \<in> chart_names current" for m
    by (auto simp: chart_names_def list_ex_iff)
  ultimately show ?case
    using Cons.IH by (auto simp: Let_def update_conv' split: option.splits)
qed simp

lemma collect_loop_distinct: "distinct (map fst missing) \<Longrightarrow> distinct (map fst (collect_loop current missing reqs))"
  by (induction reqs arbitrary: missing) (auto simp: Let_def distinct_update)


definition named_chart :: "string \<Rightarrow> chart" where
  "named_chart n = Chart (empty_metadata\<lparr>md_Name := n\<rparr>) [] [] [] [] None"

definition remote_dep :: "string \<Rightarrow> dependency" where
  "remote_dep n = \<lparr>dep_Name = n, dep_Version = ''1'', dep_Repository = ''https://h/r'', dep_Alias = ''''\<rparr>"


text \<open>A chart that has one dependency and asks for another is taken to be complete.\<close>

lemma equal_counts_hide_missing:
  "collectMissing [named_chart ''b''] [remote_dep ''a''] = [] \<and> ''a'' \<notin> chart_names [named_chart ''b'']"
  by (simp add: collectMissing_def chart_names_def named_chart_def)

section \<open>What a run adds\<close>

text \<open>
  The downloader of a normalized URL: the one a manager was given for it, or, when it was given
  none, one that its callback returned for this very URL; and what becomes of it when it is used.
\<close>

inductive downloader_for :: "('d, 'v, 'c) dm_ext \<Rightarrow> 'd dep_manager \<Rightarrow> string \<Rightarrow> 'd \<Rightarrow> bool" for x dm u where
  given: "map_of (downloaders dm) u = Some (Some d) \<Longrightarrow> downloader_for x dm u d"
| asked: "map_of (downloaders dm) u = None \<Longrightarrow> getChartDownloaderCallback dm = Some f \<Longrightarrow>
     f u w = (Inr (Some d, e), w') \<Longrightarrow> downloader_for x dm u d"
| used: "downloader_for x dm u d \<Longrightarrow> dmx_get x d n v w = (Inr (res, d'), w') \<Longrightarrow> downloader_for x dm u d'"

text \<open>
  A chart that is added for a dependency was loaded from the directory that the dependency's
  repository names, relative to the chart and joined securely below the work directory, in a
  version that fits the constraint; or it was downloaded by the downloader of the dependency's
  normalized URL, in the version that this one chose for its name and version. It bears the
  alias, if there is one.
\<close>

definition local_source :: "('d, 'v, 'c) dm_ext \<Rightarrow> reference \<Rightarrow> dependency \<Rightarrow> chart \<Rightarrow> bool" where
  "local_source x ref dep ch0 \<longleftrightarrow>
     (\<exists>l u p w0 w1 w w' con ver. ref = LocalRef l \<and>
        url_Parse (dep_Repository dep) = Inr u \<and> (Scheme u = '''' \<or> Scheme u = ''file'') \<and>
        secure_join (dmx_loader x) (WorkDir l) (path_join [lref_Path l, Host u, u_Path u]) w0 = (Inr p, w1) \<and>
        secure_Load (dmx_loader x) (dmx_cwd x) (WorkDir l) p w = (Inr ch0, w') \<and>
        NewConstraint (dmx_semver x) (dep_Version dep) = Inr con \<and>
        NewVersion (dmx_semver x) (md_Version (ch_Metadata ch0)) = Inr ver \<and> sv_Check (dmx_semver x) con ver)"

definition remote_source :: "('d, 'v, 'c) dm_ext \<Rightarrow> 'd dep_manager \<Rightarrow> dependency \<Rightarrow> chart \<Rightarrow> bool" where
  "remote_source x dm dep ch0 \<longleftrightarrow>
     (\<exists>u d w d' ver w1 b w2. NormalizeURL (dep_Repository dep) = Inr u \<and> ValidateDepURL u = None \<and>
        downloader_for x dm u d \<and> dmx_get x d (dep_Name dep) (dep_Version dep) w = (Inr (Inr ver, d'), w1) \<and>
        dmx_download x d' ver w1 = (Inr b, w2) \<and> dmx_LoadArchive x b = Inr ch0)"

definition added_for :: "('d, 'v, 'c) dm_ext \<Rightarrow> 'd dep_manager \<Rightarrow> reference \<Rightarrow> dependency \<Rightarrow> chart \<Rightarrow> bool" where
  "added_for x dm ref dep ch \<longleftrightarrow>
     (\<exists>ch0. ch = renamed dep ch0 \<and> (if isLocalDep dep then local_source x ref dep ch0 else remote_source x dm dep ch0))"

text \<open>
  What can make a job panic, and so end the process: the method of a nil downloader is called,
  which the manager was given or its callback returned; or the callback or a downloader panics.
\<close>

definition nil_for :: "'d dep_manager \<Rightarrow> string \<Rightarrow> bool" where
  "nil_for dm u \<longleftrightarrow>
     map_of (downloaders dm) u = Some None \<or>
     map_of (downloaders dm) u = None \<and>
       (\<exists>f w e w'. getChartDownloaderCallback dm = Some f \<and> f u w = (Inr (None, e), w'))"

definition panics_with :: "('d, 'v, 'c) dm_ext \<Rightarrow> 'd dep_manager \<Rightarrow> dependency \<Rightarrow> go_error \<Rightarrow> bool" where
  "panics_with x dm dep e \<longleftrightarrow> \<not> isLocalDep dep \<and>
     (\<exists>u. NormalizeURL (dep_Repository dep) = Inr u \<and> ValidateDepURL u = None \<and>
        (nil_for dm u \<and> e = nil_dereference \<or>
         map_of (downloaders dm) u = None \<and>
           (\<exists>f w w'. getChartDownloaderCallback dm = Some f \<and> f u w = (Inl e, w')) \<or>
         (\<exists>d w w'. downloader_for x dm u d \<and> dmx_get x d (dep_Name dep) (dep_Version dep) w = (Inl e, w'))))"

text \<open>What has become of a manager: every entry of its map is accounted for, and it lost none.\<close>

definition comes_from :: "('d, 'v, 'c) dm_ext \<Rightarrow> 'd dep_manager \<Rightarrow> 'd dep_manager \<Rightarrow> bool" where
  "comes_from x dm0 dm \<longleftrightarrow>
     getChartDownloaderCallback dm = getChartDownloaderCallback dm0 \<and>
     (\<forall>u. case map_of (downloaders dm) u of
        None \<Rightarrow> map_of (downloaders dm0) u = None
      | Some None \<Rightarrow> nil_for dm0 u
      | Some (Some d) \<Rightarrow> downloader_for x dm0 u d)"

lemma comes_from_refl: "comes_from x dm dm"
  by (auto simp: comes_from_def nil_for_def intro: given split: option.split)

lemma comes_from_update:
  assumes "comes_from x dm0 dm" and "case d of None \<Rightarrow> nil_for dm0 u | Some d \<Rightarrow> downloader_for x dm0 u d"
  shows "comes_from x dm0 (dm\<lparr>downloaders := AList.update u d (downloaders dm)\<rparr>)"
  using assms by (auto simp: comes_from_def update_conv' split: option.splits)

lemma comes_from_asked:
  assumes "comes_from x dm0 dm" and "map_of (downloaders dm) u = None"
    and "getChartDownloaderCallback dm = Some f" and "f u w = (Inr (d, e), w')"
  shows "comes_from x dm0 (dm\<lparr>downloaders := AList.update u d (downloaders dm)\<rparr>)"
proof (rule comes_from_update[OF assms(1)])
  have "map_of (downloaders dm0) u = None" "getChartDownloaderCallback dm0 = Some f"
    using assms(1-3) unfolding comes_from_def by (auto dest: spec[of _ u])
  with assms(4) show "case d of None \<Rightarrow> nil_for dm0 u | Some d \<Rightarrow> downloader_for x dm0 u d"
    by (cases d) (auto simp: nil_for_def intro: asked)
qed

lemma local_dependency_source:
  assumes "local_dependency x l dep w = (Inr ch, w')"
  shows "\<exists>ch0. ch = renamed dep ch0 \<and> local_source x (LocalRef l) dep ch0"
proof -
  from assms obtain p w1 where p: "secureLocalChartPath x l dep w = (Inr p, w1)"
    unfolding local_dependency_def by (rule io_bind_InrE)
  from p obtain u where u: "url_Parse (dep_Repository dep) = Inr u" "Scheme u = '''' \<or> Scheme u = ''file''"
    "secure_join (dmx_loader x) (WorkDir l) (path_join [lref_Path l, Host u, u_Path u]) w = (Inr p, w1)"
    by (auto simp: secureLocalChartPath_def io_fail_def split: sum.splits if_splits)
  from assms p obtain con w3 ch0 w4 ver where "NewConstraint (dmx_semver x) (dep_Version dep) = Inr con"
    and "secure_Load (dmx_loader x) (dmx_cwd x) (WorkDir l) p w3 = (Inr ch0, w4)"
    and "NewVersion (dmx_semver x) (md_Version (ch_Metadata ch0)) = Inr ver"
    and "sv_Check (dmx_semver x) con ver" and "ch = renamed dep ch0"
    by (auto simp: local_dependency_def io_fail_def io_lift_def io_return_def
        elim!: io_bind_InrE io_try_cases io_err_cases split: if_splits)
  with u show ?thesis unfolding local_source_def by blast
qed

lemma downloaded_chart_source:
  assumes "downloaded_chart x d dep ver w = (Inr ch, w')"
  shows "\<exists>ch0 b w2. ch = renamed dep ch0 \<and> dmx_download x d ver w = (Inr b, w2) \<and> dmx_LoadArchive x b = Inr ch0"
  using assms unfolding downloaded_chart_def
  by (elim io_bind_InrE io_err_cases) (auto simp: io_defs elim!: io_err_cases)

text \<open>What comes of looking for the repository: an error, or the key of an entry that the map has.\<close>

lemma resolveRepository_cases:
  assumes "comes_from x dm0 dm" and "resolveRepository url dm w = (out, w')"
  obtains (panics) u f e where "out = Inl e" and "NormalizeURL url = Inr u" and "ValidateDepURL u = None"
      and "map_of (downloaders dm0) u = None" and "getChartDownloaderCallback dm0 = Some f" and "f u w = (Inl e, w')"
    | (fails) e dm' where "out = Inr (Inl e, dm')" and "comes_from x dm0 dm'"
    | (key) u d dm' where "out = Inr (Inr u, dm')" and "NormalizeURL url = Inr u" and "ValidateDepURL u = None"
      and "comes_from x dm0 dm'" and "map_of (downloaders dm') u = Some d"
proof -
  consider (invalid) e where "resolveRepository url dm w = (Inr (Inl e, dm), w)"
    | (known) u d where "NormalizeURL url = Inr u" "ValidateDepURL u = None" "map_of (downloaders dm) u = Some d"
      "resolveRepository url dm w = (Inr (Inr u, dm), w)"
    | (ask) u f where "NormalizeURL url = Inr u" "ValidateDepURL u = None" "map_of (downloaders dm) u = None"
      "getChartDownloaderCallback dm = Some f"
  proof (cases "NormalizeURL url")
    case (Inl e)
    then show ?thesis by (intro invalid) (simp add: resolveRepository_def io_return_def)
  next
    case (Inr u)
    then show ?thesis
      by (cases "ValidateDepURL u"; cases "map_of (downloaders dm) u"; cases "getChartDownloaderCallback dm")
        (auto simp: resolveRepository_def io_return_def intro: invalid known ask)
  qed
  then show ?thesis
  proof cases
    case (invalid e)
    with assms fails show ?thesis by auto
  next
    case (known u d)
    with assms key show ?thesis by auto
  next
    case (ask u f)
    have dm0: "map_of (downloaders dm0) u = None" "getChartDownloaderCallback dm0 = Some f"
      using assms(1) ask(3,4) unfolding comes_from_def by (auto dest: spec[of _ u])
    obtain q w1 where q: "f u w = (q, w1)" by fastforce
    show ?thesis
    proof (cases q)
      case (Inl e)
      with assms(2) ask q have "out = Inl e" "f u w = (Inl e, w')" by (simp_all add: resolveRepository_def io_bind_def)
      from panics[OF this(1) ask(1,2) dm0 this(2)] show ?thesis .
    next
      case (Inr y)
      obtain d e where y: "y = (d, e)" by (cases y)
      let ?dm = "dm\<lparr>downloaders := AList.update u d (downloaders dm)\<rparr>"
      have c: "comes_from x dm0 ?dm" using comes_from_asked[OF assms(1) ask(3,4)] q Inr y by blast
      have "map_of (downloaders ?dm) u = Some d" by (simp add: update_conv')
      with assms(2) ask q Inr y c fails key[OF _ ask(1,2) c] show ?thesis
        by (cases e) (auto simp: resolveRepository_def io_bind_def io_return_def Let_def)
    qed
  qed
qed

lemma addRemoteDependency_cases:
  assumes "comes_from x dm0 dm" and "addRemoteDependency x dm c dep w = (out, w')" and "\<not> isLocalDep dep"
  shows "case out of
      Inl e \<Rightarrow> panics_with x dm0 dep e
    | Inr (err, dm', c') \<Rightarrow> comes_from x dm0 dm' \<and>
        (err \<noteq> None \<and> c' = c \<or> err = None \<and> (\<exists>ch. c' = AddDependency x c ch \<and> added_for x dm0 ref dep ch))"
proof -
  obtain q w1 where q: "resolveRepository (dep_Repository dep) dm w = (q, w1)" by fastforce
  note add = assms(2)[unfolded addRemoteDependency_def, unfolded io_bind_def q, simplified]
  from assms(1) q show ?thesis
  proof (cases rule: resolveRepository_cases)
    case (panics u f e)
    with add assms(3) show ?thesis by (auto simp: panics_with_def)
  next
    case (fails e dm')
    with add show ?thesis by (auto simp: io_return_def)
  next
    case (key u md dm1)
    show ?thesis
    proof (cases md)
      case None
      with key(4,5) have "nil_for dm0 u" unfolding comes_from_def by (auto dest: spec[of _ u])
      with add key None assms(3) show ?thesis by (auto simp: panics_with_def io_fail_def)
    next
      case (Some d)
      with key(4,5) have d: "downloader_for x dm0 u d" unfolding comes_from_def by (auto dest: spec[of _ u])
      obtain g w2 where g: "dmx_get x d (dep_Name dep) (dep_Version dep) w1 = (g, w2)" by fastforce
      show ?thesis
      proof (cases g)
        case (Inl e)
        with add key Some g d assms(3) show ?thesis unfolding panics_with_def by auto
      next
        case (Inr y)
        obtain res d' where y: "y = (res, d')" by (cases y)
        let ?dm = "dm1\<lparr>downloaders := AList.update u (Some d') (downloaders dm1)\<rparr>"
        have c: "comes_from x dm0 ?dm"
          using comes_from_update[OF key(4), where d = "Some d'" and u = u] used[OF d] g Inr y by simp
        show ?thesis
        proof (cases res)
          case (Inl e)
          with add key Some g \<open>g = Inr y\<close> y c show ?thesis by (auto simp: io_return_def Let_def)
        next
          case (Inr ver)
          obtain z w3 where z: "downloaded_chart x d' dep ver w2 = (z, w3)" by fastforce
          have "added_for x dm0 ref dep ch" if "z = Inr ch" for ch
            using downloaded_chart_source[OF z[unfolded that]] g \<open>g = Inr y\<close> y Inr d key(2,3) assms(3)
            unfolding added_for_def remote_source_def by fastforce
          with add key Some g \<open>g = Inr y\<close> y Inr z c show ?thesis
            by (cases z) (auto simp: io_return_def io_try_def Let_def)
        qed
      qed
    qed
  qed
qed

lemma dep_job_cases:
  assumes "comes_from x dm0 dm" and "dep_job x ref name dep dm c w = (out, w')"
  shows "case out of
      Inl e \<Rightarrow> panics_with x dm0 dep e
    | Inr (err, dm', c') \<Rightarrow> comes_from x dm0 dm' \<and>
        (err \<noteq> None \<and> c' = c \<or> err = None \<and> (\<exists>ch. c' = AddDependency x c ch \<and> added_for x dm0 ref dep ch))"
proof (cases "isLocalDep dep")
  case True
  show ?thesis
  proof (cases ref)
    case (RemoteRef r)
    with assms True show ?thesis by (auto simp: dep_job_def io_return_def)
  next
    case (LocalRef l)
    obtain r w2 where l: "local_dependency x l dep w = (r, w2)" by fastforce
    have "added_for x dm0 ref dep ch" if "r = Inr ch" for ch
      using local_dependency_source[OF l[unfolded that]] True LocalRef by (simp add: added_for_def)
    with l assms True LocalRef show ?thesis
      by (cases r) (auto simp: dep_job_def addLocalDependency_def io_defs)
  qed
next
  case False
  obtain q w1 where q: "addRemoteDependency x dm c dep w = (q, w1)" by fastforce
  note out = addRemoteDependency_cases[OF assms(1) q False, of ref]
  show ?thesis
  proof (cases q)
    case (Inl e)
    with out assms(2) q False show ?thesis by (auto simp: dep_job_def io_bind_def)
  next
    case (Inr y)
    obtain err dm' c' where y: "y = (err, dm', c')" by (cases y)
    let ?err = "map_option (wrap (''failed to add remote dependency '' @ quote1 name)) err"
    have "out = Inr (?err, dm', c')"
      using assms(2) q False Inr y by (simp add: dep_job_def io_bind_def io_return_def)
    with out Inr y show ?thesis by (cases err) simp_all
  qed
qed

text \<open>
  What has been added so far, in the order in which the jobs ended; while there is no error and
  no panic, every missing dependency was added or is yet to be, and the manager comes from the
  one at the start. A panic is that of a missing dependency.
\<close>

definition run_adds ::
    "('d, 'v, 'c) dm_ext \<Rightarrow> 'd dep_manager \<Rightarrow> reference \<Rightarrow> (string \<times> dependency) list \<Rightarrow> chart list \<Rightarrow>
     'd dm_run \<Rightarrow> bool" where
  "run_adds x dm0 ref missing old s \<longleftrightarrow>
     comes_from x dm0 (r_dm s) \<and>
     (\<forall>e. crashed s = Some e \<longrightarrow> (\<exists>j \<in> set missing. panics_with x dm0 (snd j) e)) \<and>
     (\<exists>js added. ch_dependencies (r_chart s) = old @ added \<and>
        list_all2 (\<lambda>j ch. added_for x dm0 ref (snd j) ch) js added \<and>
        mset js + jobs s + waiting s \<subseteq># mset missing \<and>
        (first_err s = None \<longrightarrow> crashed s = None \<longrightarrow> mset js + jobs s + waiting s = mset missing))"

definition appends :: "('d, 'v, 'c) dm_ext \<Rightarrow> bool" where
  "appends x \<longleftrightarrow> (\<forall>c ch. ch_dependencies (AddDependency x c ch) = ch_dependencies c @ [ch])"

lemma sub_drop: "A + add_mset j J + W \<subseteq># M \<Longrightarrow> A + J + W \<subseteq># M \<and> j \<in># M"
  by (metis (no_types, lifting) add_mset_add_single insert_subset_eq_iff mset_subset_eqD mset_subset_eq_add_left
      subset_mset.dual_order.trans union_commute union_assoc union_mset_add_mset_right union_single_eq_member)

lemma run_adds_step:
  assumes "dm_step x ref n s s'" and inv: "run_adds x dm0 ref missing old s" and ap: "appends x"
  shows "run_adds x dm0 ref missing old s'"
proof -
  from inv obtain js added where d: "ch_dependencies (r_chart s) = old @ added"
    and l: "list_all2 (\<lambda>j ch. added_for x dm0 ref (snd j) ch) js added"
    and sub: "mset js + jobs s + waiting s \<subseteq># mset missing"
    and eq: "first_err s = None \<longrightarrow> crashed s = None \<longrightarrow> mset js + jobs s + waiting s = mset missing"
    and dm: "comes_from x dm0 (r_dm s)"
    unfolding run_adds_def by (elim exE conjE) (rule that)
  from assms(1) show ?thesis
  proof cases
    case (acquire j W)
    with d l sub eq dm show ?thesis unfolding run_adds_def by (intro conjI exI[of _ js] exI[of _ added]) simp_all
  next
    case cancel
    have "mset js + jobs s \<subseteq># mset missing" using sub by (meson mset_subset_eq_add_left subset_mset.dual_order.trans)
    with cancel d l dm show ?thesis unfolding run_adds_def by (intro conjI exI[of _ js] exI[of _ added]) auto
  next
    case (finish name dep J err dm' c' w')
    from dep_job_cases[OF dm finish(4)] have dm': "comes_from x dm0 dm'"
      and out: "err \<noteq> None \<and> c' = r_chart s \<or>
        err = None \<and> (\<exists>ch. c' = AddDependency x (r_chart s) ch \<and> added_for x dm0 ref dep ch)" by simp_all
    have sub': "mset js + J + waiting s \<subseteq># mset missing" using sub_drop[OF sub[unfolded finish(3)]] by simp
    from out show ?thesis
    proof (elim disjE conjE exE)
      assume "err \<noteq> None" and "c' = r_chart s"
      with finish d l dm' sub' show ?thesis unfolding run_adds_def
        by (intro conjI exI[of _ js] exI[of _ added]) (auto split: option.splits)
    next
      fix ch assume err: "err = None" and c': "c' = AddDependency x (r_chart s) ch" and ch: "added_for x dm0 ref dep ch"
      have "list_all2 (\<lambda>j ch. added_for x dm0 ref (snd j) ch) (js @ [(name, dep)]) (added @ [ch])"
        using l ch by (intro list_all2_appendI) auto
      with finish d sub eq err c' ap dm' show ?thesis unfolding run_adds_def appends_def
        by (intro conjI exI[of _ "js @ [(name, dep)]"] exI[of _ "added @ [ch]"]) (auto split: option.splits)
    qed
  next
    case (panic name dep J e w')
    from dep_job_cases[OF dm panic(4)] have "panics_with x dm0 dep e" by simp
    moreover from sub_drop[OF sub[unfolded panic(3)]] have "(name, dep) \<in> set missing"
      and "mset js + J + waiting s \<subseteq># mset missing" by simp_all
    ultimately show ?thesis using panic d l dm unfolding run_adds_def
      by (intro conjI exI[of _ js] exI[of _ added]) (auto intro: bexI[of _ "(name, dep)"])
  qed
qed

lemma run_adds_runs:
  "dm_runs x ref n s s' \<Longrightarrow> run_adds x dm0 ref missing old s \<Longrightarrow> appends x \<Longrightarrow> run_adds x dm0 ref missing old s'"
  by (induction rule: dm_runs.induct) (auto intro: run_adds_step)

lemma run_adds_init: "run_adds x dm ref missing (ch_dependencies c) (init_dm_run missing dm c w)"
  unfolding run_adds_def
  by (intro conjI exI[of _ "[]"]) (simp_all add: init_dm_run_def comes_from_refl)

text \<open>
  C7. After a successful build the chart has its old dependencies and, in some order, exactly one
  chart for every missing dependency, and the number returned is theirs; after an error it may
  have some of them, but nothing else. Each chart is from the source that the dependency names: a
  local one was loaded, in a version that fits the constraint, from the securely joined directory
  of its repository; a remote one was downloaded, in the version chosen for its name and version,
  by the downloader of its normalized URL, which the manager was given for this URL or had from
  its callback for this URL.
\<close>

theorem dependencies_are_added_once:
  assumes "dm_Build x dm ref c w r dm' c' w'" and "appends x"
  shows "\<exists>js added. ch_dependencies c' = ch_dependencies c @ added \<and>
    list_all2 (\<lambda>j ch. added_for x dm ref (snd j) ch) js added \<and>
    mset js \<subseteq># mset (collectMissing (ch_dependencies c) (required c)) \<and>
    (\<forall>k. r = Inr k \<longrightarrow> mset js = mset (collectMissing (ch_dependencies c) (required c)) \<and> k = length added)"
  using assms(1)
proof cases
  case nothing
  then show ?thesis by (intro exI[of _ "[]"]) simp
next
  case (built missing s)
  from run_adds_runs[OF built(7) run_adds_init assms(2)] built obtain js added
    where "ch_dependencies c' = ch_dependencies c @ added" and l: "list_all2 (\<lambda>j ch. added_for x dm ref (snd j) ch) js added"
      and "mset js \<subseteq># mset missing" and eq: "first_err s = None \<longrightarrow> mset js = mset missing"
    unfolding run_adds_def by auto
  moreover have "mset js = mset missing \<and> k = length added" if "r = Inr k" for k
    using that built eq list_all2_lengthD[OF l] by (auto split: option.splits dest: mset_eq_length)
  ultimately show ?thesis using built(5) by blast
qed

text \<open>
  A build comes to its end: there is no infinite run, and a run goes on until its jobs have ended
  or one of them panics.
\<close>

definition dm_ended :: "'d dm_run \<Rightarrow> bool" where
  "dm_ended s \<longleftrightarrow> crashed s = None \<and> waiting s = {#} \<and> jobs s = {#}"

lemma dm_step_decreases:
  "dm_step x ref n s s' \<Longrightarrow> 2 * size (waiting s') + size (jobs s') < 2 * size (waiting s) + size (jobs s)"
  by (induction rule: dm_step.induct) (auto simp: nonempty_has_size)

lemma dm_step_progress:
  assumes "0 < n" and "crashed s = None"
  shows "dm_ended s \<or> (\<exists>s'. dm_step x ref n s s')"
proof (cases "jobs s = {#}")
  case True
  show ?thesis
  proof (cases "waiting s = {#}")
    case False
    then obtain j W where "waiting s = add_mset j W" by (meson multiset_cases)
    from acquire[OF assms(2) this, of n x ref] True assms(1) show ?thesis by auto
  qed (use True assms(2) in \<open>simp add: dm_ended_def\<close>)
next
  case False
  then obtain name dep J where j: "jobs s = add_mset (name, dep) J" by (metis multiset_cases surj_pair)
  obtain q w' where q: "dep_job x ref name dep (r_dm s) (r_chart s) (r_world s) = (q, w')" by fastforce
  show ?thesis
  proof (cases q)
    case (Inl e)
    with panic[OF assms(2) j] q show ?thesis by blast
  next
    case (Inr y)
    obtain err dm' c' where "y = (err, dm', c')" by (cases y)
    with finish[OF assms(2) j] q Inr show ?thesis by blast
  qed
qed

lemma dm_runs_to_end:
  assumes "0 < n"
  shows "\<exists>s'. dm_runs x ref n s s' \<and> (dm_ended s' \<or> crashed s' \<noteq> None)"
proof -
  have "dm_runs x ref n s0 s \<Longrightarrow> \<exists>s'. dm_runs x ref n s0 s' \<and> (dm_ended s' \<or> crashed s' \<noteq> None)" for s0 s
  proof (induction "2 * size (waiting s) + size (jobs s)" arbitrary: s rule: less_induct)
    case less
    show ?case
    proof (cases "dm_ended s \<or> crashed s \<noteq> None")
      case False
      with dm_step_progress[OF assms, of s x ref] obtain s' where "dm_step x ref n s s'" by blast
      with less dm_step_decreases more show ?thesis by metis
    qed (use less in blast)
  qed
  then show ?thesis using here by blast
qed

lemma places_pos: "0 < places dm"
  by (simp add: places_def)

lemma crashes_have_causes:
  assumes "dm_runs x ref n (init_dm_run missing dm c w) s" and "crashed s = Some e"
  shows "\<exists>j \<in> set missing. panics_with x dm (snd j) e"
proof -
  have "comes_from x dm (r_dm s) \<and> jobs s + waiting s \<subseteq># mset missing \<and>
      (\<forall>e. crashed s = Some e \<longrightarrow> (\<exists>j \<in> set missing. panics_with x dm (snd j) e))"
    using assms(1)
  proof (induction rule: dm_runs.induct)
    case here
    show ?case by (simp add: init_dm_run_def comes_from_refl)
  next
    case (more s' s'')
    then have dm: "comes_from x dm (r_dm s')" and sub: "{#} + jobs s' + waiting s' \<subseteq># mset missing" by simp_all
    from more(2) show ?case
    proof cases
      case (finish name dep J err dm' c' w')
      with dep_job_cases[OF dm finish(4)] sub_drop[OF sub[unfolded finish(3)]] show ?thesis by simp
    next
      case (panic name dep J e w')
      with dep_job_cases[OF dm panic(4)] sub_drop[OF sub[unfolded panic(3)]] dm show ?thesis
        by (auto intro: bexI[of _ "(name, dep)"])
    next
      case cancel
      with dm sub show ?thesis by (auto intro: subset_mset.dual_order.trans)
    qed (use dm sub in auto)
  qed
  with assms(2) show ?thesis by blast
qed

lemma dm_Build_returns:
  assumes "\<And>j e. j \<in> set (collectMissing (ch_dependencies c) (required c)) \<Longrightarrow> \<not> panics_with x dm (snd j) e"
  shows "\<exists>r dm' c' w'. dm_Build x dm ref c w r dm' c' w'"
proof (cases "collectMissing (ch_dependencies c) (required c) = []")
  case True
  then show ?thesis by (intro exI) (rule nothing)
next
  case False
  let ?s0 = "init_dm_run (collectMissing (ch_dependencies c) (required c)) dm c w"
  obtain s where s: "dm_runs x ref (places dm) ?s0 s" "dm_ended s \<or> crashed s \<noteq> None"
    using dm_runs_to_end[OF places_pos] by blast
  with crashes_have_causes assms have "dm_ended s" by fastforce
  then have "waiting s = {#}" "jobs s = {#}" "crashed s = None" by (simp_all add: dm_ended_def)
  from built[OF refl False s(1) this] show ?thesis by (intro exI)
qed

text \<open>
  C35. \<open>Build\<close> returns or the process ends with a panic. No run of its jobs is infinite, and
  every run goes on until all jobs have ended, which is when \<open>Build\<close> returns, or one of them has
  panicked. A panic has a cause: a missing remote dependency for whose URL the manager was given a
  nil downloader, or its callback returned one, or for which the callback or a downloader itself
  panics. So where no missing dependency has such a cause, no run panics and \<open>Build\<close> returns.
\<close>

theorem dependency_build_returns:
  assumes "missing = collectMissing (ch_dependencies c) (required c)"
  shows "wfp (\<lambda>s' s. dm_step x ref (places dm) s s') \<and>
    (dm_runs x ref (places dm) (init_dm_run missing dm c w) s \<longrightarrow>
       (\<exists>s'. dm_step x ref (places dm) s s') \<or> dm_ended s \<or>
       (\<exists>e. crashed s = Some e \<and> (\<exists>j \<in> set missing. panics_with x dm (snd j) e))) \<and>
    ((\<forall>j \<in> set missing. \<forall>e. \<not> panics_with x dm (snd j) e) \<longrightarrow>
       (\<exists>r dm' c' w'. dm_Build x dm ref c w r dm' c' w'))"
proof (intro conjI impI)
  show "wfp (\<lambda>s' s. dm_step x ref (places dm) s s')"
    by (rule wfp_if_convertible_to_nat[where f = "\<lambda>s. 2 * size (waiting s) + size (jobs s)"]) (rule dm_step_decreases)
  show "(\<exists>s'. dm_step x ref (places dm) s s') \<or> dm_ended s \<or>
      (\<exists>e. crashed s = Some e \<and> (\<exists>j \<in> set missing. panics_with x dm (snd j) e))"
    if "dm_runs x ref (places dm) (init_dm_run missing dm c w) s"
    using dm_step_progress[OF places_pos[of dm], of s x ref] crashes_have_causes[OF that] by blast
  show "\<exists>r dm' c' w'. dm_Build x dm ref c w r dm' c' w'"
    if "\<forall>j \<in> set missing. \<forall>e. \<not> panics_with x dm (snd j) e"
    using dm_Build_returns that assms by blast
qed

section \<open>One run of the jobs\<close>

text \<open>
  The jobs one after the other, in the order of the list, up to the first error; \<open>Inl\<close> is a
  panic.
\<close>

fun jobs_in_order ::
    "('d, 'v, 'c) dm_ext \<Rightarrow> reference \<Rightarrow> (string \<times> dependency) list \<Rightarrow> 'd dep_manager \<Rightarrow> chart \<Rightarrow>
     (go_error option \<times> 'd dep_manager \<times> chart) io" where
  "jobs_in_order x ref [] dm c = io_return (None, dm, c)"
| "jobs_in_order x ref (j # js) dm c =
     io_bind (dep_job x ref (fst j) (snd j) dm c) (\<lambda>(err, dm', c').
     case err of
       None \<Rightarrow> jobs_in_order x ref js dm' c'
     | Some e \<Rightarrow> io_return (Some e, dm', c'))"

definition build_in_order ::
    "('d, 'v, 'c) dm_ext \<Rightarrow> 'd dep_manager \<Rightarrow> reference \<Rightarrow> chart \<Rightarrow> ((go_error + nat) \<times> 'd dep_manager \<times> chart) io" where
  "build_in_order x dm ref c =
     (let missing = collectMissing (ch_dependencies c) (required c) in
      io_bind (jobs_in_order x ref missing dm c) (\<lambda>(err, dm', c').
      io_return ((case err of None \<Rightarrow> Inr (length missing) | Some e \<Rightarrow> Inl e), dm', c')))"

lemma jobs_in_order_runs:
  assumes "dm_runs x ref n s0 s" and "waiting s = mset js" and "jobs s = {#}" and "first_err s = None"
    and "crashed s = None" and "0 < n"
    and "jobs_in_order x ref js (r_dm s) (r_chart s) (r_world s) = (Inr (err, dm', c'), w')"
  shows "\<exists>s'. dm_runs x ref n s0 s' \<and> dm_ended s' \<and>
    first_err s' = err \<and> r_dm s' = dm' \<and> r_chart s' = c' \<and> r_world s' = w'"
  using assms
proof (induction js arbitrary: s)
  case Nil
  then show ?case by (intro exI[of _ s]) (simp add: dm_ended_def io_return_def)
next
  case (Cons j js)
  from Cons.prems(7) obtain e dm1 c1 w1 where
    o: "dep_job x ref (fst j) (snd j) (r_dm s) (r_chart s) (r_world s) = (Inr (e, dm1, c1), w1)"
    by (auto elim!: io_bind_InrE)
  let ?t = "s\<lparr>waiting := mset js, jobs := {#j#}\<rparr>"
  let ?u = "?t\<lparr>jobs := {#}, r_dm := dm1, r_chart := c1, r_world := w1, first_err := e\<rparr>"
  have "dm_step x ref n s ?t" using Cons.prems acquire[of s j "mset js" n x ref] by simp
  moreover have "dm_step x ref n ?t ?u"
    using finish[of ?t "fst j" "snd j" "{#}" x ref e dm1 c1 w1 n] o Cons.prems(4,5) by simp
  ultimately have u: "dm_runs x ref n s0 ?u" using Cons.prems(1) more by blast
  show ?case
  proof (cases e)
    case None
    with Cons.prems(7) o have "jobs_in_order x ref js (r_dm ?u) (r_chart ?u) (r_world ?u) = (Inr (err, dm', c'), w')"
      by (simp add: io_bind_def)
    from Cons.IH[OF u _ _ _ _ Cons.prems(6) this] None Cons.prems(5) show ?thesis by simp
  next
    case (Some e')
    with Cons.prems(7) o have e: "e = err" "dm1 = dm'" "c1 = c'" "w1 = w'" by (simp_all add: io_bind_def io_return_def)
    show ?thesis
    proof (cases "js = []")
      case True
      with e Cons.prems(5) u show ?thesis by (intro exI[of _ ?u]) (simp add: dm_ended_def)
    next
      case False
      then have "dm_step x ref n ?u (?u\<lparr>waiting := {#}\<rparr>)" using Some Cons.prems(5) by (intro cancel) simp_all
      with u e Cons.prems(5) show ?thesis
        by (intro exI[of _ "?u\<lparr>waiting := {#}\<rparr>"]) (auto intro: more simp: dm_ended_def)
    qed
  qed
qed

text \<open>\<open>build_in_order\<close> refines \<open>Build\<close>: its result is one that \<open>Build\<close> may have.\<close>

lemma build_in_order_refines:
  assumes "build_in_order x dm ref c w = (Inr (r, dm', c'), w')"
  shows "dm_Build x dm ref c w r dm' c' w'"
proof (cases "collectMissing (ch_dependencies c) (required c) = []")
  case True
  with assms have "r = Inr 0" "dm' = dm" "c' = c" "w' = w" by (simp_all add: build_in_order_def io_defs)
  then show ?thesis using dm_Build.nothing[OF True, of x dm ref w] by simp
next
  case False
  let ?m = "collectMissing (ch_dependencies c) (required c)"
  obtain err where j: "jobs_in_order x ref ?m dm c w = (Inr (err, dm', c'), w')"
    and r: "r = (case err of None \<Rightarrow> Inr (length ?m) | Some e \<Rightarrow> Inl e)"
    using assms by (auto simp: build_in_order_def Let_def io_return_def elim!: io_bind_InrE)
  from jobs_in_order_runs[OF here[of x ref "places dm" "init_dm_run ?m dm c w"] _ _ _ _ places_pos, of ?m err dm' c' w'] j
  obtain s where s: "dm_runs x ref (places dm) (init_dm_run ?m dm c w) s" "dm_ended s"
    and e: "first_err s = err" "r_dm s = dm'" "r_chart s = c'" "r_world s = w'"
    by (auto simp: init_dm_run_def)
  from s(2) have "waiting s = {#}" "jobs s = {#}" "crashed s = None" by (simp_all add: dm_ended_def)
  from built[OF refl False s(1) this] show ?thesis unfolding e r .
qed

section \<open>A nil downloader\<close>

text \<open>
  When the callback fails, a nil downloader is stored all the same: the next dependency from the
  same repository does not ask the callback again but calls a method of the nil downloader, which
  panics.
\<close>

theorem failed_callback_leaves_nil:
  assumes "NormalizeURL (dep_Repository dep) = Inr u" and "ValidateDepURL u = None"
    and "map_of (downloaders dm) u = None" and "getChartDownloaderCallback dm = Some f"
    and "f u w = (Inr (None, Some e), w1)"
    and "NormalizeURL (dep_Repository dep') = Inr u"
  shows "\<exists>dm'. addRemoteDependency x dm c dep w =
      (Inr (Some (wrap (''failed to get chart repository for URL '' @ quote1 u) e), dm', c), w1) \<and>
    addRemoteDependency x dm' c dep' w' = (Inl nil_dereference, w')"
  using assms by (simp add: addRemoteDependency_def resolveRepository_def io_defs Let_def update_conv)

text \<open>
  So a failing callback can end the process: when two missing dependencies are from one repository
  and two jobs may run at once, there is a run of \<open>Build\<close> that does not return the callback's
  error but panics.
\<close>

theorem failed_callback_can_crash_build:
  assumes "mset missing = add_mset (n, dep) (add_mset (n', dep') M)" and "2 \<le> dm_concurrent dm"
    and "\<not> isLocalDep dep" and "\<not> isLocalDep dep'"
    and "NormalizeURL (dep_Repository dep) = Inr u" and "ValidateDepURL u = None"
    and "NormalizeURL (dep_Repository dep') = Inr u"
    and "map_of (downloaders dm) u = None" and "getChartDownloaderCallback dm = Some f"
    and "f u w = (Inr (None, Some e), w1)"
  shows "\<exists>s. dm_runs x ref (places dm) (init_dm_run missing dm c w) s \<and> crashed s = Some nil_dereference"
proof -
  let ?s0 = "init_dm_run missing dm c w"
  let ?s1 = "?s0\<lparr>waiting := add_mset (n', dep') M, jobs := {#(n, dep)#}\<rparr>"
  let ?s2 = "?s1\<lparr>waiting := M, jobs := {#(n, dep), (n', dep')#}\<rparr>"
  have p: "2 \<le> places dm" using assms(2) by (simp add: places_def)
  obtain err0 dm1 where a: "addRemoteDependency x dm c dep w = (Inr (Some err0, dm1, c), w1)"
    and b: "addRemoteDependency x dm1 c dep' w1 = (Inl nil_dereference, w1)"
    using failed_callback_leaves_nil[OF assms(5,6,8-10,7), of x c w1] by blast
  define err where "err = map_option (wrap (''failed to add remote dependency '' @ quote1 n)) (Some err0)"
  have first: "dep_job x ref n dep dm c w = (Inr (err, dm1, c), w1)"
    using a assms(3) by (simp add: dep_job_def io_bind_def io_return_def err_def)
  have second: "dep_job x ref n' dep' dm1 c w1 = (Inl nil_dereference, w1)"
    using b assms(4) by (simp add: dep_job_def io_bind_def)
  let ?s3 = "?s2\<lparr>jobs := {#(n', dep')#}, r_dm := dm1, r_chart := c, r_world := w1, first_err := err\<rparr>"
  let ?s4 = "?s3\<lparr>jobs := {#}, crashed := Some nil_dereference\<rparr>"
  have "dm_step x ref (places dm) ?s0 ?s1"
    using acquire[of ?s0 "(n, dep)" "add_mset (n', dep') M" "places dm" x ref] assms(1) p by (simp add: init_dm_run_def)
  moreover have "dm_step x ref (places dm) ?s1 ?s2"
    using acquire[of ?s1 "(n', dep')" M "places dm" x ref] p by (simp add: init_dm_run_def add_mset_commute)
  moreover have "dm_step x ref (places dm) ?s2 ?s3"
    using finish[of ?s2 n dep "{#(n', dep')#}" x ref err dm1 c w1 "places dm"] first by (simp add: init_dm_run_def)
  moreover have "dm_step x ref (places dm) ?s3 ?s4"
    using panic[of ?s3 n' dep' "{#}" x ref nil_dereference w1 "places dm"] second by (simp add: init_dm_run_def)
  ultimately have "dm_runs x ref (places dm) ?s0 ?s4" by - (rule more[OF more[OF more[OF more[OF here]]]])
  then show ?thesis by (intro exI[of _ ?s4]) simp
qed

section \<open>Examples\<close>

definition append_chart :: "chart \<Rightarrow> chart \<Rightarrow> chart" where
  "append_chart c ch = Chart (ch_Metadata c) (ch_Raw c) (ch_Files c) (ch_Values c) (ch_dependencies c @ [ch]) (ch_Lock c)"

text \<open>Repositories that have every chart, and a callback that fails.\<close>

definition sample_dm_ext :: "(unit, nat, nat option) dm_ext" where
  "sample_dm_ext =
     \<lparr>dmx_loader = sample_loader, dmx_cwd = Inr ''/'', dmx_LoadArchive = (\<lambda>b. Inr (named_chart b)),
      dmx_semver = num_semver,
      dmx_get = (\<lambda>d n v. io_return (Inr \<lparr>cv_Metadata = empty_metadata\<lparr>md_Name := n\<rparr>, cv_URLs = [n], cv_Created = 0\<rparr>, d)),
      dmx_download = (\<lambda>d cv. io_return (md_Name (cv_Metadata cv))),
      dmx_Clear = (\<lambda>d. io_return (None, d)), NewAggregate = (\<lambda>es. None), AddDependency = append_chart\<rparr>"

definition sample_dm :: "unit dep_manager" where
  "sample_dm = NewDependencyManager [WithRepositories [(''https://h/r/'', Some ())], WithConcurrent 2]"

definition parent_chart :: chart where
  "parent_chart =
     Chart (empty_metadata\<lparr>md_Name := ''p'', md_Dependencies := [remote_dep ''a'']\<rparr>) [] [] [] [] None"

lemma sample_missing: "collectMissing (ch_dependencies parent_chart) (required parent_chart) = [(''a'', remote_dep ''a'')]"
  by code_simp

lemma sample_url: "NormalizeURL ''https://h/r'' = Inr ''https://h/r/''" "ValidateDepURL ''https://h/r/'' = None"
  by code_simp+

lemma sample_job:
  "dep_job sample_dm_ext ref ''a'' (remote_dep ''a'') sample_dm c w =
     (Inr (None, sample_dm, append_chart c (named_chart ''a'')), w)"
proof -
  have "\<not> isLocalDep (remote_dep ''a'')" by code_simp
  moreover have "AList.update u (Some ()) [(u, Some ())] = [(u, Some ())]" for u :: string by simp
  ultimately show ?thesis
    by (simp add: dep_job_def addRemoteDependency_def resolveRepository_def sample_url
        sample_dm_ext_def sample_dm_def NewDependencyManager_def downloaded_chart_def io_defs renamed_def
        remote_dep_def empty_metadata_def Let_def)
qed

lemma sample_build:
  "dm_Build sample_dm_ext sample_dm ref parent_chart w (Inr 1) sample_dm (append_chart parent_chart (named_chart ''a'')) w"
  by (rule build_in_order_refines) (simp add: build_in_order_def sample_missing sample_job io_defs)

theorem dependencies_are_added_once_witness:
  "\<exists>js added. ch_dependencies (append_chart parent_chart (named_chart ''a'')) = [] @ added \<and>
     list_all2 (\<lambda>j ch. added_for sample_dm_ext sample_dm (RemoteRef \<lparr>ref_Name = ''p'', ref_Version = ''1''\<rparr>) (snd j) ch)
       js added \<and>
     mset js = mset [(''a'', remote_dep ''a'')] \<and> 1 = length added"
proof -
  have "appends sample_dm_ext" by (simp add: appends_def sample_dm_ext_def append_chart_def)
  from dependencies_are_added_once[OF sample_build[of "RemoteRef \<lparr>ref_Name = ''p'', ref_Version = ''1''\<rparr>" small_world] this]
  show ?thesis unfolding sample_missing by (auto simp: append_chart_def parent_chart_def)
qed

lemma sample_panics_with_nothing: "\<not> panics_with sample_dm_ext sample_dm (remote_dep ''a'') e"
  by (auto simp: panics_with_def nil_for_def remote_dep_def sample_url sample_dm_def NewDependencyManager_def
      sample_dm_ext_def io_return_def)

theorem dependency_build_returns_witness:
  "collectMissing (ch_dependencies parent_chart) (required parent_chart) = [(''a'', remote_dep ''a'')] \<and>
   (\<exists>r dm' c' w'. dm_Build sample_dm_ext sample_dm (RemoteRef \<lparr>ref_Name = ''p'', ref_Version = ''1''\<rparr>) parent_chart
      small_world r dm' c' w')"
  using dependency_build_returns[OF sample_missing[symmetric], of sample_dm_ext
      "RemoteRef \<lparr>ref_Name = ''p'', ref_Version = ''1''\<rparr>" sample_dm small_world]
    sample_panics_with_nothing sample_missing by simp

theorem failed_callback_can_crash_build_witness:
  "let dm = NewDependencyManager [WithDownloaderCallback (\<lambda>u. io_return (None, Some EOF)), WithConcurrent 2] in
   \<exists>s. dm_runs sample_dm_ext ref (places dm)
       (init_dm_run [(''a'', remote_dep ''a''), (''b'', remote_dep ''b'')] dm parent_chart small_world) s \<and>
     crashed s = Some nil_dereference"
  unfolding Let_def
  by (rule failed_callback_can_crash_build[where f = "\<lambda>u. io_return (None, Some EOF)" and u = "''https://h/r/''"
        and n = "''a''" and n' = "''b''" and dep = "remote_dep ''a''" and dep' = "remote_dep ''b''" and M = "{#}"])
    (simp_all add: remote_dep_def sample_url NewDependencyManager_def io_return_def isLocalDep_def has_prefix_iff)

theorem failed_callback_leaves_nil_witness:
  "let dm = NewDependencyManager [WithDownloaderCallback (\<lambda>u. io_return (None, Some EOF))] in
   \<exists>dm'. addRemoteDependency sample_dm_ext dm parent_chart (remote_dep ''a'') small_world =
      (Inr (Some (wrap (''failed to get chart repository for URL '' @ quote1 ''https://h/r/'') EOF), dm', parent_chart), small_world) \<and>
    addRemoteDependency sample_dm_ext dm' parent_chart (remote_dep ''b'') small_world =
      (Inl nil_dereference, small_world)"
  unfolding Let_def
  by (rule failed_callback_leaves_nil[where f = "\<lambda>u. io_return (None, Some EOF)"])
    (simp_all add: remote_dep_def sample_url NewDependencyManager_def io_return_def)

end
