(* ===== verification/LocalBuilder.thy ===== *)
theory LocalBuilder
  imports DependencyManager RemoteBuilder
begin

text \<open>
  The builder of local charts (\<open>internal/helm/chart/builder_local.go\<close>): a chart directory or
  archive below a work directory is copied, or loaded, completed and packaged. The dependency
  manager is whatever \<open>Build\<close> does for one order of its goroutines; it is absent (nil) or a state
  of any type with that operation. Paths below the work directory come from \<open>SecureJoin\<close>.
\<close>

section \<open>Copying and merging\<close>

text \<open>A deferred close whose error counts when there was none before.\<close>

definition closing :: "unit io \<Rightarrow> 'a io \<Rightarrow> 'a io" where
  "closing c m =
     io_try m (\<lambda>r. io_try c (\<lambda>r'. io_lift (case r of Inl e \<Rightarrow> Inl e
       | Inr y \<Rightarrow> (case r' of Inl e \<Rightarrow> Inl e | Inr _ \<Rightarrow> Inr y))))"

definition copyFileToPath :: "string \<Rightarrow> string \<Rightarrow> unit io" where
  "copyFileToPath inn out =
     io_bind (io_err (wrap ''failed to create copy target'') (os_create out)) (\<lambda>o'.
     closing (os_close o')
       (io_bind (io_err (wrap ''failed to open file to copy from'') (os_open inn)) (\<lambda>i.
        closing (os_close i)
          (io_err (wrap ''failed to read from source during copy'')
             (io_bind (os_read i) (\<lambda>b. os_write o' b))))))"

fun merge_files :: "loader_ext \<Rightarrow> chart_ext \<Rightarrow> string \<Rightarrow> values \<Rightarrow> string list \<Rightarrow> values io" where
  "merge_files x c baseDir merged [] = io_return merged"
| "merge_files x c baseDir merged (p # ps) =
     io_bind (secure_join x baseDir p) (\<lambda>secureP.
     io_try (sys_stat secureP) (\<lambda>f.
     if (case f of Inl e \<Rightarrow> True | Inr nd \<Rightarrow> \<not> node_is_regular nd) then
       io_fail (ErrorString (''no values file found at path '' @ quote1 (trim_prefix secureP baseDir) @
         '' (reference '' @ quote1 p @ '')''))
     else
       io_bind (io_err (wrap (''could not read values from file '' @ quote1 p)) (sys_ReadFile secureP)) (\<lambda>b.
       io_bind (io_err (wrap (''unmarshaling values from '' @ quote1 p @ '' failed'')) (io_lift (UnmarshalValues c b))) (\<lambda>vs.
       merge_files x c baseDir (MergeMaps c merged vs) ps))))"

definition mergeFileValues :: "loader_ext \<Rightarrow> chart_ext \<Rightarrow> string \<Rightarrow> string list \<Rightarrow> values io" where
  "mergeFileValues x c baseDir paths = merge_files x c baseDir [] paths"

section \<open>Build\<close>

text \<open>\<open>Build\<close> of a dependency manager in the state \<open>'s\<close>; \<open>Inl\<close> is a panic of it.\<close>

type_synonym 's dependency_builder = "'s \<Rightarrow> reference \<Rightarrow> chart \<Rightarrow> ((go_error + nat) \<times> 's \<times> chart) io"

text \<open>The name and version of the build, where the chart is and whether it is a directory.\<close>

definition plan_local ::
    "loader_ext \<Rightarrow> chart_ext \<Rightarrow> ('v, 'c) semver \<Rightarrow> local_reference \<Rightarrow> build_options \<Rightarrow> (build \<times> string \<times> bool) io" where
  "plan_local x c sv localRef opts =
     io_bind (io_err (BuildError ErrChartReference) (secure_join x (WorkDir localRef) (lref_Path localRef))) (\<lambda>securePath.
     io_bind (io_err (BuildError ErrChartReference) (LoadChartMetadata c securePath)) (\<lambda>curMeta.
     case Metadata_Validate c curMeta of
       Some e \<Rightarrow> io_fail (BuildError ErrChartReference e)
     | None \<Rightarrow>
         io_bind (io_lift (build_version sv (md_Version curMeta) opts)) (\<lambda>ver.
         io_bind (pathIsDir securePath) (\<lambda>isChartDir.
         io_return (named_build (md_Name curMeta) ver, securePath, isChartDir)))))"

definition local_requires_packaging :: "build_options \<Rightarrow> bool \<Rightarrow> bool" where
  "local_requires_packaging opts isChartDir \<longleftrightarrow> isChartDir \<or> VersionMetadata opts \<noteq> '''' \<or> GetValuesFiles opts \<noteq> []"

text \<open>A step whose error ends the build with a reason; the result so far is returned with it.\<close>

definition or_fail ::
    "'a io \<Rightarrow> build \<Rightarrow> build_error_reason \<Rightarrow> 's \<Rightarrow>
     ('a \<Rightarrow> ((build option \<times> go_error option) \<times> 's) io) \<Rightarrow> ((build option \<times> go_error option) \<times> 's) io" where
  "or_fail m result reason s k =
     io_try m (\<lambda>r. case r of
       Inl e \<Rightarrow> io_return ((Some result, Some (BuildError reason e)), s)
     | Inr y \<Rightarrow> k y)"

definition with_version :: "string \<Rightarrow> chart \<Rightarrow> chart" where
  "with_version ver ch =
     Chart ((ch_Metadata ch)\<lparr>md_Version := ver\<rparr>) (ch_Raw ch) (ch_Files ch) (ch_Values ch) (ch_dependencies ch) (ch_Lock ch)"

text \<open>The end of a build: the dependencies of a directory, then the package.\<close>

definition write_local ::
    "chart_ext \<Rightarrow> platform \<Rightarrow> chart \<Rightarrow> string \<Rightarrow> build \<Rightarrow> 's \<Rightarrow> ((build option \<times> go_error option) \<times> 's) io" where
  "write_local c os ch p result s =
     or_fail (packageToPath c os ch p) result ErrChartPackage s (\<lambda>_.
     io_return ((Some (result\<lparr>bld_Path := p, Packaged := True\<rparr>), None), s))"

definition complete_local ::
    "chart_ext \<Rightarrow> platform \<Rightarrow> 's dependency_builder \<Rightarrow> 's option \<Rightarrow> reference \<Rightarrow> chart \<Rightarrow> string \<Rightarrow> bool \<Rightarrow> build \<Rightarrow>
     ((build option \<times> go_error option) \<times> 's option) io" where
  "complete_local c os deps dm ref ch p isChartDir result =
     (if isChartDir then
        (case dm of
           None \<Rightarrow>
             io_return ((Some result, Some (BuildError ErrDependencyBuild
               (ErrorString ''local chart builder requires dependency manager for unpackaged charts''))), dm)
         | Some s \<Rightarrow>
             io_bind (deps s ref ch) (\<lambda>(r, s', ch').
             case r of
               Inl e \<Rightarrow> io_return ((Some (result\<lparr>ResolvedDependencies := 0\<rparr>), Some (BuildError ErrDependencyBuild e)), Some s')
             | Inr n \<Rightarrow> write_local c os ch' p (result\<lparr>ResolvedDependencies := int n\<rparr>) (Some s')))
      else write_local c os ch p result dm)"

definition package_local ::
    "loader_ext \<Rightarrow> go_error + string \<Rightarrow> chart_ext \<Rightarrow> platform \<Rightarrow> 's dependency_builder \<Rightarrow> 's option \<Rightarrow>
     local_reference \<Rightarrow> string \<Rightarrow> build_options \<Rightarrow> bool \<Rightarrow> build \<Rightarrow>
     ((build option \<times> go_error option) \<times> 's option) io" where
  "package_local x cwd c os deps dm localRef p opts isChartDir result =
     or_fail (if GetValuesFiles opts \<noteq> []
              then io_bind (mergeFileValues x c (WorkDir localRef) (opt_ValuesFiles opts)) (\<lambda>m. io_return (Some m))
              else io_return None) result ErrValuesFilesMerge dm (\<lambda>mergedValues.
     or_fail (secure_Load x cwd (WorkDir localRef) (lref_Path localRef)) result ErrChartPackage dm (\<lambda>loadedChart.
     case OverwriteChartDefaultValues c (with_version (bld_Version result) loadedChart) mergedValues of
       (Inl e, ch) \<Rightarrow> io_return ((Some result, Some (BuildError ErrValuesFilesMerge e)), dm)
     | (Inr ok, ch) \<Rightarrow>
         complete_local c os deps dm (LocalRef localRef) ch p isChartDir
           (if ok then result\<lparr>bld_ValuesFiles := GetValuesFiles opts\<rparr> else result)))"

definition build_local ::
    "loader_ext \<Rightarrow> go_error + string \<Rightarrow> chart_ext \<Rightarrow> platform \<Rightarrow> 's dependency_builder \<Rightarrow> 's option \<Rightarrow>
     local_reference \<Rightarrow> string \<Rightarrow> build_options \<Rightarrow> build \<Rightarrow> string \<Rightarrow> bool \<Rightarrow>
     ((build option \<times> go_error option) \<times> 's option) io" where
  "build_local x cwd c os deps dm localRef p opts result securePath isChartDir =
     io_bind (cached_chart_fits c opts result) (\<lambda>fits.
     if fits then
       io_return ((Some (result\<lparr>bld_Path := CachedChart opts, bld_ValuesFiles := GetValuesFiles opts,
                          Packaged := local_requires_packaging opts isChartDir\<rparr>), None), dm)
     else if \<not> local_requires_packaging opts isChartDir then
       or_fail (copyFileToPath securePath p) result ErrChartPull dm (\<lambda>_.
       io_return ((Some (result\<lparr>bld_Path := p\<rparr>), None), dm))
     else package_local x cwd c os deps dm localRef p opts isChartDir result)"

definition local_Build ::
    "loader_ext \<Rightarrow> go_error + string \<Rightarrow> chart_ext \<Rightarrow> ('v, 'c) semver \<Rightarrow> platform \<Rightarrow> 's dependency_builder \<Rightarrow>
     's option \<Rightarrow> reference \<Rightarrow> string \<Rightarrow> build_options \<Rightarrow> ((build option \<times> go_error option) \<times> 's option) io" where
  "local_Build x cwd c sv os deps dm ref p opts =
     (case ref of
        RemoteRef r \<Rightarrow>
          io_return ((None, Some (BuildError ErrChartReference (ErrorString ''expected local chart reference''))), dm)
      | LocalRef localRef \<Rightarrow>
          (case Reference_Validate ref of
             Some e \<Rightarrow> io_return ((None, Some (BuildError ErrChartReference e)), dm)
           | None \<Rightarrow>
               io_try (plan_local x c sv localRef opts) (\<lambda>plan. case plan of
                 Inl e \<Rightarrow> io_return ((None, Some e), dm)
               | Inr (result, securePath, isChartDir) \<Rightarrow>
                   build_local x cwd c os deps dm localRef p opts result securePath isChartDir)))"

section \<open>Errors and results\<close>

definition local_reasons :: "build_error_reason list" where
  "local_reasons =
     [ErrChartReference, ErrChartMetadataPatch, ErrChartPull, ErrValuesFilesMerge, ErrChartPackage, ErrDependencyBuild]"

fun local_result :: "string \<Rightarrow> build_options \<Rightarrow> build option \<times> go_error option \<Rightarrow> bool" where
  "local_result p opts (b, Some e) = (\<exists>reason e'. e = BuildError reason e' \<and> reason \<in> set local_reasons)"
| "local_result p opts (None, None) = False"
| "local_result p opts (Some b, None) = (bld_Path b = p \<or> bld_Path b = CachedChart opts \<and> CachedChart opts \<noteq> '''')"

text \<open>A build ends with such a result, or with a panic of the dependency manager.\<close>

definition may_panic :: "'s dependency_builder \<Rightarrow> go_error \<Rightarrow> bool" where
  "may_panic deps e \<longleftrightarrow> (\<exists>s ref ch w w'. deps s ref ch w = (Inl e, w'))"

definition ends_well ::
    "(go_error \<Rightarrow> bool) \<Rightarrow> string \<Rightarrow> build_options \<Rightarrow> ((build option \<times> go_error option) \<times> 's) io \<Rightarrow> bool" where
  "ends_well P p opts m \<longleftrightarrow>
     (\<forall>w. case m w of (Inl e, w') \<Rightarrow> P e | (Inr (r, s), w') \<Rightarrow> local_result p opts r)"

named_theorems ends

lemma ends_return: "local_result p opts r \<Longrightarrow> ends_well P p opts (io_return (r, s))"
  by (simp add: ends_well_def io_return_def)

lemma ends_error [ends]: "reason \<in> set local_reasons \<Longrightarrow> ends_well P p opts (io_return ((b, Some (BuildError reason e)), s))"
  by (rule ends_return) simp

lemma ends_built [ends]: "bld_Path b = p \<Longrightarrow> ends_well P p opts (io_return ((Some b, None), s))"
  by (rule ends_return) simp

lemma ends_or_fail [ends]:
  assumes "reason \<in> set local_reasons" and "\<And>y. ends_well P p opts (k y)"
  shows "ends_well P p opts (or_fail m b reason s k)"
  unfolding ends_well_def
proof
  fix w
  obtain r w1 where m: "m w = (r, w1)" by fastforce
  show "case or_fail m b reason s k w of (Inl e, w') \<Rightarrow> P e | (Inr (r, s), w') \<Rightarrow> local_result p opts r"
  proof (cases r)
    case (Inl e)
    with m assms(1) show ?thesis by (simp add: or_fail_def io_try_def io_return_def)
  next
    case (Inr y)
    with m assms(2)[of y] show ?thesis by (simp add: or_fail_def io_try_def ends_well_def)
  qed
qed

lemma reasons [ends]:
  "ErrChartReference \<in> set local_reasons" "ErrChartMetadataPatch \<in> set local_reasons" "ErrChartPull \<in> set local_reasons"
  "ErrValuesFilesMerge \<in> set local_reasons" "ErrChartPackage \<in> set local_reasons" "ErrDependencyBuild \<in> set local_reasons"
  by (simp_all add: local_reasons_def)

lemma ends_write_local [ends]: "ends_well P p opts (write_local c os ch p b s)"
  unfolding write_local_def by (intro ends) simp

lemma ends_bind:
  assumes "\<And>w e w'. m w = (Inl e, w') \<Longrightarrow> P e" and "\<And>w y w'. m w = (Inr y, w') \<Longrightarrow> ends_well P p opts (k y)"
  shows "ends_well P p opts (io_bind m k)"
  unfolding ends_well_def
proof
  fix w
  obtain q w1 where m: "m w = (q, w1)" by fastforce
  with assms show "case io_bind m k w of (Inl e, w') \<Rightarrow> P e | (Inr (r, s), w') \<Rightarrow> local_result p opts r"
    by (cases q) (auto simp: io_bind_def ends_well_def)
qed

lemma may_panicI: "deps s ref ch w = (Inl e, w') \<Longrightarrow> may_panic deps e"
  unfolding may_panic_def by blast

lemma ends_complete_local [ends]: "ends_well (may_panic deps) p opts (complete_local c os deps dm ref ch p isChartDir b)"
  unfolding complete_local_def
  by (auto intro!: ends ends_bind split: option.split prod.split sum.split dest: may_panicI)

lemma ends_package_local [ends]:
  "ends_well (may_panic deps) p opts (package_local x cwd c os deps dm l p opts isChartDir b)"
  unfolding package_local_def by (auto intro!: ends split: prod.split sum.split)

lemma cached_chart_fits_cases:
  "\<exists>t w'. cached_chart_fits c opts b w = (Inr t, w') \<and> (t \<longrightarrow> CachedChart opts \<noteq> '''' \<and> \<not> Force opts)"
proof (cases "CachedChart opts \<noteq> '''' \<and> \<not> Force opts")
  case True
  obtain r w1 where "LoadChartMetadataFromArchive c (CachedChart opts) w = (r, w1)" by fastforce
  with True show ?thesis by (cases r) (auto simp: cached_chart_fits_def io_try_def io_return_def)
qed (auto simp: cached_chart_fits_def io_return_def)

lemma ends_build_local [ends]:
  "ends_well (may_panic deps) p opts (build_local x cwd c os deps dm l p opts b q isChartDir)"
  unfolding build_local_def
proof (rule ends_bind)
  show "may_panic deps e" if "cached_chart_fits c opts b w = (Inl e, w')" for w e w'
    using cached_chart_fits_cases[of c opts b w] that by auto
  fix w fits w'
  assume "cached_chart_fits c opts b w = (Inr fits, w')"
  then have "fits \<longrightarrow> CachedChart opts \<noteq> '''' \<and> \<not> Force opts" using cached_chart_fits_cases[of c opts b w] by auto
  then show "ends_well (may_panic deps) p opts (if fits then
       io_return ((Some (b\<lparr>bld_Path := CachedChart opts, bld_ValuesFiles := GetValuesFiles opts,
                          Packaged := local_requires_packaging opts isChartDir\<rparr>), None), dm)
     else if \<not> local_requires_packaging opts isChartDir then
       or_fail (copyFileToPath q p) b ErrChartPull dm (\<lambda>_. io_return ((Some (b\<lparr>bld_Path := p\<rparr>), None), dm))
     else package_local x cwd c os deps dm l p opts isChartDir b)"
    by (auto intro!: ends ends_return)
qed

lemma plan_local_error:
  assumes "plan_local x c sv l opts w = (Inl e, w')"
  shows "\<exists>reason e'. e = BuildError reason e' \<and> reason \<in> set local_reasons"
  using assms unfolding plan_local_def
proof (cases rule: io_bind_cases)
  case (fail e')
  then show ?thesis using reasons by (auto elim!: io_err_cases)
next
  case (ok q w1)
  from ok(2) show ?thesis
  proof (cases rule: io_bind_cases)
    case (fail e')
    then show ?thesis using reasons by (auto elim!: io_err_cases)
  next
    case (ok meta w2)
    have dir [simp]: "pathIsDir q w \<noteq> (Inl e2, w3)" for w e2 w3
      by (auto simp: pathIsDir_def io_defs split: if_splits prod.splits)
    with ok(2) reasons show ?thesis
      by (auto simp: io_fail_def io_return_def io_lift_def build_version_def bindE_Inl_iff mapErr_Inl_iff
          split: option.splits if_splits elim!: io_bind_cases)
  qed
qed

text \<open>
  Building a local chart ends with a result, unless the dependency manager panics: an error is a
  build error with one of six reasons, never the unknown one, and without an error there is a
  build, at the path asked for or at the cached chart's.
\<close>

theorem local_build_outcomes:
  "case local_Build x cwd c sv os deps dm ref p opts w of
     (Inl e, w') \<Rightarrow> may_panic deps e
   | (Inr ((b, Some e), dm'), w') \<Rightarrow> \<exists>reason e'. e = BuildError reason e' \<and>
       reason \<in> set [ErrChartReference, ErrChartMetadataPatch, ErrChartPull, ErrValuesFilesMerge, ErrChartPackage, ErrDependencyBuild]
   | (Inr ((None, None), dm'), w') \<Rightarrow> False
   | (Inr ((Some b, None), dm'), w') \<Rightarrow> bld_Path b = p \<or> bld_Path b = CachedChart opts \<and> CachedChart opts \<noteq> ''''"
proof -
  have "case local_Build x cwd c sv os deps dm ref p opts w of
      (Inl e, w') \<Rightarrow> may_panic deps e | (Inr (r, dm'), w') \<Rightarrow> local_result p opts r"
  proof (cases "\<exists>l. ref = LocalRef l \<and> Reference_Validate ref = None")
    case False
    with reasons(1) show ?thesis
      by (cases ref) (auto simp: local_Build_def io_return_def split: option.splits)
  next
    case True
    then obtain l where l: "ref = LocalRef l" "Reference_Validate ref = None" by blast
    obtain plan w1 where pl: "plan_local x c sv l opts w = (plan, w1)" by fastforce
    show ?thesis
    proof (cases plan)
      case (Inl e)
      with l pl plan_local_error[of x c sv l opts w e w1] show ?thesis
        by (auto simp: local_Build_def io_try_def io_return_def)
    next
      case (Inr t)
      obtain b q dir where "t = (b, q, dir)" by (metis surj_pair)
      with l pl Inr ends_build_local[of deps p opts x cwd c os dm l b q dir] show ?thesis
        by (simp add: local_Build_def io_try_def ends_well_def)
    qed
  qed
  then show ?thesis
    by (auto simp: local_reasons_def split: sum.splits option.splits prod.splits)
      (metis local_result.simps(2) option.exhaust)
qed

section \<open>What a successful build has done\<close>

lemma or_fail_ok:
  assumes "or_fail m b reason s k w = (Inr ((Some b', None), s'), w')"
  obtains y w1 where "m w = (Inr y, w1)" and "k y w1 = (Inr ((Some b', None), s'), w')"
  using assms by (auto simp: or_fail_def io_try_def io_return_def split: prod.splits sum.splits)

lemma write_local_ok:
  assumes "write_local c os ch p b s w = (Inr ((Some b', None), s'), w')"
  shows "packageToPath c os ch p w = (Inr (), w') \<and> b' = b\<lparr>bld_Path := p, Packaged := True\<rparr>"
  using assms unfolding write_local_def by (elim or_fail_ok) (auto simp: io_return_def)

text \<open>The dependency manager of a builder: what it returns, some run of \<open>Build\<close> returns.\<close>

definition builds_deps :: "('d, 'v, 'c) dm_ext \<Rightarrow> 'd dep_manager dependency_builder \<Rightarrow> bool" where
  "builds_deps x deps \<longleftrightarrow>
     (\<forall>s ref ch w r s' ch' w'. deps s ref ch w = (Inr (r, s', ch'), w') \<longrightarrow> dm_Build x s ref ch w r s' ch' w')"

text \<open>A chart with one chart added, from its source, for every dependency that the loaded one was missing.\<close>

definition completed :: "('d, 'v, 'c) dm_ext \<Rightarrow> 'd dep_manager \<Rightarrow> reference \<Rightarrow> chart \<Rightarrow> chart \<Rightarrow> nat \<Rightarrow> bool" where
  "completed x dm ref loaded ch n \<longleftrightarrow>
     (\<exists>js added. ch_dependencies ch = ch_dependencies loaded @ added \<and> n = length added \<and>
        list_all2 (\<lambda>j ch. added_for x dm ref (snd j) ch) js added \<and>
        mset js = mset (collectMissing (ch_dependencies loaded) (required loaded)))"

lemma dm_Build_completes:
  assumes "dm_Build x dm ref c w (Inr n) dm' c' w'" and "appends x"
  shows "completed x dm ref c c' n"
  using assms(1)
proof cases
  case nothing
  then show ?thesis unfolding completed_def by (intro exI[of _ "[]"]) simp
next
  case (built missing s)
  then have n: "first_err s = None" "n = length missing" by (auto split: option.splits)
  from run_adds_runs[OF built(7) run_adds_init assms(2)] built n(1) obtain js added
    where "ch_dependencies c' = ch_dependencies c @ added" and l: "list_all2 (\<lambda>j ch. added_for x dm ref (snd j) ch) js added"
      and eq: "mset js = mset missing"
    unfolding run_adds_def by auto
  moreover have "n = length added" using n(2) mset_eq_length[OF eq] list_all2_lengthD[OF l] by simp
  ultimately show ?thesis using built(5) unfolding completed_def by blast
qed

lemma overwritten_loaded:
  assumes "OverwriteChartDefaultValues c (with_version v loaded) vals = (Inr ok, ch)"
  shows "ch_dependencies ch = ch_dependencies loaded \<and> required ch = required loaded"
  using assms
  by (auto simp: OverwriteChartDefaultValues_def required_def with_version_def split: option.splits sum.splits if_splits)

text \<open>
  What the builder relies on: a successful \<open>Build\<close> has resolved what was missing, which depends
  only on the charts that are there and those that are asked for.
\<close>

locale dependency_building =
  fixes deps :: "'s dependency_builder"
    and resolved :: "'s \<Rightarrow> reference \<Rightarrow> chart \<Rightarrow> chart \<Rightarrow> nat \<Rightarrow> bool"
  assumes resolves: "deps s ref ch w = (Inr (Inr n, s', ch'), w') \<Longrightarrow> resolved s ref ch ch' n"
    and resolved_cong: "ch_dependencies ch1 = ch_dependencies ch2 \<Longrightarrow> required ch1 = required ch2 \<Longrightarrow>
      resolved s ref ch1 ch' n \<Longrightarrow> resolved s ref ch2 ch' n"
begin

lemma complete_local_ok:
  assumes "complete_local c os deps (Some s) ref ch p dir b w = (Inr ((Some b', None), s'), w')"
  shows "\<exists>ch' w1. packageToPath c os ch' p w1 = (Inr (), w') \<and> bld_Path b' = p \<and>
    (if dir then \<exists>n. ResolvedDependencies b' = int n \<and> resolved s ref ch ch' n else ch' = ch)"
proof (cases dir)
  case False
  with assms(1) write_local_ok show ?thesis by (fastforce simp: complete_local_def)
next
  case True
  with assms(1) obtain r s2 ch' w1 where d: "deps s ref ch w = (Inr (r, s2, ch'), w1)"
    by (auto simp: complete_local_def elim!: io_bind_InrE)
  with True assms(1) obtain n where r: "r = Inr n"
    and wr: "write_local c os ch' p (b\<lparr>ResolvedDependencies := int n\<rparr>) (Some s2) w1 = (Inr ((Some b', None), s'), w')"
    by (cases r) (auto simp: complete_local_def io_bind_def io_return_def)
  from resolves[OF d[unfolded r]] write_local_ok[OF wr] True show ?thesis by auto
qed

lemma package_local_ok:
  assumes "package_local x cwd c os deps (Some s) l p opts dir b w = (Inr ((Some b', None), s'), w')"
  shows "\<exists>loaded ch w1 w2 w3. secure_Load x cwd (WorkDir l) (lref_Path l) w1 = (Inr loaded, w2) \<and>
    packageToPath c os ch p w3 = (Inr (), w') \<and> bld_Path b' = p \<and>
    (if dir then \<exists>n. ResolvedDependencies b' = int n \<and> resolved s (LocalRef l) loaded ch n
     else ch_dependencies ch = ch_dependencies loaded)"
proof -
  from assms(1) obtain m w1 loaded w2 where l: "secure_Load x cwd (WorkDir l) (lref_Path l) w1 = (Inr loaded, w2)"
    and rest: "(case OverwriteChartDefaultValues c (with_version (bld_Version b) loaded) m of
       (Inl e, ch) \<Rightarrow> io_return ((Some b, Some (BuildError ErrValuesFilesMerge e)), Some s)
     | (Inr ok, ch) \<Rightarrow>
         complete_local c os deps (Some s) (LocalRef l) ch p dir
           (if ok then b\<lparr>bld_ValuesFiles := GetValuesFiles opts\<rparr> else b)) w2 = (Inr ((Some b', None), s'), w')"
    unfolding package_local_def by (elim or_fail_ok)
  from rest obtain ok ch0 where o: "OverwriteChartDefaultValues c (with_version (bld_Version b) loaded) m = (Inr ok, ch0)"
    and run: "complete_local c os deps (Some s) (LocalRef l) ch0 p dir
        (if ok then b\<lparr>bld_ValuesFiles := GetValuesFiles opts\<rparr> else b) w2 = (Inr ((Some b', None), s'), w')"
    by (auto simp: io_return_def split: prod.splits sum.splits)
  from overwritten_loaded[OF o] have "ch_dependencies ch0 = ch_dependencies loaded" "required ch0 = required loaded" by simp_all
  with complete_local_ok[OF run] l resolved_cong[of ch0 loaded s] show ?thesis by (fastforce split: if_splits)
qed

lemma local_Build_ok:
  assumes "local_Build x cwd c sv os deps (Some s) (LocalRef l) p opts w = (Inr ((Some b, None), s'), w')"
    and "CachedChart opts = '''' \<or> Force opts"
  shows "bld_Path b = p \<and>
    (\<exists>plan q dir w1. plan_local x c sv l opts w = (Inr (plan, q, dir), w1) \<and>
      (if local_requires_packaging opts dir
       then \<exists>loaded ch w2 w3 w4. secure_Load x cwd (WorkDir l) (lref_Path l) w2 = (Inr loaded, w3) \<and>
         packageToPath c os ch p w4 = (Inr (), w') \<and>
         (if dir then \<exists>n. ResolvedDependencies b = int n \<and> resolved s (LocalRef l) loaded ch n
          else ch_dependencies ch = ch_dependencies loaded)
       else \<exists>w2. copyFileToPath q p w2 = (Inr (), w')))"
proof -
  from assms(1) obtain plan q dir w1 where pl: "plan_local x c sv l opts w = (Inr (plan, q, dir), w1)"
    and run: "build_local x cwd c os deps (Some s) l p opts plan q dir w1 = (Inr ((Some b, None), s'), w')"
    by (auto simp: local_Build_def io_try_def io_return_def split: prod.splits sum.splits option.splits)
  have "cached_chart_fits c opts plan w1 = (Inr False, w1)" using assms(2) by (auto simp: cached_chart_fits_def io_return_def)
  with run have rest: "(if \<not> local_requires_packaging opts dir then
       or_fail (copyFileToPath q p) plan ErrChartPull (Some s) (\<lambda>_. io_return ((Some (plan\<lparr>bld_Path := p\<rparr>), None), Some s))
     else package_local x cwd c os deps (Some s) l p opts dir plan) w1 = (Inr ((Some b, None), s'), w')"
    by (simp add: build_local_def io_bind_def)
  show ?thesis
  proof (cases "local_requires_packaging opts dir")
    case True
    with rest have "package_local x cwd c os deps (Some s) l p opts dir plan w1 = (Inr ((Some b, None), s'), w')" by simp
    from package_local_ok[OF this] True pl show ?thesis by fastforce
  next
    case False
    with rest have "or_fail (copyFileToPath q p) plan ErrChartPull (Some s)
        (\<lambda>_. io_return ((Some (plan\<lparr>bld_Path := p\<rparr>), None), Some s)) w1 = (Inr ((Some b, None), s'), w')" by simp
    then obtain w2 where "copyFileToPath q p w1 = (Inr (), w2)"
      and "io_return ((Some (plan\<lparr>bld_Path := p\<rparr>), None :: go_error option), Some s) w2 = (Inr ((Some b, None), s'), w')"
      by (auto elim!: or_fail_ok)
    with False pl show ?thesis by (auto simp: io_return_def)
  qed
qed

end

lemma builds_deps_contract:
  assumes "builds_deps d deps" and "appends d"
  shows "dependency_building deps (completed d)"
proof
  show "completed d s ref ch ch' n" if "deps s ref ch w = (Inr (Inr n, s', ch'), w')" for s ref ch w n s' ch' w'
    using dm_Build_completes[OF _ assms(2)] assms(1) that unfolding builds_deps_def by blast
qed (simp add: completed_def)

lemma builds_in_order: "builds_deps x (build_in_order x)"
  unfolding builds_deps_def using build_in_order_refines by blast

interpretation in_order: dependency_building "build_in_order x" "\<lambda>s ref ch ch' n. appends x \<longrightarrow> completed x s ref ch ch' n" for x
  by unfold_locales (auto simp: completed_def dest!: build_in_order_refines dm_Build_completes)


section \<open>An example\<close>

text \<open>An archive to be copied, and a dependency manager that runs its jobs in order.\<close>

definition plain_options :: build_options where
  "plain_options =
     \<lparr>VersionMetadata = '''', opt_ValuesFiles = [], CachedChart = '''', Force = False, Verify = False\<rparr>"

definition archive_reference :: local_reference where
  "archive_reference = \<lparr>WorkDir = ''/t'', lref_Path = ''a''\<rparr>"

lemma archive_plan:
  "plan_local sample_loader sample_chart_ext num_semver archive_reference plain_options small_world =
     (Inr (named_build ''app'' ''7'', ''/t/a'', False), small_world\<lparr>clock := 6\<rparr>)"
proof -
  have j: "sample_join (nodes small_world) ''/t'' ''a'' = Inr ''/t/a''" by code_simp
  have st: "os_stat ''/t/a'' (small_world\<lparr>clock := k\<rparr>) = (Inr (File ''x''), small_world\<lparr>clock := Suc k\<rparr>)" for k
  proof -
    have f: "fault small_world k = None" and "stat_node small_world ''/t/a'' = Inr (File ''x'')"
      by (simp add: small_world_def) code_simp
    then have "stat_node (small_world\<lparr>clock := k\<rparr>) ''/t/a'' = Inr (File ''x'')" for k
      by (simp add: stat_node_def resolve_def)
    with f show ?thesis by (simp add: os_stat_def syscall_def Let_def)
  qed
  have "(small_world\<lparr>clock := 0\<rparr>) = small_world" by (simp add: small_world_def)
  with st[of 0] have st0: "os_stat ''/t/a'' small_world = (Inr (File ''x''), small_world\<lparr>clock := 1\<rparr>)" by simp
  show ?thesis
    using small_world_metadata_at[of 1]
    by (simp add: plan_local_def archive_reference_def secure_join_def sample_loader_def j LoadChartMetadata_def st0 st
        io_defs build_version_def plain_options_def pathIsDir_def sample_chart_ext_def)
qed


end
