(* ===== verification/OCIVerifier.thy ===== *)
theory OCIVerifier
  imports OCIRepository
begin

text \<open>
  The verifier of signatures (\<open>internal/oci/verifier.go\<close>). Cosign and the services it asks are
  parameters: what making options, keys and certificates gives, and the signatures that a check
  finds.
\<close>

section \<open>Making a verifier\<close>

record 'r verifier_options =
  PublicKey :: string
  ROpt :: "'r list option"

text \<open>The options of cosign; \<^term>\<open>None\<close> is nil.\<close>

record ('c, 'k) check_opts =
  RegistryClientOpts :: "'c list"
  SigVerifier :: "'k option"
  RootCerts :: "string option"
  IntermediateCerts :: "string option"
  RekorClient :: "nat option"

record ('r, 'c, 'p, 'k, 's) cosign_ext =
  ClientOpts :: "go_error + 'c list"
  ociremote_WithRemoteOptions :: "'r list \<Rightarrow> 'c"
  UnmarshalPEMToPublicKey :: "string \<Rightarrow> go_error + 'p"
  LoadVerifier :: "'p \<Rightarrow> go_error + 'k"
  GetRoots :: "go_error + string"
  GetIntermediates :: "go_error + string"
  NewRekorClient :: "go_error + nat"
  cosign_VerifyImageSignatures :: "nat \<Rightarrow> string \<Rightarrow> ('c, 'k) check_opts \<Rightarrow> go_error + 's list \<times> bool"

definition WithPublicKey :: "string \<Rightarrow> 'r verifier_options \<Rightarrow> 'r verifier_options" where
  "WithPublicKey publicKey opts = opts\<lparr>PublicKey := publicKey\<rparr>"

definition WithRemoteOptions :: "'r list option \<Rightarrow> 'r verifier_options \<Rightarrow> 'r verifier_options" where
  "WithRemoteOptions ros opts = opts\<lparr>ROpt := ros\<rparr>"

definition apply_options :: "('r verifier_options \<Rightarrow> 'r verifier_options) list \<Rightarrow> 'r verifier_options" where
  "apply_options opts = fold (\<lambda>opt. opt) opts \<lparr>PublicKey = '''', ROpt = None\<rparr>"

text \<open>With a key its verifier; without one the certificates and the log of keyless signing.\<close>

definition with_key ::
    "('r, 'c, 'p, 'k, 's) cosign_ext \<Rightarrow> string \<Rightarrow> ('c, 'k) check_opts \<Rightarrow> go_error + ('c, 'k) check_opts" where
  "with_key x key checkOpts =
     bindE (UnmarshalPEMToPublicKey x key) (\<lambda>pubKeyRaw.
     bindE (LoadVerifier x pubKeyRaw) (\<lambda>v.
     Inr (checkOpts\<lparr>SigVerifier := Some v\<rparr>)))"

definition keyless ::
    "('r, 'c, 'p, 'k, 's) cosign_ext \<Rightarrow> ('c, 'k) check_opts \<Rightarrow> go_error + ('c, 'k) check_opts" where
  "keyless x checkOpts =
     bindE (mapErr (wrap ''unable to get Fulcio root certs'') (GetRoots x)) (\<lambda>rcerts.
     bindE (mapErr (wrap ''unable to get Fulcio intermediate certs'') (GetIntermediates x)) (\<lambda>icerts.
     bindE (mapErr (wrap ''unable to create Rekor client'') (NewRekorClient x)) (\<lambda>rc.
     Inr (checkOpts\<lparr>RootCerts := Some rcerts, IntermediateCerts := Some icerts, RekorClient := Some rc\<rparr>))))"

definition NewCosignVerifier ::
    "('r, 'c, 'p, 'k, 's) cosign_ext \<Rightarrow> ('r verifier_options \<Rightarrow> 'r verifier_options) list \<Rightarrow>
     go_error + ('c, 'k) check_opts" where
  "NewCosignVerifier x opts =
     (let o' = apply_options opts in
      bindE (ClientOpts x) (\<lambda>co.
      let co' = (case ROpt o' of None \<Rightarrow> co | Some ros \<Rightarrow> co @ [ociremote_WithRemoteOptions x ros]);
          checkOpts = \<lparr>RegistryClientOpts = co', SigVerifier = None, RootCerts = None,
                       IntermediateCerts = None, RekorClient = None\<rparr> in
      if PublicKey o' \<noteq> '''' then with_key x (PublicKey o') checkOpts else keyless x checkOpts))"

section \<open>Verifying\<close>

definition VerifyImageSignatures ::
    "('r, 'c, 'p, 'k, 's) cosign_ext \<Rightarrow> ('c, 'k) check_opts \<Rightarrow> nat \<Rightarrow> string \<Rightarrow> go_error + 's list \<times> bool" where
  "VerifyImageSignatures x v t ref = cosign_VerifyImageSignatures x t ref v"

definition cosign_Verify ::
    "('r, 'c, 'p, 'k, 's) cosign_ext \<Rightarrow> ('c, 'k) check_opts \<Rightarrow> nat \<Rightarrow> string \<Rightarrow> go_error + bool" where
  "cosign_Verify x v t ref =
     bindE (VerifyImageSignatures x v t ref) (\<lambda>(signatures, bundled). Inr (signatures \<noteq> []))"

text \<open>The verifiers of a repository are numbers; \<open>vs\<close> says which verifier a number stands for.\<close>

definition cosign_verifiers ::
    "('r, 'c, 'p, 'k, 's) cosign_ext \<Rightarrow> (nat \<Rightarrow> ('c, 'k) check_opts) \<Rightarrow> 'v oci_ext \<Rightarrow> 'v oci_ext" where
  "cosign_verifiers x vs o_ext = o_ext\<lparr>vf_Verify := (\<lambda>v. cosign_Verify x (vs v))\<rparr>"

section \<open>The contract of a verifier\<close>

text \<open>
  What a repository relies on (the interface \<open>Verifier\<close>): an answer is yes only if there is a
  signature that was checked.
\<close>

locale signature_verifier =
  fixes verify :: "nat \<Rightarrow> nat \<Rightarrow> string \<Rightarrow> go_error + bool"
    and signed :: "nat \<Rightarrow> nat \<Rightarrow> string \<Rightarrow> bool"
  assumes sound: "verify v t ref = Inr True \<Longrightarrow> signed v t ref"
begin

lemma verified_charts_are_signed:
  assumes "fst (VerifyChart (o_ext\<lparr>vf_Verify := verify\<rparr>) r cv w) = Inr ()"
  shows "\<exists>ref i. ParseReference o_ext (trim_prefix (hd (cv_URLs cv)) oci_prefix) = Inr ref \<and>
    i < length (verifiers r) \<and> signed (verifiers r ! i) (clock w + i) ref"
  using assms sound unfolding verified_iff_confirmed by simp metis

end

definition signature_found ::
    "('r, 'c, 'p, 'k, 's) cosign_ext \<Rightarrow> (nat \<Rightarrow> ('c, 'k) check_opts) \<Rightarrow> nat \<Rightarrow> nat \<Rightarrow> string \<Rightarrow> bool" where
  "signature_found x vs v t ref \<longleftrightarrow>
     (case cosign_VerifyImageSignatures x t ref (vs v) of Inl e \<Rightarrow> False | Inr (sigs, b) \<Rightarrow> sigs \<noteq> [])"

lemma cosign_Verify_iff: "cosign_Verify x (vs v) t ref = Inr True \<longleftrightarrow> signature_found x vs v t ref"
  by (auto simp: cosign_Verify_def VerifyImageSignatures_def signature_found_def bindE_def split: sum.splits)

interpretation cosign: signature_verifier "\<lambda>v. cosign_Verify x (vs v)" "signature_found x vs" for x vs
  by unfold_locales (simp add: cosign_Verify_iff)

section \<open>What a verified chart has been checked against\<close>

lemma NewCosignVerifier_key:
  assumes "NewCosignVerifier x opts = Inr v"
  shows "if PublicKey (apply_options opts) = ''''
     then SigVerifier v = None \<and> GetRoots x = Inr (the (RootCerts v)) \<and>
       GetIntermediates x = Inr (the (IntermediateCerts v)) \<and> RootCerts v \<noteq> None
     else (\<exists>p k. UnmarshalPEMToPublicKey x (PublicKey (apply_options opts)) = Inr p \<and> LoadVerifier x p = Inr k \<and>
       SigVerifier v = Some k) \<and> RootCerts v = None"
  using assms
  by (auto simp: NewCosignVerifier_def with_key_def keyless_def Let_def bindE_def mapErr_Inr_iff split: sum.splits if_splits)

text \<open>
  C22. When the verifiers of a registry are made with public keys, a chart that counts as verified
  has a signature that was checked with one of these keys, never by the rules of keyless signing.
\<close>

theorem verified_with_a_public_key:
  assumes "fst (VerifyChart (cosign_verifiers x vs o_ext) r cv w) = Inr ()"
    and "\<forall>v \<in> set (verifiers r). NewCosignVerifier x (opts v) = Inr (vs v) \<and> PublicKey (apply_options (opts v)) \<noteq> ''''"
  shows "\<exists>ref v p k t sigs b. ParseReference o_ext (trim_prefix (hd (cv_URLs cv)) oci_prefix) = Inr ref \<and>
    v \<in> set (verifiers r) \<and> UnmarshalPEMToPublicKey x (PublicKey (apply_options (opts v))) = Inr p \<and>
    LoadVerifier x p = Inr k \<and> SigVerifier (vs v) = Some k \<and> RootCerts (vs v) = None \<and>
    cosign_VerifyImageSignatures x t ref (vs v) = Inr (sigs, b) \<and> sigs \<noteq> []"
proof -
  from cosign.verified_charts_are_signed[OF assms(1)[unfolded cosign_verifiers_def]] obtain ref i
    where ref: "ParseReference o_ext (trim_prefix (hd (cv_URLs cv)) oci_prefix) = Inr ref"
      and i: "i < length (verifiers r)" and s: "signature_found x vs (verifiers r ! i) (clock w + i) ref" by blast
  let ?v = "verifiers r ! i"
  from s obtain sigs b where "cosign_VerifyImageSignatures x (clock w + i) ref (vs ?v) = Inr (sigs, b)" "sigs \<noteq> []"
    by (auto simp: signature_found_def split: sum.splits)
  moreover from assms(2) i NewCosignVerifier_key[of x "opts ?v" "vs ?v"] obtain p k
    where "UnmarshalPEMToPublicKey x (PublicKey (apply_options (opts ?v))) = Inr p" "LoadVerifier x p = Inr k"
      "SigVerifier (vs ?v) = Some k" "RootCerts (vs ?v) = None" by (auto split: if_splits)
  ultimately show ?thesis using ref i by (metis nth_mem)
qed

text \<open>A registry with one verifier for one key, which has signed everything.\<close>

definition sample_cosign :: "(nat, string, string, string, string) cosign_ext" where
  "sample_cosign =
     \<lparr>ClientOpts = Inr [''c''], ociremote_WithRemoteOptions = (\<lambda>rs. ''r''), UnmarshalPEMToPublicKey = Inr,
      LoadVerifier = Inr, GetRoots = Inl EOF, GetIntermediates = Inl EOF, NewRekorClient = Inl EOF,
      cosign_VerifyImageSignatures = (\<lambda>t ref v. if SigVerifier v = Some ''k'' then Inr ([ref], False) else Inl EOF)\<rparr>"

definition key_verifier :: "(string, string) check_opts" where
  "key_verifier =
     \<lparr>RegistryClientOpts = [''c''], SigVerifier = Some ''k'', RootCerts = None, IntermediateCerts = None, RekorClient = None\<rparr>"

theorem verified_with_a_public_key_witness:
  "let o_ext = cosign_verifiers sample_cosign (\<lambda>_. key_verifier) sample_oci;
       r = \<lparr>oci_URL = empty_url, oci_Client = 0, oci_Options = [], oci_tlsConfig = None, oci_RegistryClient = 0,
            credentialsFile = '''', verifiers = [0]\<rparr>;
       cv = \<lparr>cv_Metadata = \<lparr>md_Name = ''app'', md_Version = ''1'', md_APIVersion = '''', md_Dependencies = []\<rparr>,
     cv_URLs = [''oci://r/app:1''], cv_Created = 0\<rparr>
   in fst (VerifyChart o_ext r cv small_world) = Inr () \<and>
      (\<exists>t sigs b. cosign_VerifyImageSignatures sample_cosign t ''r/app:1'' key_verifier = Inr (sigs, b) \<and> sigs \<noteq> [])"
proof -
  let ?o = "cosign_verifiers sample_cosign (\<lambda>_. key_verifier) sample_oci"
  let ?r = "\<lparr>oci_URL = empty_url, oci_Client = 0, oci_Options = [], oci_tlsConfig = None, oci_RegistryClient = 0,
    credentialsFile = '''', verifiers = [0]\<rparr> :: oci_repository"
  let ?cv = "\<lparr>cv_Metadata = \<lparr>md_Name = ''app'', md_Version = ''1'', md_APIVersion = '''', md_Dependencies = []\<rparr>,
     cv_URLs = [''oci://r/app:1''], cv_Created = 0\<rparr> :: chart_version"
  let ?opts = "\<lambda>_ :: nat. [WithPublicKey ''k'']"
  have ok: "fst (VerifyChart ?o ?r ?cv small_world) = Inr ()" by code_simp
  have k: "NewCosignVerifier sample_cosign [WithPublicKey ''k''] = Inr key_verifier"
    by (simp add: NewCosignVerifier_def apply_options_def WithPublicKey_def with_key_def sample_cosign_def key_verifier_def
        bindE_def)
  have "\<forall>v \<in> set (verifiers ?r). NewCosignVerifier sample_cosign (?opts v) = Inr key_verifier \<and>
      PublicKey (apply_options (?opts v)) \<noteq> ''''"
    using k by (simp add: apply_options_def WithPublicKey_def)
  from verified_with_a_public_key[OF ok this]
  obtain ref t sigs b where "ParseReference sample_oci (trim_prefix ''oci://r/app:1'' oci_prefix) = Inr ref"
    and "cosign_VerifyImageSignatures sample_cosign t ref key_verifier = Inr (sigs, b)" "sigs \<noteq> []" by auto
  moreover have "trim_prefix ''oci://r/app:1'' oci_prefix = ''r/app:1''" by code_simp
  ultimately show ?thesis unfolding Let_def using ok by (auto simp: sample_oci_def)
qed

end
