(* ===== verification/Spec2Isabelle.thy ===== *)
theory Spec2Isabelle
  imports Ignore ReleaseThreads Program LocalBuilder OCIVerifier
begin

text \<open>
  A model of flux-build.

  \<^bold>\<open>The program.\<close> flux-build builds kustomize overlays and renders the Flux HelmReleases it finds
  in them. \<open>main.go\<close> reads flags and environment and starts an action (\<open>internal/action\<close>). The
  action kustomizes all paths concurrently (\<open>internal/build/kustomize.go\<close>), puts the resources
  into an index (\<open>internal/build/index.go\<close>), and has a pool of workers build every HelmRelease of
  the index (\<open>internal/build/helm.go\<close>): values are composed from config maps and secrets, the
  chart comes from a HelmRepository, HTTP or OCI (\<open>internal/helm/repository\<close>), through a chart
  builder (\<open>internal/helm/chart\<close>) and the chart cache (\<open>internal/helm/chart/cache\<close>), the Helm
  engine renders it, the post renderers (\<open>internal/helm/postrenderer\<close>) edit the manifests, and
  kustomize reads them back. One writer prints all manifests.

  \<^bold>\<open>Conventions.\<close> A Go string or byte slice is a list of bytes. A function that returns a value and
  an error is a function into a sum, \<open>Inl\<close> the error; a nil pointer is \<open>None\<close>; a panic is an
  \<open>Inl\<close> of a result that has no error otherwise, or \<open>None\<close>, where the text of the theory says so.
  A structure is a record with the fields that the code reads or writes. Effects on files are
  functions of type \<open>'a io\<close> from a world to a result and a world. Each system call takes one tick
  of the clock of the world, and the world may let the call of any tick fail, so a theorem about
  a run is a theorem about every schedule of failures. Goroutines are step relations with one
  rule per communication, so every interleaving is a run. Code that is not in the repository is
  a parameter (the records whose names end in \<open>ext\<close>); Go's standard library is modelled. Names of
  definitions are the names of the source where Isabelle allows it.

  \<^bold>\<open>The standard library.\<close> \<open>Prelude\<close> (error values, results, shared lemmas), \<open>GoStrings\<close>
  (\<open>strings\<close>, \<open>bytes\<close>, printing of numbers), \<open>GoPath\<close> (\<open>path\<close>, \<open>path/filepath\<close>), \<open>GoURL\<close>
  (\<open>net/url\<close>), \<open>GoGlob\<close> (\<open>filepath.Match\<close>), \<open>GoSort\<close> (\<open>sort.SliceStable\<close>, with its algorithm),
  \<open>GoOS\<close> (\<open>os\<close> over a world of files), \<open>GoLinks\<close> (paths that lead through links). Their lemmas
  say what the components use: cleaning a path is idempotent and joining with a plain name stays
  inside the directory, splitting and joining at a character are inverse, sorting gives a sorted
  permutation even for comparisons that are no strict orders, calls keep what they do not touch.

  \<^bold>\<open>Chart repositories.\<close> \<open>Repository\<close> (\<open>utils.go\<close>, \<open>repository.go\<close>, \<open>errors.go\<close>: URLs, errors, the
  data of an index), \<open>Transport\<close> (\<open>internal/transport\<close>: the pool of transports), \<open>ChartRepository\<close>
  (\<open>chart_repository.go\<close>: index files, pruning, the choice of a version, downloads),
  \<open>OCIRepository\<close> (\<open>oci_chart_repository.go\<close>: tags, login, downloads, verification), \<open>OCIVerifier\<close>
  (\<open>internal/oci/verifier.go\<close>), \<open>Downloader\<close> (the interface of both, stated as the locale
  \<open>downloader_contract\<close> and interpreted on the two implementations), \<open>Credentials\<close>
  (\<open>internal/helm/getter\<close>, \<open>internal/helm/registry\<close>, \<open>internal/oci/auth.go\<close>: from secrets to logins).
  The theorems say which version is chosen and when none is, that pruning is a filter, that the
  index file does not stay behind, that no TLS settings stay in the pool, and that a chart
  verified with keys has a signature made with one of them.

  \<^bold>\<open>Charts.\<close> \<open>Values\<close> (charts and decoded YAML), \<open>ChartRef\<close> (\<open>builder.go\<close>, \<open>errors.go\<close>: references,
  options, error reasons), \<open>ChartMetadata\<close> (\<open>metadata.go\<close>), \<open>Fs\<close> (\<open>internal/fs\<close>: renaming with a
  copying fallback, long Windows paths), \<open>RemoteBuilder\<close> (\<open>builder_remote.go\<close>), \<open>Ignore\<close>
  (\<open>secureloader/ignore\<close>), \<open>SecureLoader\<close> (\<open>secureloader\<close> and its walk through links),
  \<open>DependencyManager\<close> (\<open>dependency_manager.go\<close>: the jobs of \<open>Build\<close> are a step relation), and
  \<open>LocalBuilder\<close> (\<open>builder_local.go\<close>). \<open>Build\<close> of either builder is shown to return, with an
  error of known reason or a chart at the path asked for, unless the dependency manager panics.
  What is written is a chart that was read back and validated; what is loaded lies below the root,
  all links resolved; a chart directory is packaged with every missing dependency added once, from
  the source that the dependency names. The jobs of the dependency manager end, or one of them
  panics and with it the process, which takes a nil downloader (a failing callback leaves one,
  \<open>failed_callback_can_crash_build\<close>) or a panic of the callback or a downloader itself. The local
  builder relies on the locale \<open>dependency_building\<close>, which is interpreted on \<open>build_in_order\<close>, one
  run of the jobs.

  \<^bold>\<open>Caches.\<close> \<open>Memcache\<close> (\<open>internal/cache/cache.go\<close>: every operation, and the locale \<open>memo_cache\<close> of
  lookup and unlocking), \<open>MemcacheThreads\<close> (any number of threads on one cache: at most one owner
  per key, waiters are served), \<open>ChartCache\<close> (the three chart caches and the locale
  \<open>chart_cache_contract\<close>, interpreted on each of them and on their sum). Locks are never left
  behind whatever is asked for; paths lie in the cache directory for versions without a slash, and
  files of different requests differ for versions without a percent sign too, which the code does
  not check (\<open>version_escapes_cache_dir\<close>, \<open>fs_cache_collisions\<close>).

  \<^bold>\<open>Builds.\<close> \<open>Resources\<close> (\<open>internal/build/index.go\<close> and the decoded objects), \<open>HelmValues\<close>
  (\<open>composeValues\<close>), \<open>HelmRepo\<close> (\<open>buildFromHelmRepository\<close>: locks, credentials, the chart), \<open>PostRender\<close>
  (the post renderers and their chain), \<open>Kustomize\<close> (\<open>internal/build/kustomize.go\<close>), \<open>HelmBuild\<close>
  (\<open>Build\<close>, \<open>renderRelease\<close>). Here contracts meet: \<open>HelmRepo\<close> builds over the contracts of the
  chart cache, the repository cache and the downloaders, and shows that no lock stays held;
  \<open>HelmBuild\<close> shows that kustomize sees exactly what was rendered. \<open>ReleaseThreads\<close> has any number of
  workers in \<open>buildFromHelmRepository\<close> at the same time, as the chart cache and the repository cache
  see them: the order of the two locks excludes a deadlock, and the first build of a chart is
  alone (the ones after it need not be, \<open>later_builds_overlap\<close>).

  \<^bold>\<open>The process.\<close> \<open>Action\<close> (\<open>internal/action/action.go\<close>: goroutines, channels, pools),
  \<open>CommandLine\<close> (\<open>main.go\<close>), and \<open>Program\<close>, which puts \<open>Kustomize\<close> and \<open>Build\<close> in the place of the
  tasks that \<open>Action\<close> leaves open, on one world and one builder. \<open>Program\<close> refines \<open>Action\<close> (the
  locale \<open>simulation\<close>), so what holds of every run of the goroutines holds of the program. A run is
  never stuck and never infinite, every manifest goes through the writer once, the exit status is
  determined by the errors that were collected, but for a race over a single error, and what \<open>main\<close> starts meets the hypotheses of
  these theorems. Of the whole program: only overlays of the paths and releases of their resources
  are printed, each once, and all of them when there was no error. The proof keeps a ledger that
  gives every task and every manifest an origin of its own (\<open>traced\<close>).

  \<^bold>\<open>Bounds.\<close> Walks over trees have the depth bound \<open>max_depth\<close> = 4096; a path has at most 4096
  bytes and each level adds two of them at least, so no walk reaches it (the walk through links
  takes at most two calls per element). Links are followed 40 times by the kernel (41 lookups)
  and 255 times by \<open>EvalSymlinks\<close>, as the real ones do, and then the call fails. A temporary name
  is tried 10000 times, as in \<open>os.CreateTemp\<close>. These are bounds of the code that is modelled, not
  fuel of the model. Loops without such a bound are recursive functions with a termination proof.
  Integers that cannot overflow are \<open>nat\<close> or \<open>int\<close>; the FNV hash of a cache file is a \<open>32 word\<close>.

  \<^bold>\<open>Not modelled.\<close> File modes, owners and times, time-outs and cancellation of requests, logging,
  and the text of messages of other packages: the code passes them on. Helm, kustomize, the YAML
  and tar codecs, HTTP and registry clients, semantic versions, cosign, cloud credentials and the
  libraries for flags, environment and worker pools are parameters, with the documented behaviour
  that a theorem needs as a named hypothesis. In \<open>Action\<close> a build may have any result. In \<open>Program\<close> it
  has the result of the code, as one step of the world: tasks are interleaved, but their accesses
  to files, caches and the index are not (workers that wait for each other's locks are the subject
  of \<open>ReleaseThreads\<close>). In \<open>DependencyManager\<close> a job takes effect in one step, since its changes to
  shared data happen under a lock. Relative paths are taken from the root. The
  code of \<open>makeVerifiers\<close> is commented out in the source. \<open>file.go\<close> of the loader only forwards to
  Helm. Windows is modelled where the source has code of its own for it.
\<close>

end
